(* ===== verification/Prelude.thy ===== *)
theory Prelude
  imports Main "HOL-Library.AList" "HOL-Library.State_Monad" "HOL-Library.Word"
begin

text \<open>
  Shared vocabulary of the development: Go maps as association lists, Go errors and the three ways
  a Go function ends (a value, an error, a panic), and the collections of rules the component
  theories extend.

  A Go \<^verbatim>\<open>map[string]string\<close> is an association list with distinct keys (\<open>wf_map\<close>). The order of the
  list carries no meaning for lookups; where the source ranges over a map and the order can be
  observed, the model asks the environment for the order (theory World). A nil map is
  distinguished from an empty one only where the source does (\<open>gomap option\<close>).
\<close>

named_theorems prog_defs \<open>definitions of the primitive effects\<close>
named_theorems emits_intros \<open>rules that derive which events a program may emit\<close>
named_theorems wp_simps \<open>weakest-precondition equations\<close>

section \<open>Go maps\<close>

type_synonym gomap = "(string \<times> string) list"

definition wf_map :: "('k \<times> 'v) list \<Rightarrow> bool" where
  "wf_map m \<longleftrightarrow> distinct (map fst m)"

text \<open>\<open>m[k]\<close> as a value: the zero value \<open>""\<close> when the key is absent.\<close>

definition mindex :: "gomap \<Rightarrow> string \<Rightarrow> string" where
  "mindex m k = (case map_of m k of None \<Rightarrow> '''' | Some v \<Rightarrow> v)"

text \<open>\<open>_, ok := m[k]\<close>.\<close>

definition mhas :: "('k \<times> 'v) list \<Rightarrow> 'k \<Rightarrow> bool" where
  "mhas m k \<longleftrightarrow> map_of m k \<noteq> None"

abbreviation mput :: "'k \<Rightarrow> 'v \<Rightarrow> ('k \<times> 'v) list \<Rightarrow> ('k \<times> 'v) list" where
  "mput \<equiv> AList.update"

abbreviation mdel :: "'k \<Rightarrow> ('k \<times> 'v) list \<Rightarrow> ('k \<times> 'v) list" where
  "mdel \<equiv> AList.delete"

text \<open>\<open>for k, v := range src { dst[k] = v }\<close>.\<close>

definition mputs :: "('k \<times> 'v) list \<Rightarrow> ('k \<times> 'v) list \<Rightarrow> ('k \<times> 'v) list" where
  "mputs src dst = fold (\<lambda>(k, v). mput k v) src dst"

text \<open>A nil map reads as an empty one.\<close>

definition entries :: "('k \<times> 'v) list option \<Rightarrow> ('k \<times> 'v) list" where
  "entries m = (case m of None \<Rightarrow> [] | Some xs \<Rightarrow> xs)"

lemma entries_simps [simp]: "entries None = []" "entries (Some xs) = xs"
  by (simp_all add: entries_def)

lemma wf_map_Nil [simp]: "wf_map []"
  by (simp add: wf_map_def)

lemma wf_map_Cons [simp]: "wf_map ((k, v) # m) \<longleftrightarrow> k \<notin> fst ` set m \<and> wf_map m"
  by (auto simp: wf_map_def)

lemma wf_map_update [simp]: "wf_map m \<Longrightarrow> wf_map (mput k v m)"
  by (simp add: wf_map_def distinct_update)

lemma wf_map_delete [simp]: "wf_map m \<Longrightarrow> wf_map (mdel k m)"
  by (simp add: wf_map_def distinct_delete)

lemma wf_map_filter [simp]: "wf_map m \<Longrightarrow> wf_map (filter P m)"
  by (simp add: wf_map_def distinct_map_filter)

lemma wf_map_mputs [simp]: "wf_map m \<Longrightarrow> wf_map (mputs src m)"
  unfolding mputs_def by (induction src arbitrary: m) (auto split: prod.splits)

lemma map_of_mput [simp]: "map_of (mput k v m) k' = (if k' = k then Some v else map_of m k')"
  by (simp add: update_conv')

lemma map_of_mdel [simp]: "map_of (mdel k m) k' = (if k' = k then None else map_of m k')"
  by (simp add: delete_conv')

lemma map_of_mputs:
  "wf_map src \<Longrightarrow> map_of (mputs src dst) k = (case map_of src k of None \<Rightarrow> map_of dst k | Some v \<Rightarrow> Some v)"
proof -
  have step: "map_of (fold (\<lambda>(k, v). mput k v) src dst) k =
      (case map_of (rev src) k of None \<Rightarrow> map_of dst k | Some v \<Rightarrow> Some v)" for dst
    by (induction src arbitrary: dst) (auto simp: map_add_def split: option.splits)
  assume "wf_map src"
  then have "map_of (rev src) = map_of src"
    by (intro map_of_eqI) (auto simp: wf_map_def rev_map distinct_map intro: map_of_is_SomeI)
  then show ?thesis by (simp add: mputs_def step)
qed

lemma in_set_wf_map: "wf_map m \<Longrightarrow> (k, v) \<in> set m \<longleftrightarrow> map_of m k = Some v"
  by (auto simp: wf_map_def intro: map_of_is_SomeI dest: map_of_SomeD)

lemma mhas_iff: "mhas m k \<longleftrightarrow> k \<in> fst ` set m"
  by (simp add: mhas_def map_of_eq_None_iff)

lemma set_mdel: "set (mdel k m) = {kv \<in> set m. fst kv \<noteq> k}"
  by (auto simp: AList.delete_eq)

lemma set_mput: "wf_map m \<Longrightarrow> set (mput k v m) = insert (k, v) {kv \<in> set m. fst kv \<noteq> k}"
  by (auto simp: in_set_wf_map split: if_splits)

lemma mput_absent_length: "k \<notin> fst ` set m \<Longrightarrow> length (mput k v m) = Suc (length m)"
  by (induction m) auto

section \<open>Errors\<close>

text \<open>
  \<^verbatim>\<open>ApiError\<close> is an error of the Kubernetes API machinery with its status reason;
  \<^verbatim>\<open>StatusError\<close> a gRPC status (\<^verbatim>\<open>status.Errorf\<close>), \<^verbatim>\<open>Errorf\<close> a plain \<^verbatim>\<open>fmt.Errorf\<close>; both keep the source's
  format string, its string arguments and the error formatted into it. \<^verbatim>\<open>OsError\<close> is an error of a
  system call, \<^verbatim>\<open>ExtError\<close> an error of other code outside the repository.
\<close>

datatype api_reason = NotFound | Conflict | AlreadyExists | OtherReason string

datatype code = InvalidArgument | Internal | AlreadyExistsCode | NotFoundCode | Unimplemented

datatype errno = ENOENT | OtherErrno string

datatype goerr =
    ApiError api_reason
  | StatusError code string "string list" "goerr option"
  | Errorf string "string list" "goerr option"
  | OsError errno
  | ExtError string

fun IsNotFound :: "goerr \<Rightarrow> bool" where
  "IsNotFound (ApiError NotFound) = True"
| "IsNotFound _ = False"

fun IsConflict :: "goerr \<Rightarrow> bool" where
  "IsConflict (ApiError Conflict) = True"
| "IsConflict _ = False"

text \<open>\<^verbatim>\<open>os.IsNotExist\<close>.\<close>

fun os_IsNotExist :: "goerr \<Rightarrow> bool" where
  "os_IsNotExist (OsError ENOENT) = True"
| "os_IsNotExist _ = False"

text \<open>How a call ends: with a value, with a non-nil error, or by a panic that unwinds the caller.\<close>

datatype 'a outcome = Ok 'a | Err goerr | Panic string

fun is_panic :: "'a outcome \<Rightarrow> bool" where
  "is_panic (Panic _) = True"
| "is_panic _ = False"

text \<open>\<^verbatim>\<open>v, err := e; if err != nil { return nil, err }; f(v)\<close> for functions without effects.\<close>

definition bindE :: "goerr + 'a \<Rightarrow> ('a \<Rightarrow> goerr + 'b) \<Rightarrow> goerr + 'b" where
  "bindE r f = (case r of Inl e \<Rightarrow> Inl e | Inr v \<Rightarrow> f v)"

lemma bindE_simps [simp]: "bindE (Inl e) f = Inl e" "bindE (Inr v) f = f v"
  by (simp_all add: bindE_def)

lemma bindE_Inr_iff: "bindE r f = Inr w \<longleftrightarrow> (\<exists>v. r = Inr v \<and> f v = Inr w)"
  by (cases r) auto

lemma bindE_Inl_iff: "bindE r f = Inl e \<longleftrightarrow> r = Inl e \<or> (\<exists>v. r = Inr v \<and> f v = Inl e)"
  by (cases r) auto

lemma is_panic_iff: "is_panic r \<longleftrightarrow> (\<exists>m. r = Panic m)"
  by (cases r) auto

lemma IsNotFound_iff [simp]: "IsNotFound e \<longleftrightarrow> e = ApiError NotFound"
  by (cases e rule: IsNotFound.cases) auto

lemma IsConflict_iff [simp]: "IsConflict e \<longleftrightarrow> e = ApiError Conflict"
  by (cases e rule: IsConflict.cases) auto

text \<open>A property of the value of a computation that may fail.\<close>

definition okE :: "('a \<Rightarrow> bool) \<Rightarrow> goerr + 'a \<Rightarrow> bool" where
  "okE P m \<longleftrightarrow> (\<forall>x. m = Inr x \<longrightarrow> P x)"

lemma okE_simps [simp]: "okE P (Inl e)" "okE P (Inr x) \<longleftrightarrow> P x"
  by (simp_all add: okE_def)

lemma okE_bind: "okE P m \<Longrightarrow> (\<And>x. P x \<Longrightarrow> okE Q (f x)) \<Longrightarrow> okE Q (bindE m f)"
  by (cases m) simp_all

lemma okE_bind_any: "(\<And>x. okE Q (f x)) \<Longrightarrow> okE Q (bindE m f)"
  by (cases m) simp_all

end
