(* ===== verification/GoStrings.thy ===== *)
theory GoStrings
  imports Prelude
begin

text \<open>
  The functions of Go's \<^verbatim>\<open>strings\<close> and \<^verbatim>\<open>strconv\<close> packages that the driver calls, on byte strings
  (a Go string is a sequence of bytes, a HOL \<open>string\<close> a list of 8-bit characters), and the laws
  the component theories use: splitting and joining are inverse, an index found is the first
  occurrence, a field contains no white space.
\<close>

section \<open>Prefixes, suffixes, search\<close>

definition HasPrefix :: "string \<Rightarrow> string \<Rightarrow> bool" where
  "HasPrefix s p \<longleftrightarrow> take (length p) s = p"

definition HasSuffix :: "string \<Rightarrow> string \<Rightarrow> bool" where
  "HasSuffix s p \<longleftrightarrow> length p \<le> length s \<and> drop (length s - length p) s = p"

definition TrimPrefix :: "string \<Rightarrow> string \<Rightarrow> string" where
  "TrimPrefix s p = (if HasPrefix s p then drop (length p) s else s)"

definition TrimSuffix :: "string \<Rightarrow> string \<Rightarrow> string" where
  "TrimSuffix s p = (if HasSuffix s p then take (length s - length p) s else s)"

text \<open>\<^verbatim>\<open>strings.Trim(s, cutset)\<close> for a one-character ASCII cutset.\<close>

definition TrimChar :: "string \<Rightarrow> char \<Rightarrow> string" where
  "TrimChar s c = rev (dropWhile (\<lambda>d. d = c) (rev (dropWhile (\<lambda>d. d = c) s)))"

text \<open>\<^verbatim>\<open>strings.Index\<close>: the first position of the substring, -1 when there is none.\<close>

fun Index_nat :: "string \<Rightarrow> string \<Rightarrow> nat option" where
  "Index_nat [] p = (if p = [] then Some 0 else None)"
| "Index_nat (c # s) p = (if HasPrefix (c # s) p then Some 0 else map_option Suc (Index_nat s p))"

definition Index :: "string \<Rightarrow> string \<Rightarrow> int" where
  "Index s p = (case Index_nat s p of None \<Rightarrow> -1 | Some i \<Rightarrow> int i)"

definition Contains :: "string \<Rightarrow> string \<Rightarrow> bool" where
  "Contains s p \<longleftrightarrow> Index_nat s p \<noteq> None"

text \<open>\<^verbatim>\<open>strings.LastIndex\<close> for a one-character substring.\<close>

fun LastIndex_char :: "string \<Rightarrow> char \<Rightarrow> int" where
  "LastIndex_char [] c = -1"
| "LastIndex_char (d # s) c =
     (let i = LastIndex_char s c in if 0 \<le> i then i + 1 else if d = c then 0 else -1)"

section \<open>Split, Join, ReplaceAll\<close>

text \<open>\<^verbatim>\<open>strings.Split\<close> with a non-empty separator: cut at the leftmost, non-overlapping occurrences.\<close>

function Split :: "string \<Rightarrow> string \<Rightarrow> string list" where
  "Split [] sep = [[]]"
| "Split (c # s) sep =
     (if HasPrefix (c # s) sep \<and> sep \<noteq> [] then [] # Split (drop (length sep) (c # s)) sep
      else (case Split s sep of [] \<Rightarrow> [[c]] | w # ws \<Rightarrow> (c # w) # ws))"
  by pat_completeness auto
termination
  by (relation "measure (\<lambda>(s, sep). length s)") auto

fun Join :: "string list \<Rightarrow> string \<Rightarrow> string" where
  "Join [] sep = []"
| "Join [w] sep = w"
| "Join (w # v # ws) sep = w @ sep @ Join (v # ws) sep"

definition ReplaceAll :: "string \<Rightarrow> string \<Rightarrow> string \<Rightarrow> string" where
  "ReplaceAll s old new = Join (Split s old) new"

section \<open>White space\<close>

definition ascii_space :: "char \<Rightarrow> bool" where
  "ascii_space c \<longleftrightarrow> c \<in> {CHR 0x09, CHR 0x0A, CHR 0x0B, CHR 0x0C, CHR 0x0D, CHR '' ''}"

text \<open>
  The number of bytes of the white-space rune the string starts with, 0 when it starts with none:
  the runes of \<^verbatim>\<open>unicode.IsSpace\<close> in UTF-8.
\<close>

fun space_len :: "string \<Rightarrow> nat" where
  "space_len [] = 0"
| "space_len (c # s) =
     (if ascii_space c then 1
      else if c = CHR 0xC2 then
        (case s of d # _ \<Rightarrow> if d = CHR 0x85 \<or> d = CHR 0xA0 then 2 else 0 | _ \<Rightarrow> 0)
      else if c = CHR 0xE1 then
        (case s of d # e # _ \<Rightarrow> if d = CHR 0x9A \<and> e = CHR 0x80 then 3 else 0 | _ \<Rightarrow> 0)
      else if c = CHR 0xE2 then
        (case s of d # e # _ \<Rightarrow>
            if d = CHR 0x80 \<and> (of_char e \<in> {0x80..(0x8A::nat)} \<or> e = CHR 0xA8 \<or> e = CHR 0xA9 \<or> e = CHR 0xAF)
              \<or> d = CHR 0x81 \<and> e = CHR 0x9F then 3 else 0
         | _ \<Rightarrow> 0)
      else if c = CHR 0xE3 then
        (case s of d # e # _ \<Rightarrow> if d = CHR 0x80 \<and> e = CHR 0x80 then 3 else 0 | _ \<Rightarrow> 0)
      else 0)"

text \<open>\<^verbatim>\<open>strings.Fields\<close>, with the field being read as an accumulator.\<close>

definition flush :: "string \<Rightarrow> string list" where
  "flush acc = (if acc = [] then [] else [acc])"

function fields_acc :: "string \<Rightarrow> string \<Rightarrow> string list" where
  "fields_acc [] acc = flush acc"
| "fields_acc (c # s) acc =
     (if space_len (c # s) = 0 then fields_acc s (acc @ [c])
      else flush acc @ fields_acc (drop (space_len (c # s)) (c # s)) [])"
  by pat_completeness auto
termination
  by (relation "measure (\<lambda>(s, acc). length s)") auto

definition Fields :: "string \<Rightarrow> string list" where
  "Fields s = fields_acc s []"

text \<open>\<^verbatim>\<open>strings.TrimSpace\<close>: white-space runes are cut at both ends.\<close>

function trim_space_left :: "string \<Rightarrow> string" where
  "trim_space_left s = (if space_len s = 0 then s else trim_space_left (drop (space_len s) s))"
  by pat_completeness auto
termination
proof (relation "measure length")
  fix s :: string
  assume "space_len s \<noteq> 0"
  then have "0 < space_len s" "s \<noteq> []" by (auto simp del: space_len.simps(2))
  then show "(drop (space_len s) s, s) \<in> measure length" by (simp del: space_len.simps)
qed simp

declare trim_space_left.simps [simp del]

text \<open>The length of the longest non-space prefix that ends in a rune other than white space.\<close>

fun trim_space_right :: "string \<Rightarrow> string" where
  "trim_space_right [] = []"
| "trim_space_right (c # s) =
     (if trim_space_left (c # s) = [] then [] else c # trim_space_right s)"

definition TrimSpace :: "string \<Rightarrow> string" where
  "TrimSpace s = trim_space_right (trim_space_left s)"

section \<open>Numbers\<close>

definition is_digit :: "char \<Rightarrow> bool" where
  "is_digit c \<longleftrightarrow> of_char c \<in> {48..(57::nat)}"

definition digit_val :: "char \<Rightarrow> int" where
  "digit_val c = of_char c - 48"

definition digits_val :: "string \<Rightarrow> int" where
  "digits_val s = fold (\<lambda>c n. 10 * n + digit_val c) s 0"

text \<open>\<^verbatim>\<open>strconv.Atoi\<close> on a 64-bit platform: an optional sign, digits, the range of \<^verbatim>\<open>int64\<close>.\<close>

definition Atoi :: "string \<Rightarrow> goerr + int" where
  "Atoi s =
     (let neg = HasPrefix s ''-'';
          ds = (if neg \<or> HasPrefix s ''+'' then tl s else s);
          n = (if neg then - digits_val ds else digits_val ds)
      in if ds = [] \<or> \<not> list_all is_digit ds then Inl (ExtError ''strconv.Atoi: invalid syntax'')
         else if n < - (2 ^ 63) \<or> 2 ^ 63 - 1 < n then Inl (ExtError ''strconv.Atoi: value out of range'')
         else Inr n)"

section \<open>Laws\<close>

lemma HasPrefix_iff: "HasPrefix s p \<longleftrightarrow> (\<exists>r. s = p @ r)"
  by (auto simp: HasPrefix_def) (metis append_take_drop_id)

lemma HasPrefix_append [simp]: "HasPrefix (p @ r) p"
  by (simp add: HasPrefix_def)

lemma HasPrefix_Nil [simp]: "HasPrefix s []"
  by (simp add: HasPrefix_def)

lemma HasPrefix_char: "HasPrefix (c # s) [d] \<longleftrightarrow> c = d"
  by (auto simp: HasPrefix_def)

lemma TrimPrefix_append [simp]: "TrimPrefix (p @ r) p = r"
  by (simp add: TrimPrefix_def)

lemma TrimSuffix_append [simp]: "TrimSuffix (r @ p) p = r"
  by (simp add: TrimSuffix_def HasSuffix_def)

lemma Index_nat_Some:
  "Index_nat s p = Some i \<Longrightarrow> i + length p \<le> length s \<and> HasPrefix (drop i s) p"
proof (induction s p arbitrary: i rule: Index_nat.induct)
  case (1 p)
  then show ?case by (auto split: if_splits)
next
  case (2 c s p)
  show ?case
  proof (cases "HasPrefix (c # s) p")
    case True
    with "2.prems" have "i = 0" by simp
    moreover obtain r where "c # s = p @ r" using True by (auto simp: HasPrefix_iff)
    then have "length p \<le> length (c # s)" by simp
    ultimately show ?thesis using True by simp
  next
    case False
    with "2.prems" obtain j where j: "Index_nat s p = Some j" "i = Suc j" by auto
    from "2.IH" [OF False j(1)] j(2) show ?thesis by simp
  qed
qed

lemma Index_nat_first: "Index_nat s p = Some i \<Longrightarrow> j < i \<Longrightarrow> \<not> HasPrefix (drop j s) p"
proof (induction s p arbitrary: i j rule: Index_nat.induct)
  case (1 p)
  then show ?case by (auto split: if_splits)
next
  case (2 c s p)
  then show ?case by (cases j) (auto split: if_splits)
qed

lemma Index_nat_None: "Index_nat s p = None \<Longrightarrow> \<not> HasPrefix (drop j s) p"
proof (induction s p arbitrary: j rule: Index_nat.induct)
  case (1 p)
  then show ?case by (auto simp: HasPrefix_def split: if_splits)
next
  case (2 c s p)
  then show ?case by (cases j) (auto split: if_splits)
qed

lemma Contains_iff: "Contains s p \<longleftrightarrow> (\<exists>a b. s = a @ p @ b)"
proof
  assume "Contains s p"
  then obtain i where "Index_nat s p = Some i" by (auto simp: Contains_def)
  then have "HasPrefix (drop i s) p" by (simp add: Index_nat_Some)
  then obtain r where "drop i s = p @ r" by (auto simp: HasPrefix_iff)
  then have "s = take i s @ p @ r" by (metis append_take_drop_id)
  then show "\<exists>a b. s = a @ p @ b" by blast
next
  assume "\<exists>a b. s = a @ p @ b"
  then obtain a b where s: "s = a @ p @ b" by blast
  then have "HasPrefix (drop (length a) s) p" by simp
  then show "Contains s p" using Index_nat_None [of s p] by (auto simp: Contains_def)
qed

lemma Contains_char: "Contains s [c] \<longleftrightarrow> c \<in> set s"
  by (auto simp: Contains_iff in_set_conv_decomp)

lemma Split_not_Nil [simp]: "Split s sep \<noteq> []"
  by (induction s sep rule: Split.induct) (auto split: list.splits)

lemma Join_Cons: "ws \<noteq> [] \<Longrightarrow> Join (w # ws) sep = w @ sep @ Join ws sep"
  by (cases ws) auto

lemma Join_Split: "Join (Split s sep) sep = s"
proof (induction s sep rule: Split.induct)
  case (1 sep)
  show ?case by simp
next
  case (2 c s sep)
  show ?case
  proof (cases "HasPrefix (c # s) sep \<and> sep \<noteq> []")
    case True
    then have "sep @ drop (length sep) (c # s) = c # s"
      by (auto simp: HasPrefix_def) (metis append_take_drop_id)
    with True "2.IH"(1) show ?thesis by (simp add: Join_Cons)
  next
    case False
    obtain w ws where w: "Split s sep = w # ws" by (cases "Split s sep") auto
    with "2.IH"(2) [OF False] False show ?thesis by (cases ws) auto
  qed
qed

text \<open>A separator whose first character does not come back in it cannot overlap itself.\<close>

lemma Split_append:
  assumes "d \<notin> set ds" "\<not> Contains a (d # ds)"
  shows "Split (a @ (d # ds) @ b) (d # ds) = a # Split b (d # ds)"
  using assms(2)
proof (induction a)
  case Nil
  show ?case by (simp add: HasPrefix_def)
next
  case (Cons c a)
  have a: "\<not> Contains a (d # ds)"
    using Cons.prems by (metis Contains_iff append_Cons)
  have "\<not> HasPrefix ((c # a) @ (d # ds) @ b) (d # ds)"
  proof
    assume "HasPrefix ((c # a) @ (d # ds) @ b) (d # ds)"
    then obtain r where r: "(c # a) @ (d # ds) @ b = (d # ds) @ r" by (auto simp: HasPrefix_iff)
    then have cd: "c = d" and eq: "a @ (d # ds) @ b = ds @ r" by auto
    show False
    proof (cases "length ds \<le> length a")
      case True
      with eq obtain t where "a = ds @ t" by (metis append_eq_append_conv_if append_take_drop_id)
      with cd have "c # a = [] @ (d # ds) @ t" by simp
      then show False using Cons.prems by (metis Contains_iff)
    next
      case False
      then have "(a @ (d # ds) @ b) ! length a = ds ! length a"
        using eq by (simp add: nth_append)
      then have "d = ds ! length a" by simp
      with False have "d \<in> set ds" by (simp add: nth_mem)
      with assms(1) show False by contradiction
    qed
  qed
  with Cons.IH [OF a] show ?case by simp
qed

lemma Split_none: "\<not> Contains s (d # ds) \<Longrightarrow> Split s (d # ds) = [s]"
proof (induction s)
  case Nil
  show ?case by simp
next
  case (Cons c s)
  have "\<not> Contains s (d # ds)" using Cons.prems by (metis Contains_iff append_Cons)
  moreover have "\<not> HasPrefix (c # s) (d # ds)"
    using Cons.prems by (metis Contains_iff HasPrefix_iff append_Nil)
  ultimately show ?case using Cons.IH by simp
qed

lemma Split_char:
  "c \<notin> set a \<Longrightarrow> Split (a @ c # b) [c] = a # Split b [c]"
  using Split_append [of c "[]" a b] by (simp add: Contains_char)

lemma Split_char_none: "c \<notin> set a \<Longrightarrow> Split a [c] = [a]"
  using Split_none [of a c "[]"] by (simp add: Contains_char)

lemma LastIndex_char_bounds: "-1 \<le> LastIndex_char s c \<and> LastIndex_char s c < int (length s)"
  by (induction s c rule: LastIndex_char.induct) (auto simp: Let_def)

lemma LastIndex_char_none: "c \<notin> set s \<Longrightarrow> LastIndex_char s c = -1"
  by (induction s c rule: LastIndex_char.induct) (auto simp: Let_def)

lemma LastIndex_char_append: "c \<notin> set b \<Longrightarrow> LastIndex_char (a @ c # b) c = int (length a)"
  by (induction a) (auto simp: LastIndex_char_none)

lemma Index_char_append: "c \<notin> set a \<Longrightarrow> Index (a @ c # b) [c] = int (length a)"
proof -
  assume "c \<notin> set a"
  then have "Index_nat (a @ c # b) [c] = Some (length a)"
    by (induction a) (auto simp: HasPrefix_char)
  then show ?thesis by (simp add: Index_def)
qed

subsection \<open>Fields\<close>

definition no_space :: "string \<Rightarrow> bool" where
  "no_space s \<longleftrightarrow> (\<forall>c \<in> set s. \<not> ascii_space c \<and> of_char c < (128::nat))"

lemma space_len_plain [simp]: "\<not> ascii_space c \<Longrightarrow> of_char c < (128::nat) \<Longrightarrow> space_len (c # s) = 0"
  by (auto simp: of_char_def)

lemma space_len_ascii [simp]: "ascii_space c \<Longrightarrow> space_len (c # s) = 1"
  by simp

lemma no_space_Cons [simp]: "no_space (c # s) \<longleftrightarrow> \<not> ascii_space c \<and> of_char c < (128::nat) \<and> no_space s"
  by (auto simp: no_space_def)

lemma no_space_Nil [simp]: "no_space []"
  by (simp add: no_space_def)

lemma no_space_append [simp]: "no_space (a @ b) \<longleftrightarrow> no_space a \<and> no_space b"
  by (auto simp: no_space_def)

lemma fields_acc_word:
  "no_space w \<Longrightarrow> fields_acc (w @ CHR '' '' # s) acc = flush (acc @ w) @ fields_acc s []"
proof (induction w arbitrary: acc)
  case Nil
  have "ascii_space (CHR '' '')" by (simp add: ascii_space_def)
  then have "space_len (CHR '' '' # s) = 1" by simp
  then show ?case by (simp del: space_len.simps)
next
  case (Cons c w)
  then have "space_len (c # w @ CHR '' '' # s) = 0" by (simp del: space_len.simps)
  with Cons show ?case by (simp del: space_len.simps)
qed

lemma Fields_word:
  "no_space w \<Longrightarrow> w \<noteq> [] \<Longrightarrow> Fields (w @ CHR '' '' # s) = w # Fields s"
  using fields_acc_word [of w s "[]"] by (simp add: Fields_def flush_def)

lemma ReplaceAll_char: "ReplaceAll s [c] r = concat (map (\<lambda>x. if x = c then r else [x]) s)"
proof (induction s)
  case Nil
  show ?case by (simp add: ReplaceAll_def)
next
  case (Cons x s)
  obtain w ws where ws: "Split s [c] = w # ws" using Split_not_Nil by (cases "Split s [c]") auto
  show ?case
    using Cons ws by (cases ws) (auto simp: ReplaceAll_def HasPrefix_char Join_Cons)
qed

lemma replace_absent: "c \<notin> set s \<Longrightarrow> concat (map (\<lambda>x. if x = c then r else [x]) s) = s"
  by (induction s) auto

lemma Index_at:
  assumes "\<And>j. j < length a \<Longrightarrow> \<not> HasPrefix (drop j (a @ p @ b)) p"
  shows "Index (a @ p @ b) p = int (length a)"
  using assms
proof (induction a)
  case Nil
  show ?case using HasPrefix_append [of p b] by (cases "p @ b") (auto simp: Index_def)
next
  case (Cons c a)
  have no: "\<not> HasPrefix (c # a @ p @ b) p" using Cons.prems [of 0] by simp
  have "Index (a @ p @ b) p = int (length a)"
    using Cons.IH Cons.prems [of "Suc _"] by simp
  with no show ?case by (auto simp: Index_def split: option.splits)
qed

lemma Split_comps: "w \<in> set (Split s [c]) \<Longrightarrow> c \<notin> set w"
proof (induction s arbitrary: w)
  case Nil
  then show ?case by simp
next
  case (Cons d s)
  obtain v vs where v: "Split s [c] = v # vs" by (cases "Split s [c]") auto
  with Cons show ?case by (cases "d = c") (auto simp: HasPrefix_char)
qed

lemma Split_Join: "ws \<noteq> [] \<Longrightarrow> \<forall>w \<in> set ws. c \<notin> set w \<Longrightarrow> Split (Join ws [c]) [c] = ws"
proof (induction ws)
  case (Cons w ws)
  then show ?case by (cases "ws = []") (simp_all add: Split_char Split_char_none Join_Cons)
qed simp

end
