(* ===== verification/K8sTypes.thy ===== *)
theory K8sTypes
  imports Prelude
begin

text \<open>
  The Kubernetes objects the driver reads and writes (\<^verbatim>\<open>corev1\<close>, \<^verbatim>\<open>batchv1\<close>, \<^verbatim>\<open>metav1\<close>), with the fields
  the source touches. Data the driver only copies from its own pod (host aliases, DNS
  configuration, tolerations and the like) is \<open>opaque\<close>; a resource quantity is what
  \<^verbatim>\<open>resource.ParseQuantity\<close> returned for a string.
\<close>

datatype opaque = Opaque string

datatype quantity = Quantity string

type_synonym resource_list = "(string \<times> quantity) list"

record resources =
  res_limits :: "resource_list option"
  res_requests :: "resource_list option"

record volume_mount =
  vm_name :: string
  vm_mountPath :: string
  vm_bidirectional :: bool

datatype volume_source =
    HostPath string string
  | SecretVolume string "(string \<times> string) list"

record volume =
  vol_name :: string
  vol_source :: volume_source

record probe =
  pb_command :: "string list"
  pb_initialDelaySeconds :: int
  pb_periodSeconds :: int

record container =
  c_name :: string
  c_image :: string
  c_privileged :: bool
  c_command :: "string list"
  c_env :: "(string \<times> string) list"
  c_envFrom :: "string list"
  c_volumeMounts :: "volume_mount list"
  c_resources :: resources
  c_readinessProbe :: "probe option"
  c_preStop :: "string list option"

record pod_spec =
  ps_containers :: "container list"
  ps_initContainers :: "container list"
  ps_volumes :: "volume list"
  ps_nodeName :: string
  ps_hostNetwork :: bool
  ps_hostPID :: bool
  ps_hostIPC :: bool
  ps_hostAliases :: opaque
  ps_dnsConfig :: opaque
  ps_dnsPolicy :: opaque
  ps_serviceAccountName :: string
  ps_imagePullSecrets :: opaque
  ps_preemptionPolicy :: opaque
  ps_tolerations :: opaque
  ps_priorityClassName :: string
  ps_restartPolicy :: string

record container_status =
  cs_name :: string
  cs_ready :: bool
  cs_waiting :: "string option"
  cs_terminated :: "(int \<times> string) option"

record condition =
  cond_type :: string
  cond_status :: string
  cond_reason :: string
  cond_message :: string

record pod_status =
  st_phase :: string
  st_reason :: string
  st_message :: string
  st_conditions :: "condition list"
  st_containerStatuses :: "container_status list"
  st_initContainerStatuses :: "container_status list"

record pod =
  p_name :: string
  p_namespace :: string
  p_uid :: string
  p_labels :: "gomap option"
  p_annotations :: "gomap option"
  p_finalizers :: "string list"
  p_deletionTimestamp :: "int option"
  p_spec :: pod_spec
  p_status :: pod_status

record owner_ref =
  own_apiVersion :: string
  own_kind :: string
  own_name :: string
  own_uid :: string
  own_controller :: bool

record secret =
  sec_name :: string
  sec_namespace :: string
  sec_stringData :: gomap
  sec_ownerReferences :: "owner_ref list"

record job =
  job_name :: string
  job_namespace :: string
  job_uid :: string
  job_podSpec :: pod_spec
  job_ttlSecondsAfterFinished :: int
  job_conditions :: "condition list"

text \<open>Zero values, as Go's composite literals leave the fields they do not name.\<close>

definition zero_resources :: resources where
  "zero_resources = \<lparr>res_limits = None, res_requests = None\<rparr>"

definition zero_container :: container where
  "zero_container = \<lparr>c_name = '''', c_image = '''', c_privileged = False, c_command = [], c_env = [],
     c_envFrom = [], c_volumeMounts = [], c_resources = zero_resources, c_readinessProbe = None,
     c_preStop = None\<rparr>"

definition zero_spec :: pod_spec where
  "zero_spec = \<lparr>ps_containers = [], ps_initContainers = [], ps_volumes = [], ps_nodeName = '''',
     ps_hostNetwork = False, ps_hostPID = False, ps_hostIPC = False, ps_hostAliases = Opaque '''',
     ps_dnsConfig = Opaque '''', ps_dnsPolicy = Opaque '''', ps_serviceAccountName = '''',
     ps_imagePullSecrets = Opaque '''', ps_preemptionPolicy = Opaque '''', ps_tolerations = Opaque '''',
     ps_priorityClassName = '''', ps_restartPolicy = ''''\<rparr>"

definition zero_status :: pod_status where
  "zero_status = \<lparr>st_phase = '''', st_reason = '''', st_message = '''', st_conditions = [],
     st_containerStatuses = [], st_initContainerStatuses = []\<rparr>"

definition zero_pod :: pod where
  "zero_pod = \<lparr>p_name = '''', p_namespace = '''', p_uid = '''', p_labels = None, p_annotations = None,
     p_finalizers = [], p_deletionTimestamp = None, p_spec = zero_spec, p_status = zero_status\<rparr>"

lemmas zero_defs = zero_resources_def zero_container_def zero_spec_def zero_status_def zero_pod_def

lemma zero_pod_sel [simp]:
  "p_annotations zero_pod = None" "p_finalizers zero_pod = []" "p_deletionTimestamp zero_pod = None"
  "p_labels zero_pod = None" "p_name zero_pod = ''''" "p_namespace zero_pod = ''''" "p_uid zero_pod = ''''"
  "p_spec zero_pod = zero_spec" "p_status zero_pod = zero_status"
  by (simp_all add: zero_pod_def)

end
