(* ===== verification/World.thy ===== *)
theory World
  imports GoStrings K8sTypes
begin

text \<open>
  The world the driver acts on, and programs that act on it.

  Everything outside the repository is reached through an environment \<open>env\<close>: the Kubernetes API
  server behind client-go, the kubelet, the kernel's mounts and files, the clock, Go's choice of
  map order. The program's own state \<open>gst\<close> holds the history of the calls it made, newest first, with
  their answers, and the package-level variables of \<^verbatim>\<open>config\<close> that the program mutates. An answer of the
  environment may depend on the whole history, so that a theorem for every \<open>env\<close> covers every
  behaviour of the API server and every interference of other clients between two calls.

  A program is a value of the state monad over \<open>gst\<close>. \<open>wp m Q s\<close> says that running \<open>m\<close> in \<open>s\<close>
  ends in a result and state related by \<open>Q\<close> (programs are total; loops are bounded in the source or
  carry fuel). \<open>emits P m\<close> says that \<open>m\<close> only extends the history, by events that satisfy \<open>P\<close>.
\<close>

section \<open>Events and state\<close>

record file_info =
  fi_perm :: nat
  fi_ino :: nat

record mount_info =
  mi_MountPoint :: string
  mi_Root :: string

datatype (plugins only: code) event =
    EvPodCreate pod "goerr + pod"
  | EvPodGet string string "goerr + pod"
  | EvPodList string gomap "goerr + pod list"
  | EvPodLog string string string "goerr + string"
  | EvPodPatch string string string "goerr option"
  | EvPodUpdate pod "goerr option"
  | EvPodDelete string string "goerr option"
  | EvSecretGet string string "goerr + secret"
  | EvSecretCreate secret "goerr + secret"
  | EvSecretUpdate secret "goerr option"
  | EvSecretDelete string string "goerr option"
  | EvJobGet string string "goerr + job"
  | EvJobCreate job "goerr + job"
  | EvJobUpdate job "goerr option"
  | EvJobDelete string string "goerr option"
  | EvMount string string string "string list" "goerr option"
  | EvUnmount string "goerr option"
  | EvIsNotMnt string "goerr + bool"
  | EvIsLikelyNotMnt string "goerr + bool"
  | EvCleanup string "goerr option"
  | EvPathExists string "bool \<times> goerr option"
  | EvParseMountInfo "goerr + mount_info list"
  | EvStat string "goerr + file_info"
  | EvMkdirAll string nat "goerr option"
  | EvChmod string nat "goerr option"
  | EvRemove string "goerr option"
  | EvWriteFile string string "goerr option"
  | EvReadFile string "goerr + string"
  | EvEvalSymlinks string "goerr + string"
  | EvExec string "string list" "string list" "string \<times> goerr option"
  | EvSpawn string "string list" "string list"
  | EvTimeout bool
  | EvHttpGet string "goerr + (goerr + string)"
  | EvRange gomap gomap
  | EvSleep int
  | EvNow int
  | EvLock nat
  | EvUnlock nat

type_synonym history = "event list"

record gst =
  hist :: history
  cr_limits :: "resource_list option"
  cr_requests :: "resource_list option"

type_synonym 'a prog = "(gst, 'a) state"

section \<open>The environment\<close>

record env =
  k_pod_create :: "history \<Rightarrow> pod \<Rightarrow> goerr + pod"
  k_pod_get :: "history \<Rightarrow> string \<Rightarrow> string \<Rightarrow> goerr + pod"
  k_pod_list :: "history \<Rightarrow> string \<Rightarrow> gomap \<Rightarrow> goerr + pod list"
  k_pod_log :: "history \<Rightarrow> string \<Rightarrow> string \<Rightarrow> string \<Rightarrow> goerr + string"
  k_pod_patch :: "history \<Rightarrow> string \<Rightarrow> string \<Rightarrow> string \<Rightarrow> goerr option"
  k_pod_update :: "history \<Rightarrow> pod \<Rightarrow> goerr option"
  k_pod_delete :: "history \<Rightarrow> string \<Rightarrow> string \<Rightarrow> goerr option"
  k_secret_get :: "history \<Rightarrow> string \<Rightarrow> string \<Rightarrow> goerr + secret"
  k_secret_create :: "history \<Rightarrow> secret \<Rightarrow> goerr + secret"
  k_secret_update :: "history \<Rightarrow> secret \<Rightarrow> goerr option"
  k_secret_delete :: "history \<Rightarrow> string \<Rightarrow> string \<Rightarrow> goerr option"
  k_job_get :: "history \<Rightarrow> string \<Rightarrow> string \<Rightarrow> goerr + job"
  k_job_create :: "history \<Rightarrow> job \<Rightarrow> goerr + job"
  k_job_update :: "history \<Rightarrow> job \<Rightarrow> goerr option"
  k_job_delete :: "history \<Rightarrow> string \<Rightarrow> string \<Rightarrow> goerr option"
  x_retry :: "goerr option prog \<Rightarrow> goerr option prog"
  x_add_finalizer :: "pod \<Rightarrow> string \<Rightarrow> pod"
  x_remove_finalizer :: "pod \<Rightarrow> string \<Rightarrow> pod"
  x_quantity :: "string \<Rightarrow> quantity option"
  m_mount :: "history \<Rightarrow> string \<Rightarrow> string \<Rightarrow> string \<Rightarrow> string list \<Rightarrow> goerr option"
  m_unmount :: "history \<Rightarrow> string \<Rightarrow> goerr option"
  m_is_not_mnt :: "history \<Rightarrow> string \<Rightarrow> goerr + bool"
  m_is_likely_not_mnt :: "history \<Rightarrow> string \<Rightarrow> goerr + bool"
  m_cleanup :: "history \<Rightarrow> string \<Rightarrow> goerr option"
  m_path_exists :: "history \<Rightarrow> string \<Rightarrow> bool \<times> goerr option"
  m_parse_mountinfo :: "history \<Rightarrow> goerr + mount_info list"
  m_is_corrupted :: "goerr \<Rightarrow> bool"
  o_stat :: "history \<Rightarrow> string \<Rightarrow> goerr + file_info"
  o_mkdir_all :: "history \<Rightarrow> string \<Rightarrow> nat \<Rightarrow> goerr option"
  o_chmod :: "history \<Rightarrow> string \<Rightarrow> nat \<Rightarrow> goerr option"
  o_remove :: "history \<Rightarrow> string \<Rightarrow> goerr option"
  o_write_file :: "history \<Rightarrow> string \<Rightarrow> string \<Rightarrow> goerr option"
  o_read_file :: "history \<Rightarrow> string \<Rightarrow> goerr + string"
  o_eval_symlinks :: "history \<Rightarrow> string \<Rightarrow> goerr + string"
  o_exec :: "history \<Rightarrow> string \<Rightarrow> string list \<Rightarrow> string list \<Rightarrow> string \<times> goerr option"
  o_getenv :: "string \<Rightarrow> string option"
  o_environ :: "string list"
  o_timeout :: "history \<Rightarrow> bool"
  o_http_get :: "history \<Rightarrow> string \<Rightarrow> goerr + (goerr + string)"
  x_pod_list :: "string \<Rightarrow> goerr + pod list option"
  o_now :: "history \<Rightarrow> int"
  o_tz :: "int \<Rightarrow> int"
  g_frac :: "int \<Rightarrow> int \<Rightarrow> int \<Rightarrow> int"
  g_range :: "history \<Rightarrow> gomap \<Rightarrow> gomap"

section \<open>Primitive effects\<close>

text \<open>A call to the environment: read the answer for the present history, record it.\<close>

definition call :: "(history \<Rightarrow> 'r) \<Rightarrow> ('r \<Rightarrow> event) \<Rightarrow> 'r prog" where
  "call f ev = State (\<lambda>s. let r = f (hist s) in (r, s\<lparr>hist := ev r # hist s\<rparr>))"

definition emit :: "event \<Rightarrow> unit prog" where
  "emit e = call (\<lambda>_. ()) (\<lambda>_. e)"

definition Sleep :: "int \<Rightarrow> unit prog" where
  "Sleep ns = emit (EvSleep ns)"

text \<open>\<^verbatim>\<open>lock.Lock(); defer lock.Unlock()\<close> around the rest of a function.\<close>

definition with_lock :: "nat \<Rightarrow> 'a prog \<Rightarrow> 'a prog" where
  "with_lock i body = do {
     emit (EvLock i);
     r \<leftarrow> body;
     emit (EvUnlock i);
     State_Monad.return r
   }"

text \<open>Sequencing of computations that may panic or fail.\<close>

definition bindO :: "'a outcome prog \<Rightarrow> ('a \<Rightarrow> 'b outcome prog) \<Rightarrow> 'b outcome prog" where
  "bindO m f = do {
     r \<leftarrow> m;
     (case r of Ok v \<Rightarrow> f v | Err e \<Rightarrow> State_Monad.return (Err e) | Panic p \<Rightarrow> State_Monad.return (Panic p))
   }"

text \<open>The error result of a function that returns \<^verbatim>\<open>error\<close> only.\<close>

definition of_err :: "goerr option \<Rightarrow> unit outcome" where
  "of_err e = (case e of None \<Rightarrow> Ok () | Some e \<Rightarrow> Err e)"

lemma of_err_simps [simp]: "of_err None = Ok ()" "of_err (Some e) = Err e"
  by (simp_all add: of_err_def)

section \<open>Running programs\<close>

definition wp :: "'a prog \<Rightarrow> ('a \<Rightarrow> gst \<Rightarrow> bool) \<Rightarrow> gst \<Rightarrow> bool" where
  "wp m Q s = (case run_state m s of (a, s') \<Rightarrow> Q a s')"

lemma wp_bind [wp_simps]: "wp (State_Monad.bind m f) Q s = wp m (\<lambda>a s'. wp (f a) Q s') s"
  by (simp add: wp_def split: prod.splits)

lemma wp_return [wp_simps]: "wp (State_Monad.return a) Q s = Q a s"
  by (simp add: wp_def)

lemma wp_call [wp_simps]:
  "wp (call f ev) Q s = Q (f (hist s)) (s\<lparr>hist := ev (f (hist s)) # hist s\<rparr>)"
  by (simp add: wp_def call_def Let_def)

lemma wp_emit [wp_simps]: "wp (emit e) Q s = Q () (s\<lparr>hist := e # hist s\<rparr>)"
  by (simp add: emit_def wp_call)

lemma wp_Sleep [wp_simps]: "wp (Sleep n) Q s = Q () (s\<lparr>hist := EvSleep n # hist s\<rparr>)"
  by (simp add: Sleep_def wp_emit)

lemma wp_with_lock [wp_simps]:
  "wp (with_lock i m) Q s =
     wp m (\<lambda>r s'. Q r (s'\<lparr>hist := EvUnlock i # hist s'\<rparr>)) (s\<lparr>hist := EvLock i # hist s\<rparr>)"
  by (simp add: with_lock_def wp_simps)

lemma wp_mono: "wp m Q s \<Longrightarrow> (\<And>a s'. Q a s' \<Longrightarrow> R a s') \<Longrightarrow> wp m R s"
  by (auto simp: wp_def split: prod.splits)

lemma wp_any: "(\<And>a s'. Q a s') \<Longrightarrow> wp m Q s"
  by (simp add: wp_def split_beta)

lemma wp_conj: "wp m Q s \<Longrightarrow> wp m R s \<Longrightarrow> wp m (\<lambda>a s'. Q a s' \<and> R a s') s"
  by (auto simp: wp_def split: prod.splits)

lemma wp_run: "run_state m s = (a, s') \<Longrightarrow> wp m Q s \<Longrightarrow> Q a s'"
  by (simp add: wp_def)

lemma wp_iff_run: "wp m Q s \<longleftrightarrow> (\<forall>a s'. run_state m s = (a, s') \<longrightarrow> Q a s')"
  by (auto simp: wp_def split: prod.splits)

lemma run_call [simp]:
  "run_state (call f ev) s = (f (hist s), s\<lparr>hist := ev (f (hist s)) # hist s\<rparr>)"
  by (simp add: call_def Let_def)

lemma run_emit [simp]: "run_state (emit e) s = ((), s\<lparr>hist := e # hist s\<rparr>)"
  by (simp add: emit_def)

lemma run_Sleep [simp]: "run_state (Sleep n) s = ((), s\<lparr>hist := EvSleep n # hist s\<rparr>)"
  by (simp add: Sleep_def)

lemma run_with_lock [simp]:
  "run_state (with_lock i m) s =
     (case run_state m (s\<lparr>hist := EvLock i # hist s\<rparr>) of
        (r, s') \<Rightarrow> (r, s'\<lparr>hist := EvUnlock i # hist s'\<rparr>))"
  by (simp add: with_lock_def split: prod.splits)

section \<open>Which events a program emits\<close>

definition emits :: "(event \<Rightarrow> bool) \<Rightarrow> 'a prog \<Rightarrow> bool" where
  "emits P m \<longleftrightarrow> (\<forall>s. wp m (\<lambda>_ s'. \<exists>evs. hist s' = evs @ hist s \<and> (\<forall>e \<in> set evs. P e)) s)"

lemma emitsD:
  assumes "emits P m" "run_state m s = (a, s')"
  obtains evs where "hist s' = evs @ hist s" "\<forall>e \<in> set evs. P e"
proof -
  from assms(1) have "wp m (\<lambda>_ s'. \<exists>evs. hist s' = evs @ hist s \<and> (\<forall>e \<in> set evs. P e)) s"
    by (simp add: emits_def)
  from wp_run [OF assms(2) this] that show thesis by blast
qed

lemma emits_mono: "emits P m \<Longrightarrow> (\<And>e. P e \<Longrightarrow> Q e) \<Longrightarrow> emits Q m"
  unfolding emits_def by (blast intro: wp_mono)

lemma emits_return [emits_intros]: "emits P (State_Monad.return a)"
  by (simp add: emits_def wp_simps)

lemma emits_bind [emits_intros]:
  assumes "emits P m" "\<And>a. emits P (f a)"
  shows "emits P (State_Monad.bind m f)"
  unfolding emits_def
proof
  fix s
  have "wp m (\<lambda>a s'. \<exists>evs. hist s' = evs @ hist s \<and> (\<forall>e \<in> set evs. P e)) s"
    using assms(1) by (simp add: emits_def)
  then have "wp m (\<lambda>a s'. wp (f a) (\<lambda>_ s''. \<exists>evs. hist s'' = evs @ hist s \<and> (\<forall>e \<in> set evs. P e)) s') s"
  proof (rule wp_mono)
    fix a and s' :: gst
    assume "\<exists>evs. hist s' = evs @ hist s \<and> (\<forall>e \<in> set evs. P e)"
    then obtain evs where evs: "hist s' = evs @ hist s" "\<forall>e \<in> set evs. P e" by blast
    have "wp (f a) (\<lambda>_ s''. \<exists>evs. hist s'' = evs @ hist s' \<and> (\<forall>e \<in> set evs. P e)) s'"
      using assms(2) by (simp add: emits_def)
    then show "wp (f a) (\<lambda>_ s''. \<exists>evs. hist s'' = evs @ hist s \<and> (\<forall>e \<in> set evs. P e)) s'"
    proof (rule wp_mono)
      fix s'' :: gst
      assume "\<exists>ws. hist s'' = ws @ hist s' \<and> (\<forall>e \<in> set ws. P e)"
      then obtain ws where "hist s'' = ws @ hist s'" "\<forall>e \<in> set ws. P e" by blast
      with evs have "hist s'' = (ws @ evs) @ hist s" "\<forall>e \<in> set (ws @ evs). P e" by auto
      then show "\<exists>evs. hist s'' = evs @ hist s \<and> (\<forall>e \<in> set evs. P e)" by blast
    qed
  qed
  then show "wp (State_Monad.bind m f) (\<lambda>_ s'. \<exists>evs. hist s' = evs @ hist s \<and> (\<forall>e \<in> set evs. P e)) s"
    by (simp add: wp_bind)
qed

lemma emits_call [emits_intros]: "(\<And>r. P (ev r)) \<Longrightarrow> emits P (call f ev)"
  by (simp add: emits_def wp_simps)

lemma emits_emit [emits_intros]: "P e \<Longrightarrow> emits P (emit e)"
  unfolding emit_def by (rule emits_call)

lemma emits_Sleep [emits_intros]: "P (EvSleep n) \<Longrightarrow> emits P (Sleep n)"
  unfolding Sleep_def by (rule emits_emit)

lemma emits_with_lock [emits_intros]:
  "P (EvLock i) \<Longrightarrow> P (EvUnlock i) \<Longrightarrow> emits P m \<Longrightarrow> emits P (with_lock i m)"
  unfolding with_lock_def by (intro emits_intros)

lemma emits_if [emits_intros]:
  "(b \<Longrightarrow> emits P m) \<Longrightarrow> (\<not> b \<Longrightarrow> emits P n) \<Longrightarrow> emits P (if b then m else n)"
  by simp

lemma emits_option [emits_intros]:
  "(x = None \<Longrightarrow> emits P m) \<Longrightarrow> (\<And>y. x = Some y \<Longrightarrow> emits P (f y)) \<Longrightarrow>
   emits P (case x of None \<Rightarrow> m | Some y \<Rightarrow> f y)"
  by (cases x) auto

lemma emits_sum [emits_intros]:
  "(\<And>y. x = Inl y \<Longrightarrow> emits P (f y)) \<Longrightarrow> (\<And>y. x = Inr y \<Longrightarrow> emits P (g y)) \<Longrightarrow>
   emits P (case x of Inl y \<Rightarrow> f y | Inr y \<Rightarrow> g y)"
  by (cases x) auto

lemma emits_outcome [emits_intros]:
  "(\<And>y. x = Ok y \<Longrightarrow> emits P (f y)) \<Longrightarrow> (\<And>y. x = Err y \<Longrightarrow> emits P (g y)) \<Longrightarrow>
   (\<And>y. x = Panic y \<Longrightarrow> emits P (k y)) \<Longrightarrow>
   emits P (case x of Ok y \<Rightarrow> f y | Err y \<Rightarrow> g y | Panic y \<Rightarrow> k y)"
  by (cases x) auto

lemma emits_prod [emits_intros]:
  "(\<And>a b. x = (a, b) \<Longrightarrow> emits P (f a b)) \<Longrightarrow> emits P (case x of (a, b) \<Rightarrow> f a b)"
  by (cases x) auto

lemma emits_list [emits_intros]:
  "(x = [] \<Longrightarrow> emits P m) \<Longrightarrow> (\<And>y ys. x = y # ys \<Longrightarrow> emits P (f y ys)) \<Longrightarrow>
   emits P (case x of [] \<Rightarrow> m | y # ys \<Rightarrow> f y ys)"
  by (cases x) auto

lemma emits_let [emits_intros]: "(\<And>y. y = x \<Longrightarrow> emits P (f y)) \<Longrightarrow> emits P (Let x f)"
  by simp

lemma wp_bindO [wp_simps]:
  "wp (bindO m f) Q s =
     wp m (\<lambda>r s'. case r of Ok v \<Rightarrow> wp (f v) Q s' | Err e \<Rightarrow> Q (Err e) s' | Panic p \<Rightarrow> Q (Panic p) s') s"
  unfolding bindO_def wp_simps by (rule arg_cong [where f = "\<lambda>q. wp m q s"]) (auto simp: wp_simps fun_eq_iff split: outcome.splits)

lemma emits_bindO [emits_intros]:
  "emits P m \<Longrightarrow> (\<And>v. emits P (f v)) \<Longrightarrow> emits P (bindO m f)"
  unfolding bindO_def by (auto intro!: emits_intros)

lemma emits_State_keeps_hist [emits_intros]:
  "(\<And>s. hist (snd (f s)) = hist s) \<Longrightarrow> emits P (State f)"
  by (simp add: emits_def wp_def split_beta)

lemma emits_get [emits_intros]: "emits P State_Monad.get"
  by (simp add: emits_def wp_def)

section \<open>Documented behaviour of the libraries\<close>

text \<open>
  \<^verbatim>\<open>retry.RetryOnConflict(DefaultBackoff, fn)\<close> of client-go runs \<^verbatim>\<open>fn\<close> again while it returns a conflict,
  a fixed number of times, sleeping in between, and returns the last error.
\<close>

fun retry_loop :: "int list \<Rightarrow> goerr option prog \<Rightarrow> goerr option prog" where
  "retry_loop [] fn = fn"
| "retry_loop (d # ds) fn = do {
     r \<leftarrow> fn;
     (case r of
        Some e \<Rightarrow> if IsConflict e then do { Sleep d; retry_loop ds fn } else State_Monad.return r
      | None \<Rightarrow> State_Monad.return r)
   }"

definition retry_documented :: "env \<Rightarrow> bool" where
  "retry_documented E \<longleftrightarrow> (\<exists>ds. x_retry E = retry_loop ds)"

text \<open>
  \<^verbatim>\<open>controllerutil.AddFinalizer\<close> adds a finalizer that is absent, \<^verbatim>\<open>RemoveFinalizer\<close> removes it; neither
  touches another field.
\<close>

definition finalizers_documented :: "env \<Rightarrow> bool" where
  "finalizers_documented E \<longleftrightarrow>
     (\<forall>p f. f \<in> set (p_finalizers (x_add_finalizer E p f)) \<and>
        (\<exists>fs. x_add_finalizer E p f = p\<lparr>p_finalizers := fs\<rparr>) \<and>
        x_remove_finalizer E p f = p\<lparr>p_finalizers := removeAll f (p_finalizers p)\<rparr>)"

lemma add_finalizer_sel:
  assumes "finalizers_documented E"
  shows "f \<in> set (p_finalizers (x_add_finalizer E p f))"
    and "p_name (x_add_finalizer E p f) = p_name p" "p_namespace (x_add_finalizer E p f) = p_namespace p"
    and "p_uid (x_add_finalizer E p f) = p_uid p" "p_labels (x_add_finalizer E p f) = p_labels p"
    and "p_annotations (x_add_finalizer E p f) = p_annotations p"
    and "p_deletionTimestamp (x_add_finalizer E p f) = p_deletionTimestamp p"
    and "p_spec (x_add_finalizer E p f) = p_spec p" "p_status (x_add_finalizer E p f) = p_status p"
proof -
  obtain fs where "x_add_finalizer E p f = p\<lparr>p_finalizers := fs\<rparr>" "f \<in> set (p_finalizers (x_add_finalizer E p f))"
    using assms unfolding finalizers_documented_def by blast
  then show "f \<in> set (p_finalizers (x_add_finalizer E p f))"
    "p_name (x_add_finalizer E p f) = p_name p" "p_namespace (x_add_finalizer E p f) = p_namespace p"
    "p_uid (x_add_finalizer E p f) = p_uid p" "p_labels (x_add_finalizer E p f) = p_labels p"
    "p_annotations (x_add_finalizer E p f) = p_annotations p"
    "p_deletionTimestamp (x_add_finalizer E p f) = p_deletionTimestamp p"
    "p_spec (x_add_finalizer E p f) = p_spec p" "p_status (x_add_finalizer E p f) = p_status p"
    by simp_all
qed

lemma remove_finalizer_eq:
  "finalizers_documented E \<Longrightarrow> x_remove_finalizer E p f = p\<lparr>p_finalizers := removeAll f (p_finalizers p)\<rparr>"
  by (simp add: finalizers_documented_def)

lemma emits_retry_loop: "emits P fn \<Longrightarrow> (\<And>d. P (EvSleep d)) \<Longrightarrow> emits P (retry_loop ds fn)"
  by (induction ds) (auto intro!: emits_intros)

lemma emits_retry [emits_intros]:
  "retry_documented E \<Longrightarrow> (\<And>d. P (EvSleep d)) \<Longrightarrow> emits P fn \<Longrightarrow> emits P (x_retry E fn)"
  using emits_retry_loop [of P fn] by (auto simp: retry_documented_def)

text \<open>
  An invariant rule for a retried closure: what the closure establishes from the invariant, and a
  pause keeps, holds after the retries, and the result is that of the last run.
\<close>

lemma wp_retry_loop:
  assumes step: "\<And>s. I s \<Longrightarrow> wp fn (\<lambda>r s'. (r = Some (ApiError Conflict) \<longrightarrow>
             (\<forall>d. I (s'\<lparr>hist := EvSleep d # hist s'\<rparr>))) \<and> Q r s') s"
    and "I s"
  shows "wp (retry_loop ds fn) Q s"
  using \<open>I s\<close>
proof (induction ds arbitrary: s)
  case Nil
  from step [OF Nil] show ?case by (auto elim: wp_mono)
next
  case (Cons d ds)
  show ?case
    by (simp add: wp_simps, rule wp_mono [OF step [OF Cons.prems]])
      (auto simp: wp_simps Cons.IH split: option.splits)
qed

lemma wp_retry:
  assumes "retry_documented E" "I s"
    and "\<And>s. I s \<Longrightarrow> wp fn (\<lambda>r s'. (r = Some (ApiError Conflict) \<longrightarrow>
             (\<forall>d. I (s'\<lparr>hist := EvSleep d # hist s'\<rparr>))) \<and> Q r s') s"
  shows "wp (x_retry E fn) Q s"
proof -
  obtain ds where "x_retry E = retry_loop ds" using assms(1) by (auto simp: retry_documented_def)
  then show ?thesis using wp_retry_loop [of I fn Q s ds] assms(2,3) by simp
qed

text \<open>Sequencing with what is known of the first result.\<close>

lemma emits_bind_wp:
  assumes "emits P m" "\<And>s. wp m (\<lambda>a _. R a) s" "\<And>a. R a \<Longrightarrow> emits P (f a)"
  shows "emits P (State_Monad.bind m f)"
proof -
  have m: "emits P m" by (rule assms(1))
  let ?f = "\<lambda>a. if R a then f a else State_Monad.return (fst (run_state (f a) undefined))"
  have "emits P (State_Monad.bind m ?f)" using m assms(3) by (intro emits_bind) (auto intro: emits_return)
  moreover have "run_state (State_Monad.bind m ?f) s = run_state (State_Monad.bind m f) s" for s
    using assms(2) [of s] by (simp add: wp_def split: prod.splits)
  ultimately show ?thesis by (simp add: emits_def wp_def)
qed

lemma emits_bindO_wp:
  assumes "emits P m" "\<And>s. wp m (\<lambda>r _. \<forall>v. r = Ok v \<longrightarrow> R v) s" "\<And>v. R v \<Longrightarrow> emits P (f v)"
  shows "emits P (bindO m f)"
  unfolding bindO_def
  by (rule emits_bind_wp [OF assms(1,2)]) (auto intro!: emits_intros assms(3) split: outcome.split)

section \<open>Specifications over the events of one run\<close>

text \<open>\<open>does m Q\<close> specifies a program by its result and the events of its own run, the newest first.\<close>

definition does :: "'a prog \<Rightarrow> ('a \<Rightarrow> history \<Rightarrow> bool) \<Rightarrow> bool" where
  "does m Q \<longleftrightarrow> (\<forall>s. wp m (\<lambda>r s'. \<exists>evs. hist s' = evs @ hist s \<and> Q r evs) s)"

lemma does_mono: "does m Q \<Longrightarrow> (\<And>r evs. Q r evs \<Longrightarrow> R r evs) \<Longrightarrow> does m R"
  unfolding does_def by (blast intro: wp_mono)

lemma does_return [simp]: "does (State_Monad.return a) Q \<longleftrightarrow> Q a []"
  by (simp add: does_def wp_simps)

lemma does_bind:
  assumes "does m P" "\<And>a evs. P a evs \<Longrightarrow> does (f a) (\<lambda>r evs'. Q r (evs' @ evs))"
  shows "does (State_Monad.bind m f) Q"
  unfolding does_def wp_bind
proof
  fix s
  show "wp m (\<lambda>a. wp (f a) (\<lambda>r s'. \<exists>evs. hist s' = evs @ hist s \<and> Q r evs)) s"
  proof (rule wp_mono)
    show "wp m (\<lambda>r s'. \<exists>evs. hist s' = evs @ hist s \<and> P r evs) s" using assms(1) by (simp add: does_def)
    fix a and s' :: gst
    assume "\<exists>evs. hist s' = evs @ hist s \<and> P a evs"
    then obtain evs where evs: "hist s' = evs @ hist s" "P a evs" by blast
    have "wp (f a) (\<lambda>r t. \<exists>evs'. hist t = evs' @ hist s' \<and> Q r (evs' @ evs)) s'"
      using assms(2) [OF evs(2)] by (simp add: does_def)
    then show "wp (f a) (\<lambda>r t. \<exists>evs. hist t = evs @ hist s \<and> Q r evs) s'"
      by (rule wp_mono) (use evs(1) in auto)
  qed
qed

lemma does_call: "(\<And>r. Q r [ev r]) \<Longrightarrow> does (call f ev) Q"
  by (auto simp: does_def wp_simps)

lemma does_emits: "emits P m \<Longrightarrow> does m (\<lambda>_ evs. \<forall>e \<in> set evs. P e)"
  by (simp add: emits_def does_def)

lemma does_conj: "does m P \<Longrightarrow> does m Q \<Longrightarrow> does m (\<lambda>r evs. P r evs \<and> Q r evs)"
  unfolding does_def wp_def by (auto split: prod.splits) (metis append_same_eq prod.inject)

lemma does_result: "(\<And>s. wp m (\<lambda>r _. P r) s) \<Longrightarrow> does m Q \<Longrightarrow> does m (\<lambda>r evs. P r \<and> Q r evs)"
  unfolding does_def by (blast intro: wp_mono wp_conj)

lemma does_run:
  assumes "does m Q" "run_state m s = (r, s')"
  obtains evs where "hist s' = evs @ hist s" "Q r evs"
  using assms by (auto simp: does_def wp_def split: prod.splits)

end
