(* ===== verification/GoHash.thy ===== *)
theory GoHash
  imports GoStrings
begin

text \<open>
  The two hash functions of Go's standard library the driver uses: 32-bit FNV-1a (\<^verbatim>\<open>hash/fnv\<close>), which
  picks a pod's lock, and SHA-256 (\<^verbatim>\<open>crypto/sha256\<close>, FIPS 180-4), which names the annotation of a
  target path. Both are executable; the development only uses the ranges of their results.
\<close>

unbundle bit_operations_syntax

section \<open>FNV-1a\<close>

definition fnv32a :: "string \<Rightarrow> 32 word" where
  "fnv32a s = fold (\<lambda>c h. (h XOR word_of_int (of_char c)) * 16777619) s 2166136261"

section \<open>SHA-256\<close>

type_synonym u32 = "32 word"

definition rotr :: "nat \<Rightarrow> u32 \<Rightarrow> u32" where
  "rotr n x = drop_bit n x OR push_bit (32 - n) x"

text \<open>
  The constants of FIPS 180-4: the first 32 fractional bits of the cube roots of the first 64 primes
  and of the square roots of the first eight. \<open>root_bits k n m x\<close> adds to \<open>x\<close>, from bit \<open>k - 1\<close> down, the
  bits of the greatest number whose \<open>n\<close>-th power is at most \<open>m\<close>.
\<close>

fun root_bits :: "nat \<Rightarrow> nat \<Rightarrow> nat \<Rightarrow> nat \<Rightarrow> nat" where
  "root_bits 0 n m x = x"
| "root_bits (Suc k) n m x = root_bits k n m (if (x + 2 ^ k) ^ n \<le> m then x + 2 ^ k else x)"

definition fraction32 :: "nat \<Rightarrow> nat \<Rightarrow> u32" where
  "fraction32 n p = of_nat (root_bits 37 n (p * 2 ^ (32 * n)) 0)"

definition small_primes :: "nat list" where
  "small_primes = filter (\<lambda>p. list_all (\<lambda>d. p mod d \<noteq> 0) [2..<p]) [2..<312]"

definition sha_K :: "u32 list" where
  "sha_K = map (fraction32 3) small_primes"

definition sha_H0 :: "u32 list" where
  "sha_H0 = map (fraction32 2) [2, 3, 5, 7, 11, 13, 17, 19]"

definition sig0 :: "u32 \<Rightarrow> u32" where "sig0 x = rotr 7 x XOR rotr 18 x XOR drop_bit 3 x"

definition sig1 :: "u32 \<Rightarrow> u32" where "sig1 x = rotr 17 x XOR rotr 19 x XOR drop_bit 10 x"

definition Sig0 :: "u32 \<Rightarrow> u32" where "Sig0 x = rotr 2 x XOR rotr 13 x XOR rotr 22 x"

definition Sig1 :: "u32 \<Rightarrow> u32" where "Sig1 x = rotr 6 x XOR rotr 11 x XOR rotr 25 x"

fun word_be :: "int list \<Rightarrow> u32" where
  "word_be [a, b, c, d] = word_of_int (a * 16777216 + b * 65536 + c * 256 + d)"
| "word_be _ = 0"

fun chunks :: "nat \<Rightarrow> nat \<Rightarrow> 'a list \<Rightarrow> 'a list list" where
  "chunks 0 n xs = []"
| "chunks (Suc k) n xs = take n xs # chunks k n (drop n xs)"

fun sha_schedule :: "nat \<Rightarrow> u32 list \<Rightarrow> u32 list" where
  "sha_schedule 0 w = w"
| "sha_schedule (Suc k) w = (let i = length w in
     sha_schedule k (w @ [sig1 (w ! (i - 2)) + w ! (i - 7) + sig0 (w ! (i - 15)) + w ! (i - 16)]))"

fun sha_round :: "u32 \<times> u32 \<Rightarrow> u32 list \<Rightarrow> u32 list" where
  "sha_round (k, w) [a, b, c, d, e, f, g, h] =
     (let t1 = h + Sig1 e + ((e AND f) XOR (NOT e AND g)) + k + w;
          t2 = Sig0 a + ((a AND b) XOR (a AND c) XOR (b AND c))
      in [t1 + t2, a, b, c, d + t1, e, f, g])"
| "sha_round _ st = st"

definition sha_block :: "int list \<Rightarrow> u32 list \<Rightarrow> u32 list" where
  "sha_block bs st =
     map2 (+) st (fold sha_round (zip sha_K (sha_schedule 48 (map word_be (chunks 16 4 bs)))) st)"

definition sha_pad :: "int list \<Rightarrow> int list" where
  "sha_pad m = (let l = length m in
     m @ [128] @ replicate ((119 - l mod 64) mod 64) 0
       @ map (\<lambda>i. int l * 8 div 256 ^ (7 - i) mod 256) [0..<8])"

definition sha256_words :: "int list \<Rightarrow> u32 list" where
  "sha256_words m = (let p = sha_pad m in fold sha_block (chunks (length p div 64) 64 p) sha_H0)"

definition hex_char :: "nat \<Rightarrow> char" where
  "hex_char n = (if n < 10 then char_of (48 + n) else char_of (87 + n))"

definition hex_word :: "u32 \<Rightarrow> string" where
  "hex_word w = map (\<lambda>i. hex_char (unat (drop_bit (28 - 4 * i) w AND 15))) [0..<8]"

text \<open>\<^verbatim>\<open>fmt.Sprintf("%x", h.Sum(nil))\<close>.\<close>

definition sha256_hex :: "string \<Rightarrow> string" where
  "sha256_hex s = concat (map hex_word (sha256_words (map of_char s)))"

lemma length_sha_round [simp]: "length (sha_round kw st) = length st"
  by (induction kw st rule: sha_round.induct) (auto simp: Let_def)

lemma length_sha_rounds [simp]: "length (fold sha_round kws st) = length st"
  by (induction kws arbitrary: st) auto

lemma length_sha_block [simp]: "length (sha_block bs st) = length st"
  by (simp add: sha_block_def)

lemma length_sha_blocks [simp]: "length (fold sha_block bss st) = length st"
  by (induction bss arbitrary: st) auto

lemma length_sha256_words [simp]: "length (sha256_words m) = 8"
  by (simp add: sha256_words_def Let_def sha_H0_def)

lemma length_sha256_hex [simp]: "length (sha256_hex s) = 64"
proof -
  have "length (concat (map hex_word ws)) = 8 * length ws" for ws
    by (induction ws) (auto simp: hex_word_def)
  then show ?thesis by (simp add: sha256_hex_def)
qed

end
