(* ===== verification/GoTime.thy ===== *)
theory GoTime
  imports GoStrings
begin

text \<open>
  Go's \<^verbatim>\<open>time\<close> package (Go 1.16, the version of the Dockerfile) as far as the delayed deletion of
  mount pods uses it: \<^verbatim>\<open>time.ParseDuration\<close>, and \<^verbatim>\<open>Format\<close> and \<^verbatim>\<open>time.Parse\<close> with the layout
  \<^verbatim>\<open>2006-01-02 15:04:05\<close>. Instants are nanoseconds since 1970-01-01 00:00:00 UTC. The one
  floating-point expression of \<^verbatim>\<open>ParseDuration\<close> is an argument (\<open>frac\<close>).
\<close>

section \<open>Durations\<close>

text \<open>The value of an \<^verbatim>\<open>int64\<close>: wrap-around in two's complement.\<close>

definition i64 :: "int \<Rightarrow> int" where
  "i64 x = (x + 2 ^ 63) mod 2 ^ 64 - 2 ^ 63"

fun leadingInt :: "string \<Rightarrow> int \<Rightarrow> (int \<times> string) option" where
  "leadingInt [] x = Some (x, [])"
| "leadingInt (c # s) x =
     (if \<not> is_digit c then Some (x, c # s)
      else if x > (2 ^ 63 - 1) div 10 then None
      else (let y = i64 (x * 10 + digit_val c) in if y < 0 then None else leadingInt s y))"

fun leadingFraction :: "string \<Rightarrow> int \<Rightarrow> int \<Rightarrow> bool \<Rightarrow> int \<times> int \<times> string" where
  "leadingFraction [] x scale ovf = (x, scale, [])"
| "leadingFraction (c # s) x scale ovf =
     (if \<not> is_digit c then (x, scale, c # s)
      else if ovf \<or> x > (2 ^ 63 - 1) div 10 then leadingFraction s x scale True
      else (let y = i64 (x * 10 + digit_val c)
            in if y < 0 then leadingFraction s x scale True else leadingFraction s y (scale * 10) False))"

definition unitMap :: "(string \<times> int) list" where
  "unitMap = [(''ns'', 1), (''us'', 1000), ([CHR 0xC2, CHR 0xB5] @ ''s'', 1000),
     ([CHR 0xCE, CHR 0xBC] @ ''s'', 1000), (''ms'', 1000000), (''s'', 1000000000),
     (''m'', 60000000000), (''h'', 3600000000000)]"

definition unit_char :: "char \<Rightarrow> bool" where
  "unit_char c \<longleftrightarrow> c \<noteq> CHR ''.'' \<and> \<not> is_digit c"

text \<open>One number and its unit: the value in nanoseconds and the rest of the string.\<close>

definition duration_part :: "(int \<Rightarrow> int \<Rightarrow> int \<Rightarrow> int) \<Rightarrow> string \<Rightarrow> (int \<times> string) option" where
  "duration_part frac s =
     (case s of [] \<Rightarrow> None | c # _ \<Rightarrow>
      if \<not> (c = CHR ''.'' \<or> is_digit c) then None
      else (case leadingInt s 0 of None \<Rightarrow> None | Some (v, s1) \<Rightarrow>
        let pre = length s \<noteq> length s1;
            (f, scale, s2, post) =
              (if HasPrefix s1 ''.'' then
                 (let (f, scale, r) = leadingFraction (tl s1) 0 1 False
                  in (f, scale, r, length r \<noteq> length (tl s1)))
               else (0, 1, s1, False))
        in if \<not> pre \<and> \<not> post then None
           else (let u = takeWhile unit_char s2; s3 = dropWhile unit_char s2
                 in if u = [] then None
                    else (case map_of unitMap u of None \<Rightarrow> None | Some unit \<Rightarrow>
                      if v > (2 ^ 63 - 1) div unit then None
                      else (let w = (if f > 0 then i64 (v * unit + frac f unit scale) else v * unit)
                            in if w < 0 then None else Some (w, s3))))))"

lemma leadingInt_le: "leadingInt s x = Some (v, r) \<Longrightarrow> length r \<le> length s"
  by (induction s arbitrary: x v r) (auto simp: Let_def split: if_splits intro: le_SucI)

lemma leadingFraction_le: "leadingFraction s x k ovf = (v, k', r) \<Longrightarrow> length r \<le> length s"
  by (induction s arbitrary: x k ovf v k' r) (auto simp: Let_def split: if_splits intro: le_SucI)

lemma takeWhile_shrinks: "takeWhile P s \<noteq> [] \<Longrightarrow> length (dropWhile P s) < length s"
  by (metis length_append length_greater_0_conv less_add_same_cancel2 takeWhile_dropWhile_id)

lemma duration_part_shrinks: "duration_part frac s = Some (w, r) \<Longrightarrow> length r < length s"
  unfolding duration_part_def
  by (auto simp: Let_def split: list.splits if_splits option.splits prod.splits
      dest!: leadingInt_le leadingFraction_le takeWhile_shrinks)

function duration_parts :: "(int \<Rightarrow> int \<Rightarrow> int \<Rightarrow> int) \<Rightarrow> string \<Rightarrow> int \<Rightarrow> int option" where
  "duration_parts frac s d =
     (if s = [] then Some d
      else (case duration_part frac s of None \<Rightarrow> None | Some (w, r) \<Rightarrow>
        let d' = i64 (d + w) in if d' < 0 then None else duration_parts frac r d'))"
  by pat_completeness auto
termination
  by (relation "measure (\<lambda>(frac, s, d). length s)") (auto dest: duration_part_shrinks)

declare duration_parts.simps [simp del]

definition ParseDuration :: "(int \<Rightarrow> int \<Rightarrow> int \<Rightarrow> int) \<Rightarrow> string \<Rightarrow> goerr + int" where
  "ParseDuration frac orig =
     (let neg = HasPrefix orig ''-'';
          s = (if neg \<or> HasPrefix orig ''+'' then tl orig else orig)
      in if s = ''0'' then Inr 0
         else if s = [] then Inl (ExtError ''time: invalid duration'')
         else (case duration_parts frac s 0 of
                 None \<Rightarrow> Inl (ExtError ''time: invalid duration'')
               | Some d \<Rightarrow> Inr (if neg then - d else d)))"

section \<open>Civil dates\<close>

text \<open>Days since 1970-01-01 and the proleptic Gregorian date, with years that start in March.\<close>

definition civil_from_days :: "int \<Rightarrow> int \<times> int \<times> int" where
  "civil_from_days z =
     (let z' = z + 719468; era = z' div 146097; doe = z' mod 146097;
          yoe = (doe - doe div 1460 + doe div 36524 - doe div 146096) div 365;
          doy = doe - (365 * yoe + yoe div 4 - yoe div 100);
          mp = (5 * doy + 2) div 153;
          d = doy - (153 * mp + 2) div 5 + 1;
          m = (if mp < 10 then mp + 3 else mp - 9);
          y = yoe + era * 400 + (if m \<le> 2 then 1 else 0)
      in (y, m, d))"

definition days_from_civil :: "int \<Rightarrow> int \<Rightarrow> int \<Rightarrow> int" where
  "days_from_civil y m d =
     (let y0 = (if m \<le> 2 then y - 1 else y); era = y0 div 400; yoe = y0 mod 400;
          mp = (if m \<le> 2 then m + 9 else m - 3);
          doy = (153 * mp + 2) div 5 + d - 1;
          doe = yoe * 365 + yoe div 4 - yoe div 100 + doy
      in era * 146097 + doe - 719468)"

definition isLeap :: "int \<Rightarrow> bool" where
  "isLeap y \<longleftrightarrow> y mod 4 = 0 \<and> (y mod 100 \<noteq> 0 \<or> y mod 400 = 0)"

definition daysIn :: "int \<Rightarrow> int \<Rightarrow> int" where
  "daysIn m y = (if m = 2 then (if isLeap y then 29 else 28) else if m \<in> {4, 6, 9, 11} then 30 else 31)"

section \<open>The layout 2006-01-02 15:04:05\<close>

definition digit_chr :: "int \<Rightarrow> char" where
  "digit_chr n = char_of (48 + nat n)"

definition two_digits :: "int \<Rightarrow> string" where
  "two_digits n = [digit_chr (n div 10), digit_chr (n mod 10)]"

fun dec_digits :: "nat \<Rightarrow> int \<Rightarrow> string" where
  "dec_digits 0 n = []"
| "dec_digits (Suc k) n = (if n < 10 then [digit_chr n] else dec_digits k (n div 10) @ [digit_chr (n mod 10)])"

text \<open>\<^verbatim>\<open>%d\<close> of a 64-bit integer.\<close>

definition Itoa :: "int \<Rightarrow> string" where
  "Itoa n = (if n < 0 then ''-'' else []) @ dec_digits 20 \<bar>n\<bar>"

text \<open>\<^verbatim>\<open>appendInt(b, year, 4)\<close>: at least four digits, a minus sign for a negative year.\<close>

definition format_year :: "int \<Rightarrow> string" where
  "format_year y = (if y < 0 then ''-'' else []) @
     (let ds = dec_digits 20 \<bar>y\<bar> in replicate (4 - length ds) (CHR ''0'') @ ds)"

text \<open>\<^verbatim>\<open>t.Format("2006-01-02 15:04:05")\<close> for wall-clock seconds (the zone's offset already added).\<close>

definition format_time :: "int \<Rightarrow> string" where
  "format_time secs =
     (let (y, m, d) = civil_from_days (secs div 86400); r = secs mod 86400
      in format_year y @ ''-'' @ two_digits m @ ''-'' @ two_digits d @ '' ''
         @ two_digits (r div 3600) @ '':'' @ two_digits (r mod 3600 div 60) @ '':'' @ two_digits (r mod 60))"

fun getnum :: "string \<Rightarrow> bool \<Rightarrow> (int \<times> string) option" where
  "getnum (a # b # s) fixed =
     (if \<not> is_digit a then None
      else if is_digit b then Some (digit_val a * 10 + digit_val b, s)
      else if fixed then None else Some (digit_val a, b # s))"
| "getnum [a] fixed = (if \<not> is_digit a \<or> fixed then None else Some (digit_val a, []))"
| "getnum [] fixed = None"

definition skip_char :: "char \<Rightarrow> string \<Rightarrow> string option" where
  "skip_char c s = (case s of d # r \<Rightarrow> if d = c then Some r else None | [] \<Rightarrow> None)"

text \<open>A blank of the layout matches one or more blanks (or the end of the value).\<close>

definition skip_blank :: "string \<Rightarrow> string option" where
  "skip_blank s = (if s \<noteq> [] \<and> hd s \<noteq> CHR '' '' then None else Some (dropWhile (\<lambda>c. c = CHR '' '') s))"

definition parse_year :: "string \<Rightarrow> (int \<times> string) option" where
  "parse_year s =
     (if length s < 4 \<or> \<not> is_digit (hd s) \<or> \<not> list_all is_digit (take 4 s) then None
      else Some (digits_val (take 4 s), drop 4 s))"

text \<open>The optional fraction of a second the parser accepts though the layout has none.\<close>

definition parse_frac :: "string \<Rightarrow> (int \<times> string) option" where
  "parse_frac s =
     (case s of a # b # r \<Rightarrow>
        if a = CHR ''.'' \<and> is_digit b then
          (let ds = takeWhile is_digit (b # r); ns = digits_val ds
           in if ns \<ge> 10 ^ 9 then None
              else Some (ns * 10 ^ (9 - length ds), dropWhile is_digit (b # r)))
        else Some (0, s)
      | _ \<Rightarrow> Some (0, s))"

definition in_range :: "int \<Rightarrow> int \<Rightarrow> int \<Rightarrow> unit option" where
  "in_range lo hi n = (if lo \<le> n \<and> n \<le> hi then Some () else None)"

text \<open>\<^verbatim>\<open>time.Parse("2006-01-02 15:04:05", str)\<close>: the instant in nanoseconds, read as UTC.\<close>

definition time_Parse :: "string \<Rightarrow> int option" where
  "time_Parse s0 = do {
     (y, s) \<leftarrow> parse_year s0;
     s \<leftarrow> skip_char (CHR ''-'') s;
     (m, s) \<leftarrow> getnum s True;
     in_range 1 12 m;
     s \<leftarrow> skip_char (CHR ''-'') s;
     (d, s) \<leftarrow> getnum s True;
     s \<leftarrow> skip_blank s;
     (hh, s) \<leftarrow> getnum s False;
     in_range 0 23 hh;
     s \<leftarrow> skip_char (CHR '':'') s;
     (mm, s) \<leftarrow> getnum s True;
     in_range 0 59 mm;
     s \<leftarrow> skip_char (CHR '':'') s;
     (ss, s) \<leftarrow> getnum s True;
     in_range 0 59 ss;
     (ns, s) \<leftarrow> parse_frac s;
     (if s \<noteq> [] then None else Some ());
     in_range 1 (daysIn m y) d;
     Some ((days_from_civil y m d * 86400 + hh * 3600 + mm * 60 + ss) * 10 ^ 9 + ns)
   }"

end
