(* ===== verification/Config.thy ===== *)
theory Config
  imports World GoHash GoTime
begin

text \<open>
  pkg/config: the process-wide configuration (config.go), the settings of one volume and how they
  are read from the secret and the volume context (setting.go), and the pod locks.

  The variables that \<^verbatim>\<open>main.init\<close> sets once are the record \<open>config\<close>; \<^verbatim>\<open>config.ContainerResource\<close>, which the
  pod builder mutates, lives in the program state \<open>gst\<close>. The YAML and JSON decoders are the record
  \<open>decoders\<close>: they take the destination's old value and return an error and the new value.
\<close>

section \<open>config.go\<close>

record config =
  ByProcess :: bool
  EnableManager :: bool
  FormatInPod :: bool
  NodeName :: string
  Namespace :: string
  PodName :: string
  MountImage :: string
  MountLabels :: string
  HostIp :: string
  KubeletPort :: string
  CSIPod :: pod
  MountPointPath :: string
  JFSConfigPath :: string
  JFSMountPriorityName :: string
  ReconcilerInterval :: int

definition PodMountBase :: string where "PodMountBase = ''/jfs''"

definition MountBase :: string where "MountBase = ''/var/lib/jfs''"

definition FsType :: string where "FsType = ''juicefs''"

definition CliPath :: string where "CliPath = ''/usr/bin/juicefs''"

definition CeCliPath :: string where "CeCliPath = ''/usr/local/bin/juicefs''"

definition CeMountPath :: string where "CeMountPath = ''/bin/mount.juicefs''"

definition JfsMountPath :: string where "JfsMountPath = ''/sbin/mount.juicefs''"

definition PodTypeKey :: string where "PodTypeKey = ''app.kubernetes.io/name''"

definition PodTypeValue :: string where "PodTypeValue = ''juicefs-mount''"

definition Finalizer :: string where "Finalizer = ''juicefs.com/finalizer''"

definition DeleteDelayTimeKey :: string where "DeleteDelayTimeKey = ''juicefs-delete-delay''"

definition DeleteDelayAtKey :: string where "DeleteDelayAtKey = ''juicefs-delete-at''"

text \<open>
  \<^verbatim>\<open>var PodLocks [1024]sync.Mutex\<close>: a lock is its index. On the 64-bit platforms the driver is built
  for, \<^verbatim>\<open>int(h.Sum32())\<close> is not negative.
\<close>

definition GetPodLock :: "string \<Rightarrow> nat" where
  "GetPodLock podName = unat (fnv32a podName) mod 1024"

lemma GetPodLock_range: "GetPodLock podName < 1024"
  by (simp add: GetPodLock_def)

definition GeneratePodTemplate :: "config \<Rightarrow> pod" where
  "GeneratePodTemplate C =
     zero_pod\<lparr>
       p_namespace := Namespace C,
       p_labels := Some [(PodTypeKey, PodTypeValue)],
       p_annotations := Some [],
       p_spec := zero_spec\<lparr>
         ps_containers := [zero_container\<lparr>c_name := ''jfs-mount'', c_image := MountImage C, c_privileged := True\<rparr>],
         ps_nodeName := NodeName C,
         ps_hostNetwork := ps_hostNetwork (p_spec (CSIPod C)),
         ps_hostAliases := ps_hostAliases (p_spec (CSIPod C)),
         ps_hostPID := ps_hostPID (p_spec (CSIPod C)),
         ps_hostIPC := ps_hostIPC (p_spec (CSIPod C)),
         ps_dnsConfig := ps_dnsConfig (p_spec (CSIPod C)),
         ps_dnsPolicy := ps_dnsPolicy (p_spec (CSIPod C)),
         ps_serviceAccountName := ps_serviceAccountName (p_spec (CSIPod C)),
         ps_imagePullSecrets := ps_imagePullSecrets (p_spec (CSIPod C)),
         ps_preemptionPolicy := ps_preemptionPolicy (p_spec (CSIPod C)),
         ps_tolerations := ps_tolerations (p_spec (CSIPod C))\<rparr>\<rparr>"

section \<open>setting.go\<close>

record jfs_setting =
  js_IsCe :: bool
  js_UsePod :: bool
  js_Name :: string
  js_MetaUrl :: string
  js_Source :: string
  js_Storage :: string
  js_SecretKey :: string
  js_SecretKey2 :: string
  js_Token :: string
  js_Passphrase :: string
  js_Envs :: gomap
  js_EncryptRsaKey :: string
  js_InitConfig :: string
  js_Configs :: gomap
  js_MountPodCpuLimit :: string
  js_MountPodMemLimit :: string
  js_MountPodCpuRequest :: string
  js_MountPodMemRequest :: string
  js_MountPodLabels :: gomap
  js_MountPodAnnotations :: gomap
  js_MountPodServiceAccount :: string
  js_DeletedDelay :: string
  js_VolumeId :: string
  js_MountPath :: string
  js_TargetPath :: string
  js_Options :: "string list"
  js_FormatCmd :: string
  js_SubPath :: string
  js_SecretName :: string

definition zero_setting :: jfs_setting where
  "zero_setting = \<lparr>js_IsCe = False, js_UsePod = False, js_Name = '''', js_MetaUrl = '''', js_Source = '''',
     js_Storage = '''', js_SecretKey = '''', js_SecretKey2 = '''', js_Token = '''', js_Passphrase = '''',
     js_Envs = [], js_EncryptRsaKey = '''', js_InitConfig = '''', js_Configs = [],
     js_MountPodCpuLimit = '''', js_MountPodMemLimit = '''', js_MountPodCpuRequest = '''',
     js_MountPodMemRequest = '''', js_MountPodLabels = [], js_MountPodAnnotations = [],
     js_MountPodServiceAccount = '''', js_DeletedDelay = '''', js_VolumeId = '''', js_MountPath = '''',
     js_TargetPath = '''', js_Options = [], js_FormatCmd = '''', js_SubPath = '''', js_SecretName = ''''\<rparr>"

record decoders =
  y_setting :: "gomap \<Rightarrow> jfs_setting \<Rightarrow> goerr option \<times> jfs_setting"
  j_setting :: "gomap \<Rightarrow> jfs_setting \<Rightarrow> goerr option \<times> jfs_setting"
  y_map :: "string \<Rightarrow> gomap \<Rightarrow> goerr option \<times> gomap"
  j_map :: "string \<Rightarrow> gomap \<Rightarrow> goerr option \<times> gomap"

definition parseYamlOrJson ::
  "('s \<Rightarrow> 'd \<Rightarrow> goerr option \<times> 'd) \<Rightarrow> ('s \<Rightarrow> 'd \<Rightarrow> goerr option \<times> 'd) \<Rightarrow> 's \<Rightarrow> 'd \<Rightarrow> goerr + 'd" where
  "parseYamlOrJson yaml json source dst =
     (case yaml source dst of
        (None, d) \<Rightarrow> Inr d
      | (Some _, d) \<Rightarrow>
          (case json source d of
             (None, d') \<Rightarrow> Inr d'
           | (Some e, _) \<Rightarrow> Inl (StatusError InvalidArgument ''Parse yaml or json error: %v'' [] (Some e))))"

abbreviation parseMap :: "decoders \<Rightarrow> string \<Rightarrow> gomap \<Rightarrow> goerr + gomap" where
  "parseMap Y \<equiv> parseYamlOrJson (y_map Y) (j_map Y)"

text \<open>The volume context part of \<^verbatim>\<open>ParseSetting\<close>: resources, delay, labels and annotations of the mount pod.\<close>

definition parse_volCtx ::
  "env \<Rightarrow> decoders \<Rightarrow> gomap \<Rightarrow> jfs_setting \<times> gomap \<Rightarrow> goerr + (jfs_setting \<times> gomap)" where
  "parse_volCtx E Y volCtx = (\<lambda>(js, labels).
     let js1 = js\<lparr>js_MountPodCpuLimit := mindex volCtx ''juicefs/mount-cpu-limit'',
                  js_MountPodMemLimit := mindex volCtx ''juicefs/mount-memory-limit'',
                  js_MountPodCpuRequest := mindex volCtx ''juicefs/mount-cpu-request'',
                  js_MountPodMemRequest := mindex volCtx ''juicefs/mount-memory-request'',
                  js_MountPodServiceAccount := mindex volCtx ''juicefs/mount-service-account''\<rparr>;
         delay = mindex volCtx ''juicefs/mount-delete-delay'';
         labelString = mindex volCtx ''juicefs/mount-labels'';
         annotationSting = mindex volCtx ''juicefs/mount-annotations''
     in bindE (if delay \<noteq> '''' then
                 (case ParseDuration (g_frac E) delay of
                    Inl _ \<Rightarrow> Inl (Errorf ''can't parse delay time %s'' [delay] None)
                  | Inr _ \<Rightarrow> Inr (js1\<lparr>js_DeletedDelay := delay\<rparr>))
               else Inr js1)
        (\<lambda>js2. bindE (if labelString \<noteq> '''' then parseMap Y labelString [] else Inr [])
        (\<lambda>ctxLabel. bindE (if annotationSting \<noteq> '''' then
                 bindE (parseMap Y annotationSting []) (\<lambda>annos. Inr (js2\<lparr>js_MountPodAnnotations := annos\<rparr>))
               else Inr js2)
        (\<lambda>js3. Inr (js3, mputs ctxLabel labels)))))"

definition ParseSetting ::
  "env \<Rightarrow> config \<Rightarrow> decoders \<Rightarrow> gomap option \<Rightarrow> gomap option \<Rightarrow> bool \<Rightarrow> goerr + jfs_setting" where
  "ParseSetting E C Y secrets volCtx usePod =
     (case secrets of
        None \<Rightarrow> Inr zero_setting
      | Some sec \<Rightarrow>
          bindE (parseYamlOrJson (y_setting Y) (j_setting Y) sec zero_setting) (\<lambda>js0.
          if mindex sec ''name'' = '''' then Inl (StatusError InvalidArgument ''Empty name'' [] None)
          else
            let js1 = js0\<lparr>js_Name := mindex sec ''name'', js_Storage := mindex sec ''storage'',
                          js_Envs := [], js_Configs := [], js_MetaUrl := mindex sec ''metaurl'',
                          js_IsCe := mhas sec ''metaurl'', js_UsePod := usePod\<rparr>;
                js2 = (if mindex sec ''secretkey'' \<noteq> '''' then js1\<lparr>js_SecretKey := mindex sec ''secretkey''\<rparr> else js1);
                js3 = (if mindex sec ''secretkey2'' \<noteq> '''' then js2\<lparr>js_SecretKey2 := mindex sec ''secretkey2''\<rparr> else js2)
            in bindE (if mindex sec ''configs'' \<noteq> '''' then
                        bindE (parseMap Y (mindex sec ''configs'') []) (\<lambda>configs. Inr (js3\<lparr>js_Configs := configs\<rparr>))
                      else Inr js3) (\<lambda>js4.
               bindE (if mindex sec ''envs'' \<noteq> '''' then
                        bindE (parseMap Y (mindex sec ''envs'') []) (\<lambda>env. Inr (js4\<lparr>js_Envs := env\<rparr>))
                      else Inr js4) (\<lambda>js5.
               bindE (if MountLabels C \<noteq> '''' then parseMap Y (MountLabels C) [] else Inr []) (\<lambda>labels.
               bindE (case volCtx of None \<Rightarrow> Inr (js5, labels) | Some vc \<Rightarrow> parse_volCtx E Y vc (js5, labels))
                 (\<lambda>(js6, labels').
                    Inr (if labels' \<noteq> [] then js6\<lparr>js_MountPodLabels := labels'\<rparr> else js6)))))))"

section \<open>Fields of a setting\<close>

text \<open>The fields of a setting that come from the secret's map and the driver's mode.\<close>

definition secret_fields :: "gomap \<Rightarrow> bool \<Rightarrow> jfs_setting \<Rightarrow> bool" where
  "secret_fields sec usePod js \<longleftrightarrow> js_UsePod js = usePod \<and> js_Name js = mindex sec ''name'' \<and> js_Name js \<noteq> '''' \<and>
     js_IsCe js = mhas sec ''metaurl'' \<and> js_MetaUrl js = mindex sec ''metaurl'' \<and> js_Storage js = mindex sec ''storage''"

lemma parse_volCtx_fields:
  assumes "secret_fields sec usePod js"
  shows "okE (\<lambda>(js', labels'). secret_fields sec usePod js') (parse_volCtx E Y vc (js, labels))"
  unfolding parse_volCtx_def Let_def prod.case
  apply (rule okE_bind [where P = "secret_fields sec usePod"])
  subgoal using assms by (auto simp: secret_fields_def split: sum.split)
  apply (rule okE_bind_any)
  apply (rule okE_bind [where P = "secret_fields sec usePod"])
  subgoal by (auto simp: secret_fields_def intro!: okE_bind_any)
  apply simp
  done

lemma ParseSetting_fields: "okE (secret_fields sec usePod) (ParseSetting E C Y (Some sec) volCtx usePod)"
  unfolding ParseSetting_def option.case
  apply (rule okE_bind_any)
  subgoal for js0
    apply (cases "mindex sec ''name'' = ''''")
     apply simp
    unfolding Let_def
    apply (simp only: if_False)
    apply (rule okE_bind [where P = "secret_fields sec usePod"])
    subgoal by (auto simp: secret_fields_def intro!: okE_bind_any)
    apply (rule okE_bind [where P = "secret_fields sec usePod"])
    subgoal by (auto simp: secret_fields_def intro!: okE_bind_any)
    apply (rule okE_bind_any)
    apply (rule okE_bind [where P = "\<lambda>(js', labels'). secret_fields sec usePod js'"])
    subgoal by (simp add: parse_volCtx_fields split: option.split)
    subgoal by (auto simp: secret_fields_def split: prod.splits)
    done
  done

lemma ParseSetting_usePod:
  assumes "ParseSetting E C Y secrets volCtx usePod = Inr js"
  shows "js_UsePod js = (secrets \<noteq> None \<and> usePod)"
proof (cases secrets)
  case None
  with assms have "js = zero_setting" by (simp add: ParseSetting_def)
  with None show ?thesis by (simp add: zero_setting_def)
next
  case (Some sec)
  with assms ParseSetting_fields [of sec usePod E C Y volCtx] show ?thesis by (simp add: okE_def secret_fields_def)
qed

end
