(* ===== verification/K8sClient.thy ===== *)
theory K8sClient
  imports Config
begin

text \<open>
  pkg/juicefs/k8sclient/client.go: the driver's thin client over client-go. Every operation is one
  call of the environment, recorded in the history. A pointer argument that may be nil is an
  \<open>option\<close>; the create operations return the pair \<^verbatim>\<open>(object, error)\<close> as Go does, since a caller
  dereferences the object without looking at the error.
\<close>

section \<open>Pods\<close>

definition CreatePod :: "env \<Rightarrow> pod option \<Rightarrow> (pod option \<times> goerr option) prog" where
  "CreatePod E p =
     (case p of
        None \<Rightarrow> State_Monad.return (None, None)
      | Some pod \<Rightarrow> do {
          r \<leftarrow> call (\<lambda>h. k_pod_create E h pod) (EvPodCreate pod);
          State_Monad.return (case r of Inl e \<Rightarrow> (None, Some e) | Inr mntPod \<Rightarrow> (Some mntPod, None))
        })"

definition GetPod :: "env \<Rightarrow> string \<Rightarrow> string \<Rightarrow> (goerr + pod) prog" where
  "GetPod E podName namespace = call (\<lambda>h. k_pod_get E h namespace podName) (EvPodGet namespace podName)"

definition ListPod :: "env \<Rightarrow> string \<Rightarrow> gomap \<Rightarrow> (goerr + pod list) prog" where
  "ListPod E namespace labelMap = call (\<lambda>h. k_pod_list E h namespace labelMap) (EvPodList namespace labelMap)"

definition GetPodLog :: "env \<Rightarrow> string \<Rightarrow> string \<Rightarrow> string \<Rightarrow> (goerr + string) prog" where
  "GetPodLog E podName namespace containerName =
     call (\<lambda>h. k_pod_log E h namespace podName containerName) (EvPodLog namespace podName containerName)"

definition PatchPod :: "env \<Rightarrow> pod option \<Rightarrow> string \<Rightarrow> goerr option prog" where
  "PatchPod E p data =
     (case p of
        None \<Rightarrow> State_Monad.return None
      | Some pod \<Rightarrow> call (\<lambda>h. k_pod_patch E h (p_namespace pod) (p_name pod) data)
                        (EvPodPatch (p_namespace pod) (p_name pod) data))"

definition UpdatePod :: "env \<Rightarrow> pod option \<Rightarrow> goerr option prog" where
  "UpdatePod E p =
     (case p of
        None \<Rightarrow> State_Monad.return None
      | Some pod \<Rightarrow> call (\<lambda>h. k_pod_update E h pod) (EvPodUpdate pod))"

definition DeletePod :: "env \<Rightarrow> pod option \<Rightarrow> goerr option prog" where
  "DeletePod E p =
     (case p of
        None \<Rightarrow> State_Monad.return None
      | Some pod \<Rightarrow> call (\<lambda>h. k_pod_delete E h (p_namespace pod) (p_name pod))
                        (EvPodDelete (p_namespace pod) (p_name pod)))"

section \<open>Secrets\<close>

definition GetSecret :: "env \<Rightarrow> string \<Rightarrow> string \<Rightarrow> (goerr + secret) prog" where
  "GetSecret E secretName namespace =
     call (\<lambda>h. k_secret_get E h namespace secretName) (EvSecretGet namespace secretName)"

definition CreateSecret :: "env \<Rightarrow> secret option \<Rightarrow> (secret option \<times> goerr option) prog" where
  "CreateSecret E s =
     (case s of
        None \<Rightarrow> State_Monad.return (None, None)
      | Some sec \<Rightarrow> do {
          r \<leftarrow> call (\<lambda>h. k_secret_create E h sec) (EvSecretCreate sec);
          State_Monad.return (case r of Inl e \<Rightarrow> (None, Some e) | Inr created \<Rightarrow> (Some created, None))
        })"

definition UpdateSecret :: "env \<Rightarrow> secret option \<Rightarrow> goerr option prog" where
  "UpdateSecret E s =
     (case s of
        None \<Rightarrow> State_Monad.return None
      | Some sec \<Rightarrow> call (\<lambda>h. k_secret_update E h sec) (EvSecretUpdate sec))"

definition DeleteSecret :: "env \<Rightarrow> string \<Rightarrow> string \<Rightarrow> goerr option prog" where
  "DeleteSecret E secretName namespace =
     call (\<lambda>h. k_secret_delete E h namespace secretName) (EvSecretDelete namespace secretName)"

section \<open>Jobs\<close>

definition GetJob :: "env \<Rightarrow> string \<Rightarrow> string \<Rightarrow> (goerr + job) prog" where
  "GetJob E jobName namespace = call (\<lambda>h. k_job_get E h namespace jobName) (EvJobGet namespace jobName)"

definition CreateJob :: "env \<Rightarrow> job option \<Rightarrow> (job option \<times> goerr option) prog" where
  "CreateJob E j =
     (case j of
        None \<Rightarrow> State_Monad.return (None, None)
      | Some jb \<Rightarrow> do {
          r \<leftarrow> call (\<lambda>h. k_job_create E h jb) (EvJobCreate jb);
          State_Monad.return (case r of Inl e \<Rightarrow> (None, Some e) | Inr created \<Rightarrow> (Some created, None))
        })"

definition UpdateJob :: "env \<Rightarrow> job option \<Rightarrow> goerr option prog" where
  "UpdateJob E j =
     (case j of
        None \<Rightarrow> State_Monad.return None
      | Some jb \<Rightarrow> call (\<lambda>h. k_job_update E h jb) (EvJobUpdate jb))"

definition DeleteJob :: "env \<Rightarrow> string \<Rightarrow> string \<Rightarrow> goerr option prog" where
  "DeleteJob E jobName namespace =
     call (\<lambda>h. k_job_delete E h namespace jobName) (EvJobDelete namespace jobName)"

section \<open>Rules\<close>

lemmas client_defs = CreatePod_def GetPod_def ListPod_def GetPodLog_def PatchPod_def UpdatePod_def
  DeletePod_def GetSecret_def CreateSecret_def UpdateSecret_def DeleteSecret_def GetJob_def
  CreateJob_def UpdateJob_def DeleteJob_def

lemma emits_GetPod [emits_intros]: "(\<And>r. P (EvPodGet ns n r)) \<Longrightarrow> emits P (GetPod E n ns)"
  unfolding GetPod_def by (rule emits_call)

lemma emits_CreatePod [emits_intros]: "(\<And>r. P (EvPodCreate p r)) \<Longrightarrow> emits P (CreatePod E (Some p))"
  unfolding CreatePod_def by (auto intro!: emits_intros)

lemma emits_ListPod [emits_intros]: "(\<And>r. P (EvPodList ns l r)) \<Longrightarrow> emits P (ListPod E ns l)"
  unfolding ListPod_def by (rule emits_call)

lemma emits_GetPodLog [emits_intros]: "(\<And>r. P (EvPodLog ns n c r)) \<Longrightarrow> emits P (GetPodLog E n ns c)"
  unfolding GetPodLog_def by (rule emits_call)

lemma emits_UpdatePod [emits_intros]: "(\<And>r. P (EvPodUpdate p r)) \<Longrightarrow> emits P (UpdatePod E (Some p))"
  unfolding UpdatePod_def by (auto intro!: emits_intros)

lemma emits_DeletePod [emits_intros]:
  "(\<And>r. P (EvPodDelete (p_namespace p) (p_name p) r)) \<Longrightarrow> emits P (DeletePod E (Some p))"
  unfolding DeletePod_def by (auto intro!: emits_intros)

lemma emits_GetSecret [emits_intros]: "(\<And>r. P (EvSecretGet ns n r)) \<Longrightarrow> emits P (GetSecret E n ns)"
  unfolding GetSecret_def by (rule emits_call)

lemma emits_CreateSecret [emits_intros]: "(\<And>r. P (EvSecretCreate x r)) \<Longrightarrow> emits P (CreateSecret E (Some x))"
  unfolding CreateSecret_def by (auto intro!: emits_intros)

lemma emits_UpdateSecret [emits_intros]: "(\<And>r. P (EvSecretUpdate x r)) \<Longrightarrow> emits P (UpdateSecret E (Some x))"
  unfolding UpdateSecret_def by (auto intro!: emits_intros)

lemma emits_GetJob [emits_intros]: "(\<And>r. P (EvJobGet ns n r)) \<Longrightarrow> emits P (GetJob E n ns)"
  unfolding GetJob_def by (rule emits_call)

lemma emits_CreateJob [emits_intros]: "(\<And>r. P (EvJobCreate j r)) \<Longrightarrow> emits P (CreateJob E (Some j))"
  unfolding CreateJob_def by (auto intro!: emits_intros)

lemma emits_DeleteJob [emits_intros]: "(\<And>r. P (EvJobDelete ns n r)) \<Longrightarrow> emits P (DeleteJob E n ns)"
  unfolding DeleteJob_def by (rule emits_call)

lemma does_UpdatePod: "does (UpdatePod E (Some p)) (\<lambda>r evs. evs = [EvPodUpdate p r])"
  unfolding UpdatePod_def by (auto intro: does_call)

end
