(* ===== verification/OsCalls.thy ===== *)
theory OsCalls
  imports Util
begin

text \<open>
  The calls the driver makes on the node: the mount library (k8s.io/utils/mount), files, commands,
  and Go's iteration over a map. Each is one call of the environment.
\<close>

text \<open>\<^verbatim>\<open>for k, v := range m\<close>: the entries in the order the runtime picks.\<close>

definition Range :: "env \<Rightarrow> gomap \<Rightarrow> gomap prog" where
  "Range E m = call (\<lambda>h. g_range E h m) (EvRange m)"

definition Stat :: "env \<Rightarrow> string \<Rightarrow> (goerr + file_info) prog" where
  "Stat E path = call (\<lambda>h. o_stat E h path) (EvStat path)"

definition CleanupMountPoint :: "env \<Rightarrow> string \<Rightarrow> goerr option prog" where
  "CleanupMountPoint E path = call (\<lambda>h. m_cleanup E h path) (EvCleanup path)"

text \<open>\<^verbatim>\<open>mount.PathExists\<close> returns both values: a corrupted mount is there and gives an error.\<close>

definition PathExists :: "env \<Rightarrow> string \<Rightarrow> (bool \<times> goerr option) prog" where
  "PathExists E path = call (\<lambda>h. m_path_exists E h path) (EvPathExists path)"

definition Unmount :: "env \<Rightarrow> string \<Rightarrow> goerr option prog" where
  "Unmount E target = call (\<lambda>h. m_unmount E h target) (EvUnmount target)"

definition Mount :: "env \<Rightarrow> string \<Rightarrow> string \<Rightarrow> string \<Rightarrow> string list \<Rightarrow> goerr option prog" where
  "Mount E source target fstype options =
     call (\<lambda>h. m_mount E h source target fstype options) (EvMount source target fstype options)"

definition IsNotMountPoint :: "env \<Rightarrow> string \<Rightarrow> (goerr + bool) prog" where
  "IsNotMountPoint E path = call (\<lambda>h. m_is_not_mnt E h path) (EvIsNotMnt path)"

definition IsLikelyNotMountPoint :: "env \<Rightarrow> string \<Rightarrow> (goerr + bool) prog" where
  "IsLikelyNotMountPoint E path = call (\<lambda>h. m_is_likely_not_mnt E h path) (EvIsLikelyNotMnt path)"

definition MkdirAll :: "env \<Rightarrow> string \<Rightarrow> nat \<Rightarrow> goerr option prog" where
  "MkdirAll E path perm = call (\<lambda>h. o_mkdir_all E h path perm) (EvMkdirAll path perm)"

definition Chmod :: "env \<Rightarrow> string \<Rightarrow> nat \<Rightarrow> goerr option prog" where
  "Chmod E path perm = call (\<lambda>h. o_chmod E h path perm) (EvChmod path perm)"

definition Remove :: "env \<Rightarrow> string \<Rightarrow> goerr option prog" where
  "Remove E path = call (\<lambda>h. o_remove E h path) (EvRemove path)"

definition WriteFile :: "env \<Rightarrow> string \<Rightarrow> string \<Rightarrow> goerr option prog" where
  "WriteFile E path data = call (\<lambda>h. o_write_file E h path data) (EvWriteFile path data)"

definition ReadFile :: "env \<Rightarrow> string \<Rightarrow> (goerr + string) prog" where
  "ReadFile E path = call (\<lambda>h. o_read_file E h path) (EvReadFile path)"

definition EvalSymlinks :: "env \<Rightarrow> string \<Rightarrow> (goerr + string) prog" where
  "EvalSymlinks E path = call (\<lambda>h. o_eval_symlinks E h path) (EvEvalSymlinks path)"

text \<open>A command run to its end, with extra environment variables: its combined output and error.\<close>

definition Exec :: "env \<Rightarrow> string \<Rightarrow> string list \<Rightarrow> string list \<Rightarrow> (string \<times> goerr option) prog" where
  "Exec E cmd args envs = call (\<lambda>h. o_exec E h cmd args envs) (EvExec cmd args envs)"

lemmas os_defs = Range_def Stat_def CleanupMountPoint_def PathExists_def Unmount_def Mount_def
  IsNotMountPoint_def IsLikelyNotMountPoint_def MkdirAll_def Chmod_def Remove_def WriteFile_def
  ReadFile_def EvalSymlinks_def Exec_def

lemma emits_Range [emits_intros]: "(\<And>r. P (EvRange m r)) \<Longrightarrow> emits P (Range E m)"
  unfolding Range_def by (rule emits_call)

lemma emits_Stat [emits_intros]: "(\<And>r. P (EvStat p r)) \<Longrightarrow> emits P (Stat E p)"
  unfolding Stat_def by (rule emits_call)

lemma emits_CleanupMountPoint [emits_intros]: "(\<And>r. P (EvCleanup p r)) \<Longrightarrow> emits P (CleanupMountPoint E p)"
  unfolding CleanupMountPoint_def by (rule emits_call)

lemma emits_PathExists [emits_intros]: "(\<And>r. P (EvPathExists p r)) \<Longrightarrow> emits P (PathExists E p)"
  unfolding PathExists_def by (rule emits_call)

lemma emits_Unmount [emits_intros]: "(\<And>r. P (EvUnmount p r)) \<Longrightarrow> emits P (Unmount E p)"
  unfolding Unmount_def by (rule emits_call)

lemma emits_Mount [emits_intros]: "(\<And>r. P (EvMount a b f opts r)) \<Longrightarrow> emits P (Mount E a b f opts)"
  unfolding Mount_def by (rule emits_call)

lemma emits_IsNotMountPoint [emits_intros]: "(\<And>r. P (EvIsNotMnt p r)) \<Longrightarrow> emits P (IsNotMountPoint E p)"
  unfolding IsNotMountPoint_def by (rule emits_call)

lemma emits_IsLikelyNotMountPoint [emits_intros]:
  "(\<And>r. P (EvIsLikelyNotMnt p r)) \<Longrightarrow> emits P (IsLikelyNotMountPoint E p)"
  unfolding IsLikelyNotMountPoint_def by (rule emits_call)

lemma emits_MkdirAll [emits_intros]: "(\<And>r. P (EvMkdirAll p m r)) \<Longrightarrow> emits P (MkdirAll E p m)"
  unfolding MkdirAll_def by (rule emits_call)

lemma emits_Chmod [emits_intros]: "(\<And>r. P (EvChmod p m r)) \<Longrightarrow> emits P (Chmod E p m)"
  unfolding Chmod_def by (rule emits_call)

lemma emits_Remove [emits_intros]: "(\<And>r. P (EvRemove p r)) \<Longrightarrow> emits P (Remove E p)"
  unfolding Remove_def by (rule emits_call)

lemma emits_WriteFile [emits_intros]: "(\<And>r. P (EvWriteFile p d r)) \<Longrightarrow> emits P (WriteFile E p d)"
  unfolding WriteFile_def by (rule emits_call)

lemma emits_ReadFile [emits_intros]: "(\<And>r. P (EvReadFile p r)) \<Longrightarrow> emits P (ReadFile E p)"
  unfolding ReadFile_def by (rule emits_call)

lemma emits_EvalSymlinks [emits_intros]: "(\<And>r. P (EvEvalSymlinks p r)) \<Longrightarrow> emits P (EvalSymlinks E p)"
  unfolding EvalSymlinks_def by (rule emits_call)

lemma emits_Exec [emits_intros]: "(\<And>r. P (EvExec c a v r)) \<Longrightarrow> emits P (Exec E c a v)"
  unfolding Exec_def by (rule emits_call)

end
