(* ===== verification/ApiServer.thy ===== *)
theory ApiServer
  imports K8sClient
begin

text \<open>
  What the Kubernetes API promises about pods, stated on the history of the driver's calls: a pod
  reads back as it was last written, a deletion marks a pod that has finalizers, and a pod without any
  goes when it is deleted, as a marked one does when an update empties its finalizers. Such a pod may be gone at once or
  stay readable while it terminates, for as long as the kubelet takes: \<open>pod_at\<close> is \<^verbatim>\<open>None\<close> in both cases, and a
  read then answers not found or a pod that is being deleted and has no finalizer. The server may
  answer any call with an error; an update or deletion that failed changes nothing. The promise
  \<open>api_documented\<close> is a hypothesis of the theorems about sequences of calls with no other
  writer, of the statuses too; the safety theorems do without it.
\<close>

definition named :: "string \<Rightarrow> string \<Rightarrow> pod \<Rightarrow> bool" where
  "named ns n p \<longleftrightarrow> p_namespace p = ns \<and> p_name p = n"

text \<open>The pod \<open>n\<close> of namespace \<open>ns\<close> on a server that began with the pods \<open>init\<close> and stamps deletions with \<open>now\<close>;
  none when it is gone or terminates with nothing left to hold it.\<close>

fun pod_at :: "(string \<Rightarrow> string \<Rightarrow> pod option) \<Rightarrow> int \<Rightarrow> history \<Rightarrow> string \<Rightarrow> string \<Rightarrow> pod option" where
  "pod_at init now [] ns n = init ns n"
| "pod_at init now (e # h) ns n =
     (let old = pod_at init now h ns n in
      case e of
        EvPodCreate _ (Inr p) \<Rightarrow> if named ns n p then Some p else old
      | EvPodUpdate p None \<Rightarrow>
          if named ns n p then
            (if p_deletionTimestamp p \<noteq> None \<and> p_finalizers p = [] then None else Some p)
          else old
      | EvPodDelete ns' n' None \<Rightarrow>
          if ns' = ns \<and> n' = n then
            (case old of
               None \<Rightarrow> None
             | Some p \<Rightarrow> if p_finalizers p = [] then None else Some (p\<lparr>p_deletionTimestamp := Some now\<rparr>))
          else old
      | _ \<Rightarrow> old)"

text \<open>A pod the server can hold: one that is being deleted still has a finalizer.\<close>

definition stored :: "pod \<Rightarrow> bool" where
  "stored p \<longleftrightarrow> p_deletionTimestamp p = None \<or> p_finalizers p \<noteq> []"

text \<open>A pod that terminates: nothing holds it any more, and it is gone when the kubelet has stopped its containers.\<close>

definition terminating :: "pod \<Rightarrow> bool" where
  "terminating p \<longleftrightarrow> p_deletionTimestamp p \<noteq> None \<and> p_finalizers p = []"

definition api_reads :: "(string \<Rightarrow> string \<Rightarrow> pod option) \<Rightarrow> int \<Rightarrow> env \<Rightarrow> bool" where
  "api_reads init now E \<longleftrightarrow>
     (\<forall>h ns n. case k_pod_get E h ns n of
        Inr p \<Rightarrow> named ns n p \<and> (case pod_at init now h ns n of Some q \<Rightarrow> p = q | None \<Rightarrow> terminating p)
      | Inl e \<Rightarrow> IsNotFound e \<longrightarrow> pod_at init now h ns n = None)"

text \<open>A created pod has the metadata of the one submitted; its spec may be completed by the server (service account, tolerations).\<close>

definition api_creates :: "env \<Rightarrow> bool" where
  "api_creates E \<longleftrightarrow>
     (\<forall>h p p'. k_pod_create E h p = Inr p' \<longrightarrow>
        p_name p' = p_name p \<and> p_namespace p' = p_namespace p \<and> p_annotations p' = p_annotations p \<and>
        p_labels p' = p_labels p \<and> p_finalizers p' = p_finalizers p \<and>
        p_deletionTimestamp p' = None)"

definition api_documented :: "(string \<Rightarrow> string \<Rightarrow> pod option) \<Rightarrow> int \<Rightarrow> env \<Rightarrow> bool" where
  "api_documented init now E \<longleftrightarrow> api_reads init now E \<and> api_creates E"

lemma api_get:
  assumes "api_documented init now E"
  shows "k_pod_get E h ns n = Inr p \<Longrightarrow> pod_at init now h ns n = Some q \<Longrightarrow> p = q \<and> named ns n q"
    and "k_pod_get E h ns n = Inl (ApiError NotFound) \<Longrightarrow> pod_at init now h ns n = None"
    and "k_pod_get E h ns n = Inr p \<Longrightarrow> pod_at init now h ns n = None \<Longrightarrow> terminating p \<and> named ns n p"
    and "k_pod_get E h ns n = Inr p \<Longrightarrow> p_deletionTimestamp p = None \<Longrightarrow> pod_at init now h ns n = Some p \<and> named ns n p"
    and "k_pod_get E h ns n = Inr p \<Longrightarrow> named ns n p"
proof -
  have "case k_pod_get E h ns n of
      Inr p \<Rightarrow> named ns n p \<and> (case pod_at init now h ns n of Some q \<Rightarrow> p = q | None \<Rightarrow> terminating p)
    | Inl e \<Rightarrow> IsNotFound e \<longrightarrow> pod_at init now h ns n = None"
    using assms unfolding api_documented_def api_reads_def by blast
  then show "k_pod_get E h ns n = Inr p \<Longrightarrow> pod_at init now h ns n = Some q \<Longrightarrow> p = q \<and> named ns n q"
    "k_pod_get E h ns n = Inl (ApiError NotFound) \<Longrightarrow> pod_at init now h ns n = None"
    "k_pod_get E h ns n = Inr p \<Longrightarrow> pod_at init now h ns n = None \<Longrightarrow> terminating p \<and> named ns n p"
    "k_pod_get E h ns n = Inr p \<Longrightarrow> p_deletionTimestamp p = None \<Longrightarrow> pod_at init now h ns n = Some p \<and> named ns n p"
    "k_pod_get E h ns n = Inr p \<Longrightarrow> named ns n p"
    by (cases "pod_at init now h ns n"; simp add: terminating_def)+
qed

text \<open>Events that leave every pod as it is.\<close>

fun keeps_pods :: "event \<Rightarrow> bool" where
  "keeps_pods (EvPodCreate _ (Inr _)) = False"
| "keeps_pods (EvPodUpdate _ None) = False"
| "keeps_pods (EvPodDelete _ _ None) = False"
| "keeps_pods _ = True"

lemma pod_at_keeps: "keeps_pods e \<Longrightarrow> pod_at init now (e # h) = pod_at init now h"
  by (cases e rule: keeps_pods.cases) (auto simp: fun_eq_iff)

lemma pod_at_read [simp]:
  "pod_at init now (EvPodGet ns' n' r # h) = pod_at init now h"
  "pod_at init now (EvSleep d # h) = pod_at init now h"
  "pod_at init now (EvNow t # h) = pod_at init now h"
  "pod_at init now (EvLock i # h) = pod_at init now h"
  "pod_at init now (EvUnlock i # h) = pod_at init now h"
  "pod_at init now (EvPodUpdate p (Some e) # h) = pod_at init now h"
  "pod_at init now (EvPodDelete ns' n' (Some e) # h) = pod_at init now h"
  "pod_at init now (EvPodCreate p (Inl e) # h) = pod_at init now h"
  by (rule pod_at_keeps, simp)+

lemma pod_at_write [simp]:
  "pod_at init now (EvPodUpdate p None # h) ns n =
     (if named ns n p then (if p_deletionTimestamp p \<noteq> None \<and> p_finalizers p = [] then None else Some p)
      else pod_at init now h ns n)"
  "pod_at init now (EvPodCreate q (Inr p) # h) ns n = (if named ns n p then Some p else pod_at init now h ns n)"
  "pod_at init now (EvPodDelete ns' n' None # h) ns n =
     (if ns' = ns \<and> n' = n then
        (case pod_at init now h ns n of
           None \<Rightarrow> None
         | Some p \<Rightarrow> if p_finalizers p = [] then None else Some (p\<lparr>p_deletionTimestamp := Some now\<rparr>))
      else pod_at init now h ns n)"
  by (simp_all add: Let_def)

declare pod_at.simps(2) [simp del]

lemma pod_at_append_keeps:
  "\<forall>e \<in> set evs. keeps_pods e \<Longrightarrow> pod_at init now (evs @ h) = pod_at init now h"
proof (induction evs)
  case (Cons e evs)
  then have "pod_at init now (e # evs @ h) = pod_at init now (evs @ h)" by (intro pod_at_keeps) simp
  with Cons show ?case by simp
qed simp

lemma wp_keeps_pods:
  assumes "emits keeps_pods m"
  shows "wp m (\<lambda>_ s'. pod_at init now (hist s') = pod_at init now (hist s)) s"
proof -
  have "wp m (\<lambda>_ s'. \<exists>evs. hist s' = evs @ hist s \<and> (\<forall>e \<in> set evs. keeps_pods e)) s"
    using assms by (simp add: emits_def)
  then show ?thesis by (rule wp_mono) (auto simp: pod_at_append_keeps)
qed

end
