(* ===== verification/SimEnv.thy ===== *)
theory SimEnv
  imports ApiServer
begin

text \<open>
  A concrete environment in which every call succeeds and the API server keeps the promise of
  theory ApiServer. It shows that the promises the theorems assume can be kept; the instances of the theorems are
  evaluated in it.
\<close>

definition sim_pods :: "pod list \<Rightarrow> string \<Rightarrow> string \<Rightarrow> pod option" where
  "sim_pods ps ns n = find (named ns n) ps"

text \<open>A pod whose containers are ready, as the server reports it.\<close>

definition sim_ready :: pod_status where
  "sim_ready = zero_status\<lparr>st_phase := ''Running'', st_conditions :=
     [\<lparr>cond_type = ''Ready'', cond_status = ''True'', cond_reason = '''', cond_message = ''''\<rparr>,
      \<lparr>cond_type = ''ContainersReady'', cond_status = ''True'', cond_reason = '''', cond_message = ''''\<rparr>]\<rparr>"

definition sim_env :: "pod list \<Rightarrow> env" where
  "sim_env ps = \<lparr>
     k_pod_create = (\<lambda>h p. Inr (p\<lparr>p_deletionTimestamp := None, p_status := sim_ready\<rparr>)),
     k_pod_get = (\<lambda>h ns n. case pod_at (sim_pods ps) 0 h ns n of None \<Rightarrow> Inl (ApiError NotFound) | Some p \<Rightarrow> Inr p),
     k_pod_list = (\<lambda>h ns m. Inr ps),
     k_pod_log = (\<lambda>h ns n c. Inr ''''),
     k_pod_patch = (\<lambda>h ns n d. None),
     k_pod_update = (\<lambda>h p. None),
     k_pod_delete = (\<lambda>h ns n. None),
     k_secret_get = (\<lambda>h ns n. Inl (ApiError NotFound)),
     k_secret_create = (\<lambda>h x. Inr x),
     k_secret_update = (\<lambda>h x. None),
     k_secret_delete = (\<lambda>h ns n. None),
     k_job_get = (\<lambda>h ns n. Inl (ApiError NotFound)),
     k_job_create = (\<lambda>h j. Inr j),
     k_job_update = (\<lambda>h j. None),
     k_job_delete = (\<lambda>h ns n. None),
     x_retry = retry_loop [10000000, 10000000, 10000000, 10000000],
     x_add_finalizer = (\<lambda>p f. p\<lparr>p_finalizers := List.insert f (p_finalizers p)\<rparr>),
     x_remove_finalizer = (\<lambda>p f. p\<lparr>p_finalizers := removeAll f (p_finalizers p)\<rparr>),
     x_quantity = (\<lambda>q. Some (Quantity q)),
     m_mount = (\<lambda>h a b f opts. None),
     m_unmount = (\<lambda>h t. None),
     m_is_not_mnt = (\<lambda>h p. Inr False),
     m_is_likely_not_mnt = (\<lambda>h p. Inr False),
     m_cleanup = (\<lambda>h p. None),
     m_path_exists = (\<lambda>h p. (True, None)),
     m_parse_mountinfo = (\<lambda>h. Inr []),
     m_is_corrupted = (\<lambda>e. False),
     o_stat = (\<lambda>h p. Inr \<lparr>fi_perm = 511, fi_ino = 1\<rparr>),
     o_mkdir_all = (\<lambda>h p m. None),
     o_chmod = (\<lambda>h p m. None),
     o_remove = (\<lambda>h p. None),
     o_write_file = (\<lambda>h p d. None),
     o_read_file = (\<lambda>h p. Inr ''''),
     o_eval_symlinks = (\<lambda>h p. Inr p),
     o_exec = (\<lambda>h c a v. ('''', None)),
     o_getenv = (\<lambda>k. None),
     o_environ = [],
     o_timeout = (\<lambda>h. False),
     o_http_get = (\<lambda>h url. Inr (Inr '''')),
     x_pod_list = (\<lambda>body. Inr (Some ps)),
     o_now = (\<lambda>h. 0),
     o_tz = (\<lambda>t. 0),
     g_frac = (\<lambda>f s u. f * u div s),
     g_range = (\<lambda>h m. m)\<rparr>"

definition sim_config :: config where
  "sim_config = \<lparr>ByProcess = False, EnableManager = True, FormatInPod = False, NodeName = ''node'',
     Namespace = ''kube-system'', PodName = ''juicefs-csi-node'', MountImage = ''image'', MountLabels = '''',
     HostIp = '''', KubeletPort = '''', CSIPod = zero_pod, MountPointPath = ''/var/lib/juicefs/volume'',
     JFSConfigPath = ''/var/lib/juicefs/config'', JFSMountPriorityName = ''system-node-critical'',
     ReconcilerInterval = 5\<rparr>"

definition sim_state :: gst where
  "sim_state = \<lparr>hist = [], cr_limits = None, cr_requests = None\<rparr>"

definition sim_mount_pod :: pod where
  "sim_mount_pod = zero_pod\<lparr>p_name := ''juicefs-node-pvc'', p_namespace := ''kube-system'', p_status := sim_ready,
     p_finalizers := [Finalizer]\<rparr>"

definition sim_setting :: jfs_setting where
  "sim_setting = zero_setting\<lparr>js_VolumeId := ''pvc'', js_TargetPath := ''/b''\<rparr>"

lemma sim_env_sel [simp]:
  "x_quantity (sim_env ps) q = Some (Quantity q)" "k_pod_list (sim_env ps) h ns m = Inr ps"
  "m_mount (sim_env ps) h a b f opts = None" "o_mkdir_all (sim_env ps) h path perm = None"
  "m_path_exists (sim_env ps) h path = (True, None)" "g_range (sim_env ps) h m = m"
  "o_getenv (sim_env ps) k = None" "o_environ (sim_env ps) = []" "o_exec (sim_env ps) h c args v = ('''', None)"
  "m_unmount (sim_env ps) h path = None" "m_cleanup (sim_env ps) h path = None"
  by (simp_all add: sim_env_def)

lemma sim_retry [simp]: "retry_documented (sim_env ps)"
  by (auto simp: retry_documented_def sim_env_def)

lemma sim_finalizers [simp]: "finalizers_documented (sim_env ps)"
  by (auto simp: finalizers_documented_def sim_env_def)

lemma sim_pods_named: "sim_pods ps ns n = Some p \<Longrightarrow> named ns n p"
  by (auto simp: sim_pods_def find_Some_iff)

lemma pod_at_named:
  assumes "\<And>ns n p. init ns n = Some p \<Longrightarrow> named ns n p"
  shows "pod_at init now h ns n = Some p \<Longrightarrow> named ns n p"
proof (induction h arbitrary: p)
  case Nil
  with assms show ?case by simp
next
  case (Cons e h)
  show ?case
  proof (cases "keeps_pods e")
    case True
    with Cons show ?thesis by (simp add: pod_at_keeps)
  next
    case False
    then show ?thesis
      using Cons by (cases e rule: keeps_pods.cases) (auto simp: named_def split: if_splits option.splits)
  qed
qed

lemma sim_api [simp]: "api_documented (sim_pods ps) 0 (sim_env ps)"
  by (auto simp: api_documented_def api_reads_def api_creates_def sim_env_def
      intro: pod_at_named [OF sim_pods_named] split: option.splits)

lemmas sim_defs = sim_env_def sim_config_def sim_state_def sim_pods_def

lemmas sim_run_defs = sim_defs sim_ready_def sim_mount_pod_def sim_setting_def zero_setting_def zero_defs named_def

definition sim_decoders :: decoders where
  "sim_decoders = \<lparr>y_setting = \<lambda>m js. (None, js), j_setting = \<lambda>m js. (None, js), y_map = \<lambda>t m. (None, m), j_map = \<lambda>t m. (None, m)\<rparr>"

end
