(* ===== verification/Builder.thy ===== *)
theory Builder
  imports OsCalls SimEnv
begin

text \<open>
  pkg/juicefs/mount/builder: the mount pod (pod.go, common.go), the jobs that create and delete a
  volume (job.go) and the secret with the credentials (secret.go). A builder is its settings;
  the operations that change \<^verbatim>\<open>r.jfsSetting\<close> return the new settings.
\<close>

section \<open>common.go\<close>

definition nat_str :: "nat \<Rightarrow> string" where
  "nat_str n = dec_digits 20 (int n)"

definition getVolumes :: "config \<Rightarrow> jfs_setting \<Rightarrow> volume list" where
  "getVolumes C js =
     [\<lparr>vol_name = ''jfs-dir'', vol_source = HostPath (MountPointPath C) ''DirectoryOrCreate''\<rparr>,
      \<lparr>vol_name = ''jfs-root-dir'', vol_source = HostPath (JFSConfigPath C) ''DirectoryOrCreate''\<rparr>]
     @ (if js_EncryptRsaKey js \<noteq> '''' then
          [\<lparr>vol_name = ''rsa-key'',
            vol_source = SecretVolume (js_SecretName js) [(''encrypt_rsa_key'', ''rsa-key.pem'')]\<rparr>] else [])
     @ (if js_InitConfig js \<noteq> '''' then
          [\<lparr>vol_name = ''init_config'',
            vol_source = SecretVolume (js_SecretName js) [(''init_config'', js_Name js @ ''.conf'')]\<rparr>] else [])"

definition getVolumeMounts :: "jfs_setting \<Rightarrow> volume_mount list" where
  "getVolumeMounts js =
     [\<lparr>vm_name = ''jfs-dir'', vm_mountPath = PodMountBase, vm_bidirectional = True\<rparr>,
      \<lparr>vm_name = ''jfs-root-dir'', vm_mountPath = ''/root/.juicefs'', vm_bidirectional = True\<rparr>]
     @ (if js_EncryptRsaKey js \<noteq> '''' \<and> \<not> js_IsCe js then
          [\<lparr>vm_name = ''rsa-key'', vm_mountPath = ''/root/.rsa'', vm_bidirectional = False\<rparr>] else [])
     @ (if js_InitConfig js \<noteq> '''' then
          [\<lparr>vm_name = ''init_config'', vm_mountPath = ''/root/.juicefs'', vm_bidirectional = False\<rparr>] else [])"

definition getInitContainer :: "config \<Rightarrow> jfs_setting \<Rightarrow> container" where
  "getInitContainer C js =
     (let vms = (if js_InitConfig js \<noteq> '''' then
                   [\<lparr>vm_name = ''init_config'', vm_mountPath = ''/root/.juicefs'', vm_bidirectional = False\<rparr>] else [])
              @ (if js_EncryptRsaKey js \<noteq> '''' \<and> js_IsCe js then
                   [\<lparr>vm_name = ''rsa-key'', vm_mountPath = ''/root/.rsa'', vm_bidirectional = False\<rparr>] else []);
          formatCmd = (if js_EncryptRsaKey js \<noteq> '''' \<and> js_IsCe js
                       then js_FormatCmd js @ '' --encrypt-rsa-key=/root/.rsa/rsa-key.pem'' else js_FormatCmd js)
      in zero_container\<lparr>c_name := ''jfs-format'', c_image := MountImage C, c_privileged := True,
           c_volumeMounts := vms, c_command := [''sh'', ''-c'', formatCmd], c_envFrom := [js_SecretName js]\<rparr>)"

text \<open>The mounts and volumes of the user's extra configs, numbered in iteration order.\<close>

fun config_mounts :: "nat \<Rightarrow> gomap \<Rightarrow> volume_mount list" where
  "config_mounts i [] = []"
| "config_mounts i ((k, v) # m) =
     \<lparr>vm_name = ''config-'' @ nat_str i, vm_mountPath = v, vm_bidirectional = False\<rparr> # config_mounts (Suc i) m"

fun config_volumes :: "nat \<Rightarrow> gomap \<Rightarrow> volume list" where
  "config_volumes i [] = []"
| "config_volumes i ((k, v) # m) =
     \<lparr>vol_name = ''config-'' @ nat_str i, vol_source = SecretVolume k []\<rparr> # config_volumes (Suc i) m"

text \<open>\<^verbatim>\<open>pod.Spec.Containers[0]\<close> of a pod that has a container.\<close>

definition upd_container0 :: "(container \<Rightarrow> container) \<Rightarrow> pod_spec \<Rightarrow> pod_spec" where
  "upd_container0 f sp =
     sp\<lparr>ps_containers := (case ps_containers sp of [] \<Rightarrow> [] | c # cs \<Rightarrow> f c # cs)\<rparr>"

definition generateJuicePod :: "env \<Rightarrow> config \<Rightarrow> jfs_setting \<Rightarrow> pod prog" where
  "generateJuicePod E C js = do {
     let pod = GeneratePodTemplate C;
     configs \<leftarrow> Range E (js_Configs js);
     let volumeMounts = getVolumeMounts js @ config_mounts 1 configs;
     let volumes = getVolumes C js @ config_volumes 1 configs;
     let spec = upd_container0 (\<lambda>c. c\<lparr>c_volumeMounts := volumeMounts, c_envFrom := [js_SecretName js]\<rparr>)
                  ((p_spec pod)\<lparr>ps_volumes := volumes\<rparr>);
     let spec' = (if js_FormatCmd js \<noteq> '''' then
                    (let ic = getInitContainer C js
                     in spec\<lparr>ps_initContainers := [ic\<lparr>c_volumeMounts := c_volumeMounts ic @ volumeMounts\<rparr>]\<rparr>)
                  else spec);
     State_Monad.return (pod\<lparr>p_spec := spec'\<rparr>)
   }"

section \<open>pod.go\<close>

text \<open>
  \<^verbatim>\<open>podLimit[name] = resource.MustParse(q)\<close>: \<^verbatim>\<open>MustParse\<close> panics on a malformed quantity, and
  \<^verbatim>\<open>podLimit\<close> is the map of \<^verbatim>\<open>config.ContainerResource\<close> itself when that is not nil.
\<close>

definition put_limit :: "env \<Rightarrow> string \<Rightarrow> string \<Rightarrow> resource_list \<Rightarrow> resource_list outcome prog" where
  "put_limit E name q m =
     (if q = '''' then State_Monad.return (Ok m)
      else (case x_quantity E q of
              None \<Rightarrow> State_Monad.return (Panic ''cannot parse quantity'')
            | Some v \<Rightarrow> do {
                let m' = mput name v m;
                State (\<lambda>s. ((), case cr_limits s of None \<Rightarrow> s | Some _ \<Rightarrow> s\<lparr>cr_limits := Some m'\<rparr>));
                State_Monad.return (Ok m')
              }))"

definition put_request :: "env \<Rightarrow> string \<Rightarrow> string \<Rightarrow> resource_list \<Rightarrow> resource_list outcome prog" where
  "put_request E name q m =
     (if q = '''' then State_Monad.return (Ok m)
      else (case x_quantity E q of
              None \<Rightarrow> State_Monad.return (Panic ''cannot parse quantity'')
            | Some v \<Rightarrow> do {
                let m' = mput name v m;
                State (\<lambda>s. ((), case cr_requests s of None \<Rightarrow> s | Some _ \<Rightarrow> s\<lparr>cr_requests := Some m'\<rparr>));
                State_Monad.return (Ok m')
              }))"

definition parsePodResources :: "env \<Rightarrow> jfs_setting \<Rightarrow> resources outcome prog" where
  "parsePodResources E js = do {
     s \<leftarrow> State_Monad.get;
     let podLimit = entries (cr_limits s);
     let podRequest = entries (cr_requests s);
     bindO (put_limit E ''cpu'' (js_MountPodCpuLimit js) podLimit) (\<lambda>l1.
     bindO (put_limit E ''memory'' (js_MountPodMemLimit js) l1) (\<lambda>l2.
     bindO (put_request E ''cpu'' (js_MountPodCpuRequest js) podRequest) (\<lambda>r1.
     bindO (put_request E ''memory'' (js_MountPodMemRequest js) r1) (\<lambda>r2.
       State_Monad.return (Ok \<lparr>res_limits = Some l2, res_requests = Some r2\<rparr>)))))
   }"

definition cache_volume :: "string \<Rightarrow> string \<Rightarrow> volume" where
  "cache_volume name path = \<lparr>vol_name = name, vol_source = HostPath path ''DirectoryOrCreate''\<rparr>"

definition cache_mount :: "string \<Rightarrow> string \<Rightarrow> volume_mount" where
  "cache_mount name path = \<lparr>vm_name = name, vm_mountPath = path, vm_bidirectional = True\<rparr>"

text \<open>The cache directories of one mount option: those of \<^verbatim>\<open>cache-dir=a:b:c\<close>, none of any other option.\<close>

definition option_cache_dirs :: "string \<Rightarrow> string list" where
  "option_cache_dirs optSubStr =
     (let optValStr = TrimSpace optSubStr in
      if \<not> HasPrefix optValStr ''cache-dir'' then []
      else (let optValPair = Split optValStr ''='' in
            if length optValPair \<noteq> 2 then []
            else Split (TrimSpace (optValPair ! 1)) '':''))"

definition cache_name :: "string \<Rightarrow> string" where
  "cache_name cacheDir = ReplaceAll (TrimPrefix cacheDir ''/'') ''/'' ''-''"

definition getCacheDirVolumes :: "string \<Rightarrow> volume list \<times> volume_mount list" where
  "getCacheDirVolumes cmd =
     (let cmdSplits = Split cmd '' -o '' in
      if length cmdSplits \<noteq> 2 then ([], [])
      else if \<not> Contains cmd ''cache-dir'' then
        ([cache_volume ''jfs-default-cache'' ''/var/jfsCache''], [cache_mount ''jfs-default-cache'' ''/var/jfsCache''])
      else (let cacheDirs = concat (map option_cache_dirs (Split (cmdSplits ! 1) '',''))
            in (map (\<lambda>d. cache_volume (cache_name d) d) cacheDirs, map (\<lambda>d. cache_mount (cache_name d) d) cacheDirs)))"

definition getCommand :: "jfs_setting \<Rightarrow> string outcome" where
  "getCommand js =
     (if js_IsCe js then
        (case StripPasswd (js_Source js) of
           Panic m \<Rightarrow> Panic m
         | Err e \<Rightarrow> Err e
         | Ok _ \<Rightarrow>
             (let options = (if \<not> ContainsString (js_Options js) ''metrics''
                             then js_Options js @ [''metrics=0.0.0.0:9567''] else js_Options js)
              in Ok (QuoteForShell (Join ([CeMountPath, ''${metaurl}'', js_MountPath js] @ [''-o'', Join options '','']) '' ''))))
      else
        (let options = js_Options js @ [''foreground''] @
               (if js_EncryptRsaKey js \<noteq> '''' then [''rsa-key=/root/.rsa/rsa-key.pem''] else [])
         in Ok (QuoteForShell (Join ([JfsMountPath, js_Source js, js_MountPath js] @ [''-o'', Join options '','']) '' ''))))"

definition NewMountPod :: "env \<Rightarrow> config \<Rightarrow> jfs_setting \<Rightarrow> string \<Rightarrow> pod outcome prog" where
  "NewMountPod E C js podName =
     bindO (parsePodResources E js) (\<lambda>resourceRequirements.
     bindO (State_Monad.return (getCommand js)) (\<lambda>cmd. do {
       let statCmd = ''stat -c %i '' @ js_MountPath js;
       pod \<leftarrow> generateJuicePod E C js;
       let (cacheVolumes, cacheVolumeMounts) = getCacheDirVolumes cmd;
       let spec = p_spec pod;
       let spec1 = upd_container0 (\<lambda>c. c\<lparr>c_volumeMounts := c_volumeMounts c @ cacheVolumeMounts\<rparr>)
                     (spec\<lparr>ps_volumes := ps_volumes spec @ cacheVolumes\<rparr>);
       let spec2 = (if js_MountPodServiceAccount js \<noteq> '''' then spec1\<lparr>ps_serviceAccountName := js_MountPodServiceAccount js\<rparr> else spec1);
       let pod1 = x_add_finalizer E (pod\<lparr>p_spec := spec2, p_name := podName\<rparr>) Finalizer;
       let spec3 = upd_container0 (\<lambda>c. c\<lparr>c_env := [(''JFS_FOREGROUND'', ''1'')],
              c_resources := resourceRequirements,
              c_command := [''sh'', ''-c'', cmd],
              c_readinessProbe := Some \<lparr>pb_command = [''sh'', ''-c'',
                  ''if [ x$('' @ statCmd @ '') = x1 ]; then exit 0; else exit 1; fi ''],
                  pb_initialDelaySeconds = 1, pb_periodSeconds = 1\<rparr>,
              c_preStop := Some [''sh'', ''-c'', ''umount '' @ js_MountPath js @ '' && rmdir '' @ js_MountPath js]\<rparr>)
            ((p_spec pod1)\<lparr>ps_priorityClassName := JFSMountPriorityName C, ps_restartPolicy := ''Always''\<rparr>);
       let labels = mputs (js_MountPodLabels js) (entries (p_labels pod1));
       let annos = mputs (js_MountPodAnnotations js) (entries (p_annotations pod1));
       let annos' = (if js_DeletedDelay js \<noteq> '''' then mput DeleteDelayTimeKey (js_DeletedDelay js) annos else annos);
       State_Monad.return (Ok (pod1\<lparr>p_spec := spec3, p_labels := Some labels, p_annotations := Some annos'\<rparr>))
     }))"

section \<open>job.go\<close>

definition GenJobNameByVolumeId :: "string \<Rightarrow> string" where
  "GenJobNameByVolumeId volumeId = ''juicefs-'' @ volumeId"

definition getJobCommand :: "jfs_setting \<Rightarrow> string" where
  "getJobCommand js =
     QuoteForShell
       (if js_IsCe js then
          Join ([CeMountPath, ''${metaurl}'', ''/mnt/jfs''] @
                (if js_Options js \<noteq> [] then [''-o'', Join (js_Options js) '',''] else [])) '' ''
        else
          (let options = js_Options js @
                 (if js_EncryptRsaKey js \<noteq> '''' then [''rsa-key=/root/.rsa/rsa-key.pem''] else []) @ [''background'']
           in Join [JfsMountPath, js_Source js, ''/mnt/jfs'', ''-o'', Join options '',''] '' ''))"

definition getCreateVolumeCmd :: "jfs_setting \<Rightarrow> string" where
  "getCreateVolumeCmd js =
     getJobCommand js @ '' && if [ ! -d /mnt/jfs/'' @ js_SubPath js @ '' ]; then mkdir -m 777 /mnt/jfs/'' @ js_SubPath js @ ''; fi;''"

definition getDeleteVolumeCmd :: "jfs_setting \<Rightarrow> string" where
  "getDeleteVolumeCmd js =
     (let jfsPath = (if js_IsCe js then CeCliPath else CliPath)
      in getJobCommand js @ '' && if [ -d /mnt/jfs/'' @ js_SubPath js @ '' ]; then '' @ jfsPath @ '' rmr /mnt/jfs/'' @ js_SubPath js @ ''; fi;'')"

definition newJob :: "env \<Rightarrow> config \<Rightarrow> jfs_setting \<Rightarrow> string \<Rightarrow> (job \<times> jfs_setting) prog" where
  "newJob E C js jobName = do {
     let js' = js\<lparr>js_SecretName := jobName @ ''-secret''\<rparr>;
     podTemplate \<leftarrow> generateJuicePod E C js';
     let spec = (upd_container0 (\<lambda>c. c\<lparr>c_preStop := Some [''sh'', ''-c'', ''umount /mnt/jfs && rmdir /mnt/jfs'']\<rparr>)
                   (p_spec podTemplate))\<lparr>ps_restartPolicy := ''OnFailure''\<rparr>;
     State_Monad.return (\<lparr>job_name = jobName, job_namespace = Namespace C, job_uid = '''', job_podSpec = spec,
       job_ttlSecondsAfterFinished = 1, job_conditions = []\<rparr>, js')
   }"

definition set_job_command :: "string \<Rightarrow> job \<Rightarrow> job" where
  "set_job_command cmd j = j\<lparr>job_podSpec := upd_container0 (\<lambda>c. c\<lparr>c_command := [''sh'', ''-c'', cmd]\<rparr>) (job_podSpec j)\<rparr>"

definition NewJobForCreateVolume :: "env \<Rightarrow> config \<Rightarrow> jfs_setting \<Rightarrow> (job \<times> jfs_setting) prog" where
  "NewJobForCreateVolume E C js = do {
     (j, js') \<leftarrow> newJob E C js (GenJobNameByVolumeId (js_VolumeId js) @ ''-createvol'');
     State_Monad.return (set_job_command (getCreateVolumeCmd js') j, js')
   }"

definition NewJobForDeleteVolume :: "env \<Rightarrow> config \<Rightarrow> jfs_setting \<Rightarrow> (job \<times> jfs_setting) prog" where
  "NewJobForDeleteVolume E C js = do {
     (j, js') \<leftarrow> newJob E C js (GenJobNameByVolumeId (js_VolumeId js) @ ''-delvol'');
     State_Monad.return (set_job_command (getDeleteVolumeCmd js') j, js')
   }"

section \<open>secret.go\<close>

definition put_nonempty :: "string \<Rightarrow> string \<Rightarrow> gomap \<Rightarrow> gomap" where
  "put_nonempty k v m = (if v \<noteq> '''' then mput k v m else m)"

definition NewSecret :: "config \<Rightarrow> jfs_setting \<Rightarrow> secret" where
  "NewSecret C js =
     (let data = put_nonempty ''init_config'' (js_InitConfig js)
                (put_nonempty ''encrypt_rsa_key'' (js_EncryptRsaKey js)
                (put_nonempty ''passphrase'' (js_Passphrase js)
                (put_nonempty ''token'' (js_Token js)
                (put_nonempty ''secretkey2'' (js_SecretKey2 js)
                (put_nonempty ''secretkey'' (js_SecretKey js)
                (put_nonempty ''metaurl'' (js_MetaUrl js) []))))))
      in \<lparr>sec_name = js_SecretName js, sec_namespace = Namespace C, sec_stringData = mputs (js_Envs js) data,
          sec_ownerReferences = []\<rparr>)"

definition SetPodAsOwner :: "secret \<Rightarrow> pod \<Rightarrow> secret" where
  "SetPodAsOwner sec owner =
     sec\<lparr>sec_ownerReferences := [\<lparr>own_apiVersion = ''v1'', own_kind = ''Pod'', own_name = p_name owner,
       own_uid = p_uid owner, own_controller = True\<rparr>]\<rparr>"

definition SetJobAsOwner :: "secret \<Rightarrow> job \<Rightarrow> secret" where
  "SetJobAsOwner sec owner =
     sec\<lparr>sec_ownerReferences := [\<lparr>own_apiVersion = ''batch/v1'', own_kind = ''Job'', own_name = job_name owner,
       own_uid = job_uid owner, own_controller = True\<rparr>]\<rparr>"

section \<open>Lemmas\<close>

lemma emits_put_limit [emits_intros]: "emits P (put_limit E n q m)"
  unfolding put_limit_def by (auto intro!: emits_intros split: option.splits)

lemma emits_put_request [emits_intros]: "emits P (put_request E n q m)"
  unfolding put_request_def by (auto intro!: emits_intros split: option.splits)

lemma emits_parsePodResources [emits_intros]: "emits P (parsePodResources E js)"
  unfolding parsePodResources_def by (intro emits_intros)

lemma emits_generateJuicePod [emits_intros]:
  "(\<And>m r. P (EvRange m r)) \<Longrightarrow> emits P (generateJuicePod E C js)"
  unfolding generateJuicePod_def by (intro emits_intros) assumption+

lemma emits_NewMountPod [emits_intros]:
  "(\<And>m r. P (EvRange m r)) \<Longrightarrow> emits P (NewMountPod E C js n)"
  unfolding NewMountPod_def by (intro emits_intros) assumption+

lemma emits_newJob [emits_intros]: "(\<And>m r. P (EvRange m r)) \<Longrightarrow> emits P (newJob E C js n)"
  unfolding newJob_def by (intro emits_intros) assumption+

lemma emits_NewJobForCreateVolume [emits_intros]:
  "(\<And>m r. P (EvRange m r)) \<Longrightarrow> emits P (NewJobForCreateVolume E C js)"
  unfolding NewJobForCreateVolume_def by (intro emits_intros) assumption+

lemma emits_NewJobForDeleteVolume [emits_intros]:
  "(\<And>m r. P (EvRange m r)) \<Longrightarrow> emits P (NewJobForDeleteVolume E C js)"
  unfolding NewJobForDeleteVolume_def by (intro emits_intros) assumption+

text \<open>A volume's mount path in the pod, and the conditions on its name under which it can be read back.\<close>

definition plain_name :: "string \<Rightarrow> bool" where
  "plain_name v \<longleftrightarrow> v \<noteq> '''' \<and> no_space v \<and> CHR ''/'' \<notin> set v \<and> CHR ''('' \<notin> set v \<and> CHR '')'' \<notin> set v"

lemma getCommand_ParseMntPath:
  assumes "getCommand js = Ok cmd" "js_MountPath js = PodMountBase @ ''/'' @ vol" "plain_name vol"
    and "\<not> js_IsCe js \<Longrightarrow> no_space (js_Source js) \<and> js_Source js \<noteq> ''''"
  shows "ParseMntPath cmd = Inr (js_MountPath js, vol)"
proof -
  have mp: "QuoteForShell (js_MountPath js) = js_MountPath js" "no_space (js_MountPath js)" "js_MountPath js \<noteq> []"
    using assms(2,3) by (auto simp: plain_name_def PodMountBase_def ascii_space_def intro!: QuoteForShell_plain)
  have split: "Split (js_MountPath js) ''/'' = ['''', ''jfs'', vol]"
    using assms(2,3) Split_char [of "CHR ''/''" "[]" "''jfs/'' @ vol"] Split_char [of "CHR ''/''" "''jfs''" vol]
    by (simp add: PodMountBase_def plain_name_def Split_char_none)
  have "\<exists>a b rest. Fields cmd = a # b # js_MountPath js # rest"
  proof (cases "js_IsCe js")
    case True
    with assms(1) obtain opts where "cmd = QuoteForShell (Join ([CeMountPath, ''${metaurl}'', js_MountPath js] @ [''-o'', opts]) '' '')"
      by (auto simp: getCommand_def Let_def split: outcome.splits)
    moreover have "no_space CeMountPath" "CeMountPath \<noteq> []" "no_space ''${metaurl}''" "''${metaurl}'' \<noteq> []"
      by (simp_all add: CeMountPath_def ascii_space_def)
    ultimately have "Fields cmd = [QuoteForShell CeMountPath, QuoteForShell ''${metaurl}'', js_MountPath js] @
        Fields (QuoteForShell (''-o'' @ '' '' @ opts))"
      using Fields_quoted [of CeMountPath "''${metaurl}''" "js_MountPath js" "''-o''" opts] mp by (simp only: simp_thms)
    then show ?thesis by (simp only: append.simps) blast
  next
    case False
    with assms(1) obtain opts where "cmd = QuoteForShell (Join ([JfsMountPath, js_Source js, js_MountPath js] @ [''-o'', opts]) '' '')"
      by (auto simp: getCommand_def Let_def split: outcome.splits)
    moreover have "no_space JfsMountPath" "JfsMountPath \<noteq> []" by (simp_all add: JfsMountPath_def ascii_space_def)
    ultimately have "Fields cmd = [QuoteForShell JfsMountPath, QuoteForShell (js_Source js), js_MountPath js] @
        Fields (QuoteForShell (''-o'' @ '' '' @ opts))"
      using Fields_quoted [of JfsMountPath "js_Source js" "js_MountPath js" "''-o''" opts] mp assms(4) [OF False]
      by (simp only: simp_thms)
    then show ?thesis by (simp only: append.simps) blast
  qed
  then obtain a b rest where "Fields cmd = a # b # js_MountPath js # rest" by blast
  moreover have "HasPrefix (js_MountPath js) PodMountBase" unfolding assms(2) by (rule HasPrefix_append)
  ultimately show ?thesis by (simp add: ParseMntPath_def split Let_def)
qed

lemma NewMountPod_command:
  assumes "finalizers_documented E"
  shows "wp (NewMountPod E C js podName) (\<lambda>r s'. \<forall>p. r = Ok p \<longrightarrow>
     (\<exists>cmd c. getCommand js = Ok cmd \<and> ps_containers (p_spec p) = [c] \<and> c_command c = [''sh'', ''-c'', cmd])) s"
  unfolding NewMountPod_def wp_bindO
  apply (rule wp_any)
  subgoal for r s'
    apply (cases r)
      apply (simp_all add: wp_simps)
    apply (cases "getCommand js")
      apply (simp_all add: wp_simps generateJuicePod_def os_defs Let_def split_beta
        add_finalizer_sel [OF assms] GeneratePodTemplate_def upd_container0_def)
    done
  done

definition credentials :: "jfs_setting \<Rightarrow> gomap" where
  "credentials js =
     [(''metaurl'', js_MetaUrl js), (''secretkey'', js_SecretKey js), (''secretkey2'', js_SecretKey2 js),
      (''token'', js_Token js), (''passphrase'', js_Passphrase js), (''encrypt_rsa_key'', js_EncryptRsaKey js),
      (''init_config'', js_InitConfig js)]"

lemma put_nonempties:
  "wf_map cs \<Longrightarrow> map_of (fold (\<lambda>(k, v). put_nonempty k v) cs m) k =
     (if mindex cs k \<noteq> '''' then Some (mindex cs k) else map_of m k)"
proof (induction cs arbitrary: m)
  case (Cons kv cs)
  obtain k' v where kv: "kv = (k', v)" by (cases kv)
  have "k = k' \<Longrightarrow> mindex cs k = ''''"
    using Cons.prems kv by (auto simp: mindex_def split: option.splits dest: map_of_SomeD intro: rev_image_eqI)
  moreover have "mindex (kv # cs) k = (if k = k' then v else mindex cs k)" by (simp add: kv mindex_def)
  ultimately show ?case using Cons kv by (auto simp: put_nonempty_def)
qed (simp add: mindex_def)

definition bad_quantity :: "env \<Rightarrow> jfs_setting \<Rightarrow> bool" where
  "bad_quantity E js \<longleftrightarrow>
     (\<exists>q \<in> {js_MountPodCpuLimit js, js_MountPodMemLimit js, js_MountPodCpuRequest js, js_MountPodMemRequest js}.
        q \<noteq> '''' \<and> x_quantity E q = None)"

definition override :: "env \<Rightarrow> string \<Rightarrow> string \<Rightarrow> resource_list \<Rightarrow> resource_list" where
  "override E name q m = (if q = '''' then m else case x_quantity E q of None \<Rightarrow> m | Some v \<Rightarrow> mput name v m)"

lemma put_limit_run:
  assumes "q = '''' \<or> x_quantity E q \<noteq> None" "cr_limits s = None \<or> cr_limits s = Some m"
  shows "run_state (put_limit E name q m) s =
    (Ok (override E name q m), s\<lparr>cr_limits := map_option (\<lambda>_. override E name q m) (cr_limits s)\<rparr>)"
  using assms by (cases s) (auto simp: put_limit_def override_def Let_def)

lemma put_request_run:
  assumes "q = '''' \<or> x_quantity E q \<noteq> None" "cr_requests s = None \<or> cr_requests s = Some m"
  shows "run_state (put_request E name q m) s =
    (Ok (override E name q m), s\<lparr>cr_requests := map_option (\<lambda>_. override E name q m) (cr_requests s)\<rparr>)"
  using assms by (cases s) (auto simp: put_request_def override_def Let_def)

lemma parsePodResources_run:
  assumes "\<not> bad_quantity E js"
  defines "l \<equiv> \<lambda>s. override E ''memory'' (js_MountPodMemLimit js) (override E ''cpu'' (js_MountPodCpuLimit js) (entries (cr_limits s)))"
    and "r \<equiv> \<lambda>s. override E ''memory'' (js_MountPodMemRequest js) (override E ''cpu'' (js_MountPodCpuRequest js) (entries (cr_requests s)))"
  shows "run_state (parsePodResources E js) s =
     (Ok \<lparr>res_limits = Some (l s), res_requests = Some (r s)\<rparr>,
      s\<lparr>cr_limits := map_option (\<lambda>_. l s) (cr_limits s), cr_requests := map_option (\<lambda>_. r s) (cr_requests s)\<rparr>)"
proof -
  have ok: "js_MountPodCpuLimit js = '''' \<or> x_quantity E (js_MountPodCpuLimit js) \<noteq> None"
    "js_MountPodMemLimit js = '''' \<or> x_quantity E (js_MountPodMemLimit js) \<noteq> None"
    "js_MountPodCpuRequest js = '''' \<or> x_quantity E (js_MountPodCpuRequest js) \<noteq> None"
    "js_MountPodMemRequest js = '''' \<or> x_quantity E (js_MountPodMemRequest js) \<noteq> None"
    using assms(1) by (auto simp: bad_quantity_def)
  show ?thesis
    by (cases "cr_limits s"; cases "cr_requests s")
      (simp_all add: parsePodResources_def bindO_def Let_def l_def r_def put_limit_run [OF ok(1)] put_limit_run [OF ok(2)]
        put_request_run [OF ok(3)] put_request_run [OF ok(4)])
qed

lemma parsePodResources_panics: "is_panic (fst (run_state (parsePodResources E js) s)) \<longleftrightarrow> bad_quantity E js"
proof (cases "bad_quantity E js")
  case True
  then show ?thesis
    by (auto simp: parsePodResources_def put_limit_def put_request_def bindO_def bad_quantity_def Let_def split: option.splits)
next
  case False
  then show ?thesis by (simp add: parsePodResources_run)
qed

section \<open>Properties\<close>

text \<open>
  C30: the mount path and volume that \<^verbatim>\<open>GetMountPathOfPod\<close> reads from a mount pod are those the pod was
  built with, for both editions and any mount options.
\<close>

theorem mount_path_roundtrip:
  assumes "finalizers_documented E" "run_state (NewMountPod E C js podName) s = (Ok p, s')"
    and "js_MountPath js = PodMountBase @ ''/'' @ vol" "plain_name vol"
    and "\<not> js_IsCe js \<Longrightarrow> no_space (js_Source js) \<and> js_Source js \<noteq> ''''"
  shows "GetMountPathOfPod p = Inr (js_MountPath js, vol)"
proof -
  obtain cmd c where "getCommand js = Ok cmd" "ps_containers (p_spec p) = [c]" "c_command c = [''sh'', ''-c'', cmd]"
    using wp_run [OF assms(2) NewMountPod_command [OF assms(1)]] by auto
  with getCommand_ParseMntPath [OF _ assms(3-5)] show ?thesis by (simp add: GetMountPathOfPod_def)
qed

theorem mount_path_roundtrip_witness:
  "\<exists>p. fst (run_state (NewMountPod (sim_env []) sim_config (sim_setting\<lparr>js_IsCe := True, js_MountPath := ''/jfs/pvc''\<rparr>) ''n'') sim_state) = Ok p \<and>
     GetMountPathOfPod p = Inr (''/jfs/pvc'', ''pvc'')"
proof -
  let ?js = "sim_setting\<lparr>js_IsCe := True, js_MountPath := ''/jfs/pvc''\<rparr>"
  have cmd: "StripPasswd '''' = Ok ''''" by (simp add: StripPasswd_def Index_def)
  obtain p s' where run: "run_state (NewMountPod (sim_env []) sim_config ?js ''n'') sim_state = (Ok p, s')"
    by (simp add: NewMountPod_def bindO_def parsePodResources_def put_limit_def put_request_def getCommand_def
        sim_setting_def zero_setting_def sim_env_def sim_state_def generateJuicePod_def os_defs Let_def split_beta cmd)
  have "GetMountPathOfPod p = Inr (js_MountPath ?js, ''pvc'')"
    by (rule mount_path_roundtrip [OF sim_finalizers run])
      (simp_all add: PodMountBase_def plain_name_def ascii_space_def)
  with run show ?thesis by simp
qed

text \<open>
  \<^verbatim>\<open>NewSecret\<close> holds exactly the non-empty credentials of the setting under their names, with the setting's
  environment variables taking precedence.
\<close>

theorem NewSecret_exact:
  assumes "wf_map (js_Envs js)"
  shows "map_of (sec_stringData (NewSecret C js)) k =
     (case map_of (js_Envs js) k of
        Some v \<Rightarrow> Some v
      | None \<Rightarrow> if mindex (credentials js) k \<noteq> '''' then Some (mindex (credentials js) k) else None)"
proof -
  have wf: "wf_map (credentials js)" by (simp add: credentials_def)
  have "sec_stringData (NewSecret C js) = mputs (js_Envs js) (fold (\<lambda>(k, v). put_nonempty k v) (credentials js) [])"
    by (simp add: NewSecret_def credentials_def)
  then show ?thesis by (simp only: map_of_mputs [OF assms] put_nonempties [OF wf] map_of.simps)
qed

theorem NewSecret_exact_witness:
  "map_of (sec_stringData (NewSecret sim_config (sim_setting\<lparr>js_Token := ''t'', js_Envs := [(''A'', ''1'')]\<rparr>))) ''token'' = Some ''t''"
  by (subst NewSecret_exact) (simp_all add: credentials_def mindex_def sim_setting_def zero_setting_def)

text \<open>
  C39: \<^verbatim>\<open>parsePodResources\<close> panics exactly when a resource of the volume is set and malformed; otherwise each resource
  is the volume's own where it is set and the driver container's elsewhere, and the driver container's maps, where they
  exist, are overwritten with the result.
\<close>

theorem parsePodResources_exact:
  "(is_panic (fst (run_state (parsePodResources E js) s)) \<longleftrightarrow> bad_quantity E js) \<and>
   (\<not> bad_quantity E js \<longrightarrow> run_state (parsePodResources E js) s =
     (let l = override E ''memory'' (js_MountPodMemLimit js) (override E ''cpu'' (js_MountPodCpuLimit js) (entries (cr_limits s)));
          r = override E ''memory'' (js_MountPodMemRequest js) (override E ''cpu'' (js_MountPodCpuRequest js) (entries (cr_requests s)))
      in (Ok \<lparr>res_limits = Some l, res_requests = Some r\<rparr>,
          s\<lparr>cr_limits := map_option (\<lambda>_. l) (cr_limits s), cr_requests := map_option (\<lambda>_. r) (cr_requests s)\<rparr>)))"
  using parsePodResources_panics [of E js s] parsePodResources_run [of E js s] by (simp add: Let_def)

theorem parsePodResources_exact_witness:
  "fst (run_state (parsePodResources (sim_env []) (sim_setting\<lparr>js_MountPodCpuLimit := ''1''\<rparr>))
      (sim_state\<lparr>cr_limits := Some [(''cpu'', Quantity ''2''), (''memory'', Quantity ''1Gi'')]\<rparr>)) =
   Ok \<lparr>res_limits = Some [(''cpu'', Quantity ''1''), (''memory'', Quantity ''1Gi'')], res_requests = Some []\<rparr>"
proof -
  have "\<not> bad_quantity (sim_env []) (sim_setting\<lparr>js_MountPodCpuLimit := ''1''\<rparr>)"
    by (simp add: bad_quantity_def)
  from parsePodResources_exact [THEN conjunct2, rule_format, OF this] show ?thesis
    by (simp add: override_def sim_setting_def zero_setting_def sim_state_def Let_def)
qed

text \<open>
  The resources of one volume become the defaults of the next: when the driver's container has limits and requests, a volume
  that sets no resource gets those of the volume built before it.
\<close>

theorem resources_leak_to_next_volume:
  assumes "\<not> bad_quantity E js" "cr_limits s \<noteq> None" "cr_requests s \<noteq> None"
    and "js_MountPodCpuLimit js2 = ''''" "js_MountPodMemLimit js2 = ''''"
    and "js_MountPodCpuRequest js2 = ''''" "js_MountPodMemRequest js2 = ''''"
  shows "fst (run_state (parsePodResources E js2) (snd (run_state (parsePodResources E js) s))) =
     fst (run_state (parsePodResources E js) s)"
proof -
  have ok2: "\<not> bad_quantity E js2" using assms(4-7) by (simp add: bad_quantity_def)
  have none: "override E name '''' m = m" for name m by (simp add: override_def)
  show ?thesis
    using assms(2-7) by (auto simp: parsePodResources_run [OF ok2] parsePodResources_run [OF assms(1)] none)
qed

theorem resources_leak_to_next_volume_witness:
  "fst (run_state (parsePodResources (sim_env []) sim_setting)
      (snd (run_state (parsePodResources (sim_env []) (sim_setting\<lparr>js_MountPodCpuLimit := ''1''\<rparr>))
         (sim_state\<lparr>cr_limits := Some [(''cpu'', Quantity ''2'')], cr_requests := Some []\<rparr>)))) =
   fst (run_state (parsePodResources (sim_env []) (sim_setting\<lparr>js_MountPodCpuLimit := ''1''\<rparr>))
         (sim_state\<lparr>cr_limits := Some [(''cpu'', Quantity ''2'')], cr_requests := Some []\<rparr>))"
  by (rule resources_leak_to_next_volume)
    (simp_all add: bad_quantity_def sim_setting_def zero_setting_def)

end
