(* ===== verification/RefTable.thy ===== *)
theory RefTable
  imports Main
begin

text \<open>
  The contract of a table of references: what adding and removing a reference do to the set of
  references of an object, whatever the object is. Its client is a sequence of publish and
  unpublish operations; the abstract counterpart of an object is the set of its keys.
\<close>

datatype 't ref_op = Publish 't | Unpublish 't

fun op_target :: "'t ref_op \<Rightarrow> 't" where
  "op_target (Publish t) = t"
| "op_target (Unpublish t) = t"

fun spec_op :: "('t \<Rightarrow> 'k) \<Rightarrow> 't ref_op \<Rightarrow> 'k set \<Rightarrow> 'k set" where
  "spec_op key (Publish t) K = insert (key t) K"
| "spec_op key (Unpublish t) K = K - {key t}"

fun apply_op :: "('t \<Rightarrow> 'p \<Rightarrow> 'p) \<Rightarrow> ('t \<Rightarrow> 'p \<Rightarrow> 'p) \<Rightarrow> 't ref_op \<Rightarrow> 'p \<Rightarrow> 'p" where
  "apply_op add del (Publish t) p = add t p"
| "apply_op add del (Unpublish t) p = del t p"

text \<open>Whether a key is referenced after the operations: its last operation decides.\<close>

definition survives :: "('t \<Rightarrow> 'k) \<Rightarrow> 't ref_op list \<Rightarrow> 'k set \<Rightarrow> 'k \<Rightarrow> bool" where
  "survives key ops K k =
     (case find (\<lambda>x. key (op_target x) = k) (rev ops) of
        Some (Publish _) \<Rightarrow> True
      | Some (Unpublish _) \<Rightarrow> False
      | None \<Rightarrow> k \<in> K)"

lemma find_rev_SomeE:
  assumes "find P (rev xs) = Some x"
  obtains pre post where "xs = pre @ x # post" "P x" "\<forall>y \<in> set post. \<not> P y"
  using assms
proof (induction xs arbitrary: thesis rule: rev_induct)
  case (snoc y xs)
  show ?case
  proof (cases "P y")
    case True
    with snoc.prems(2) have "x = y" by simp
    with True snoc.prems(1) [of xs "[]"] show ?thesis by simp
  next
    case False
    with snoc.prems(2) have "find P (rev xs) = Some x" by simp
    then obtain pre post where "xs = pre @ x # post" "P x" "\<forall>y \<in> set post. \<not> P y"
      using snoc.IH by blast
    with False snoc.prems(1) [of pre "post @ [y]"] show ?thesis by simp
  qed
qed simp

lemma spec_run_survives: "k \<in> fold (spec_op key) ops K \<longleftrightarrow> survives key ops K k"
proof (induction ops rule: rev_induct)
  case Nil
  show ?case by (simp add: survives_def)
next
  case (snoc x ops)
  then show ?case by (cases x) (auto simp: survives_def)
qed

locale ref_table =
  fixes inv :: "'p \<Rightarrow> bool"
    and refs :: "'p \<Rightarrow> 'k set"
    and has_ref :: "'p \<Rightarrow> bool"
    and key :: "'t \<Rightarrow> 'k"
    and add :: "'t \<Rightarrow> 'p \<Rightarrow> 'p"
    and del :: "'t \<Rightarrow> 'p \<Rightarrow> 'p"
  assumes inv_add: "inv p \<Longrightarrow> inv (add t p)"
    and inv_del: "inv p \<Longrightarrow> inv (del t p)"
    and has_ref_iff: "has_ref p \<longleftrightarrow> refs p \<noteq> {}"
    and refs_add: "inv p \<Longrightarrow> refs (add t p) = insert (key t) (refs p)"
    and refs_del: "inv p \<Longrightarrow> refs (del t p) = refs p - {key t}"
begin

lemma run_inv: "inv p \<Longrightarrow> inv (fold (apply_op add del) ops p)"
proof (induction ops arbitrary: p)
  case (Cons x ops)
  then show ?case by (cases x) (auto intro: inv_add inv_del)
qed simp

lemma run_refs: "inv p \<Longrightarrow> refs (fold (apply_op add del) ops p) = fold (spec_op key) ops (refs p)"
proof (induction ops arbitrary: p)
  case (Cons x ops)
  then show ?case by (cases x) (simp_all add: inv_add inv_del refs_add refs_del)
qed simp

lemma run_has_ref:
  "inv p \<Longrightarrow> has_ref (fold (apply_op add del) ops p) \<longleftrightarrow> (\<exists>k. survives key ops (refs p) k)"
  by (auto simp: has_ref_iff run_refs spec_run_survives [symmetric])

lemma last_one_out:
  assumes "inv p" "refs p \<subseteq> key ` op_target ` set ops"
    and "\<And>pre t post. ops = pre @ Publish t # post \<Longrightarrow> Unpublish t \<in> set post"
  shows "\<not> has_ref (fold (apply_op add del) ops p)"
proof -
  have "\<not> survives key ops (refs p) k" for k
  proof
    assume s: "survives key ops (refs p) k"
    show False
    proof (cases "find (\<lambda>x. key (op_target x) = k) (rev ops)")
      case None
      then have "k \<notin> key ` op_target ` set ops" by (auto simp: find_None_iff)
      with s None assms(2) show False by (auto simp: survives_def)
    next
      case (Some x)
      with s obtain t where x: "x = Publish t"
        by (auto simp: survives_def split: ref_op.splits)
      from Some obtain pre post where ops: "ops = pre @ Publish t # post" "key t = k"
        and later: "\<forall>y \<in> set post. key (op_target y) \<noteq> k"
        by (auto simp: x elim!: find_rev_SomeE)
      from assms(3) [OF ops(1)] later ops(2) show False by force
    qed
  qed
  then show ?thesis using run_has_ref [OF assms(1)] by blast
qed

end

end
