(* ===== verification/Poll.thy ===== *)
theory Poll
  imports World
begin

text \<open>
  The contract of the driver's waiting loops: probe at most \<open>n\<close> times, leave at the first answer
  that ends the wait, pause after any other, and give up with \<open>finish\<close>. The components interpret it
  for each of their loops.
\<close>

definition events_of :: "(event \<Rightarrow> bool) \<Rightarrow> gst \<Rightarrow> nat" where
  "events_of P s = length (filter P (hist s))"

lemma emits_none_of: "emits (\<lambda>e. \<not> P e) m \<Longrightarrow> wp m (\<lambda>_ s'. events_of P s' = events_of P s) s"
proof -
  assume "emits (\<lambda>e. \<not> P e) m"
  then have "wp m (\<lambda>_ s'. \<exists>evs. hist s' = evs @ hist s \<and> (\<forall>e \<in> set evs. \<not> P e)) s" by (simp add: emits_def)
  then show ?thesis by (rule wp_mono) (auto simp: events_of_def)
qed

locale poll_loop =
  fixes loop :: "nat \<Rightarrow> 'a prog"
    and probe :: "'r prog"
    and leave :: "'r \<Rightarrow> 'a prog option"
    and pause :: "'r \<Rightarrow> unit prog"
    and finish :: "'a prog"
  assumes loop_0: "loop 0 = finish"
    and loop_Suc: "loop (Suc n) = probe \<bind> (\<lambda>r. case leave r of Some m \<Rightarrow> m | None \<Rightarrow> pause r \<bind> (\<lambda>_. loop n))"
begin

text \<open>The rule of the loop: an invariant that counts the probes left.\<close>

lemma loop_wp:
  assumes probe: "\<And>k s. I (Suc k) s \<Longrightarrow>
      wp probe (\<lambda>r s'. case leave r of Some m \<Rightarrow> wp m Q s' | None \<Rightarrow> wp (pause r) (\<lambda>_ s''. I k s'') s') s"
    and finish: "\<And>s. I 0 s \<Longrightarrow> wp finish Q s"
    and "I n s"
  shows "wp (loop n) Q s"
  using \<open>I n s\<close>
proof (induction n arbitrary: s)
  case 0
  then show ?case by (simp add: loop_0 finish)
next
  case (Suc k)
  show ?case
    unfolding loop_Suc wp_simps
  proof (rule wp_mono [OF probe [OF Suc.prems]])
    fix r s'
    assume *: "case leave r of Some m \<Rightarrow> wp m Q s' | None \<Rightarrow> wp (pause r) (\<lambda>_ s''. I k s'') s'"
    show "wp (case leave r of Some m \<Rightarrow> m | None \<Rightarrow> pause r \<bind> (\<lambda>_. loop k)) Q s'"
    proof (cases "leave r")
      case None
      with * have "wp (pause r) (\<lambda>_ s''. I k s'') s'" by simp
      then show ?thesis unfolding None by (simp add: wp_simps) (erule wp_mono, rule Suc.IH)
    qed (use * in simp)
  qed
qed

lemma loop_emits:
  assumes "emits P probe" "\<And>r m. leave r = Some m \<Longrightarrow> emits P m"
    and "\<And>r. leave r = None \<Longrightarrow> emits P (pause r)" "emits P finish"
  shows "emits P (loop n)"
proof (induction n)
  case (Suc n)
  then show ?case
    unfolding loop_Suc by (intro emits_bind assms(1) emits_option) (auto intro: assms)
qed (simp add: loop_0 assms)

text \<open>A kind of event that only the pause makes, once, is made at most \<open>n\<close> times.\<close>

lemma loop_bound:
  assumes "emits (\<lambda>e. \<not> P e) probe" "\<And>r m. leave r = Some m \<Longrightarrow> emits (\<lambda>e. \<not> P e) m"
    and pause: "\<And>r s. leave r = None \<Longrightarrow> wp (pause r) (\<lambda>_ s'. events_of P s' \<le> Suc (events_of P s)) s"
    and "emits (\<lambda>e. \<not> P e) finish"
  shows "wp (loop n) (\<lambda>_ s'. events_of P s' \<le> events_of P s + n) s"
proof (rule loop_wp [where I = "\<lambda>k s'. events_of P s' + k \<le> events_of P s + n"])
  fix k s'
  assume I: "events_of P s' + Suc k \<le> events_of P s + n"
  show "wp probe (\<lambda>r t. case leave r of
            Some m \<Rightarrow> wp m (\<lambda>_ t'. events_of P t' \<le> events_of P s + n) t
          | None \<Rightarrow> wp (pause r) (\<lambda>_ t'. events_of P t' + k \<le> events_of P s + n) t) s'"
  proof (rule wp_mono [OF emits_none_of [OF assms(1)]])
    fix r t
    assume t: "events_of P t = events_of P s'"
    show "case leave r of
            Some m \<Rightarrow> wp m (\<lambda>_ t'. events_of P t' \<le> events_of P s + n) t
          | None \<Rightarrow> wp (pause r) (\<lambda>_ t'. events_of P t' + k \<le> events_of P s + n) t"
    proof (cases "leave r")
      case None
      then show ?thesis using I t by simp (rule wp_mono [OF pause], auto)
    next
      case (Some m)
      then show ?thesis using I t by simp (rule wp_mono [OF emits_none_of [OF assms(2)]], auto)
    qed
  qed
next
  fix s'
  assume "events_of P s' + 0 \<le> events_of P s + n"
  then show "wp finish (\<lambda>_ t. events_of P t \<le> events_of P s + n) s'"
    by (intro wp_mono [OF emits_none_of [OF assms(4)]]) auto
qed simp

end

end
