(* ===== verification/PodMount.thy ===== *)
theory PodMount
  imports Builder RefTable Poll
begin

text \<open>
  pkg/juicefs/mount/pod_mount.go: mounting through a mount pod. One mount pod per volume and node
  serves every target path on that node; a target is recorded as an annotation whose key is the
  hash of the path (its reference), and the pod is deleted with its last reference.
\<close>

section \<open>References\<close>

definition GenerateNameByVolumeId :: "config \<Rightarrow> string \<Rightarrow> string" where
  "GenerateNameByVolumeId C volumeId = ''juicefs-'' @ NodeName C @ ''-'' @ volumeId"

definition HasRef :: "pod \<Rightarrow> bool" where
  "HasRef pod = list_ex (\<lambda>(k, target). k = GetReferenceKey target) (entries (p_annotations pod))"

text \<open>What \<^verbatim>\<open>AddRefOfMount\<close> and \<^verbatim>\<open>JUmount\<close> do to the annotations of the pod they have read.\<close>

definition add_ref :: "string \<Rightarrow> pod \<Rightarrow> pod" where
  "add_ref target pod =
     (if mhas (entries (p_annotations pod)) (GetReferenceKey target) then pod
      else pod\<lparr>p_annotations :=
        Some (mdel DeleteDelayAtKey (mput (GetReferenceKey target) target (entries (p_annotations pod))))\<rparr>)"

definition remove_ref :: "string \<Rightarrow> pod \<Rightarrow> pod" where
  "remove_ref target pod =
     (if \<not> mhas (entries (p_annotations pod)) (GetReferenceKey target) then pod
      else pod\<lparr>p_annotations := Some (mdel (GetReferenceKey target) (entries (p_annotations pod)))\<rparr>)"

definition AddRefOfMount :: "env \<Rightarrow> config \<Rightarrow> string \<Rightarrow> string \<Rightarrow> goerr option prog" where
  "AddRefOfMount E C target podName = (
     let key = GetReferenceKey target in
     x_retry E (do {
       r \<leftarrow> GetPod E podName (Namespace C);
       (case r of
          Inl e \<Rightarrow> State_Monad.return (Some e)
        | Inr exist \<Rightarrow>
            if p_deletionTimestamp exist \<noteq> None then
              State_Monad.return (Some (StatusError Internal ''addRefOfMount: Mount pod [%s] has been deleted.'' [podName] None))
            else if mhas (entries (p_annotations exist)) key then State_Monad.return None
            else UpdatePod E (Some (add_ref target exist)))
     }))"

section \<open>Secrets\<close>

definition createOrUpdateSecret :: "env \<Rightarrow> config \<Rightarrow> secret \<Rightarrow> goerr option prog" where
  "createOrUpdateSecret E C sec =
     x_retry E (do {
       r \<leftarrow> GetSecret E (sec_name sec) (Namespace C);
       (case r of
          Inl e \<Rightarrow>
            if IsNotFound e then do {
              (_, err) \<leftarrow> CreateSecret E (Some sec);
              State_Monad.return err
            }
            else State_Monad.return (Some e)
        | Inr oldSecret \<Rightarrow> UpdateSecret E (Some (oldSecret\<lparr>sec_stringData := sec_stringData sec\<rparr>)))
     })"

section \<open>Creating the pod or adding a reference\<close>

text \<open>The pod exists: write the secret and add the reference.\<close>

definition add_to_pod :: "env \<Rightarrow> config \<Rightarrow> jfs_setting \<Rightarrow> string \<Rightarrow> secret \<Rightarrow> pod \<Rightarrow> unit outcome prog" where
  "add_to_pod E C js podName sec oldPod = do {
     err \<leftarrow> createOrUpdateSecret E C (SetPodAsOwner sec oldPod);
     (case err of
        Some e \<Rightarrow> State_Monad.return (Err e)
      | None \<Rightarrow> do {
          err2 \<leftarrow> AddRefOfMount E C (js_TargetPath js) podName;
          State_Monad.return (of_err err2)
        })
   }"

text \<open>The pod does not exist: create it with the reference, then the secret it owns.\<close>

definition create_pod :: "env \<Rightarrow> config \<Rightarrow> jfs_setting \<Rightarrow> string \<Rightarrow> secret \<Rightarrow> unit outcome prog" where
  "create_pod E C js podName sec =
     bindO (NewMountPod E C js podName) (\<lambda>newPod. do {
       let newPod' = newPod\<lparr>p_annotations :=
             Some (mput (GetReferenceKey (js_TargetPath js)) (js_TargetPath js) (entries (p_annotations newPod)))\<rparr>;
       (po, err) \<leftarrow> CreatePod E (Some newPod');
       (case po of
          None \<Rightarrow> State_Monad.return (Panic ''invalid memory address or nil pointer dereference'')
        | Some pod \<Rightarrow> do {
            err2 \<leftarrow> createOrUpdateSecret E C (SetPodAsOwner sec pod);
            (case err2 of
               Some e2 \<Rightarrow> State_Monad.return (Err e2)
             | None \<Rightarrow> State_Monad.return (of_err err))
          })
     })"

fun createOrAddRef_loop ::
  "nat \<Rightarrow> env \<Rightarrow> config \<Rightarrow> jfs_setting \<Rightarrow> string \<Rightarrow> secret \<Rightarrow> unit outcome prog" where
  "createOrAddRef_loop 0 E C js podName sec =
     State_Monad.return (Err (StatusError Internal
       ''Mount %v failed: mount pod %s has been deleting for 1 min'' [js_VolumeId js, podName] None))"
| "createOrAddRef_loop (Suc n) E C js podName sec = do {
     r \<leftarrow> GetPod E podName (Namespace C);
     (case r of
        Inr oldPod \<Rightarrow>
          if p_deletionTimestamp oldPod \<noteq> None then do {
            Sleep 500000000;
            createOrAddRef_loop n E C js podName sec
          }
          else add_to_pod E C js podName sec oldPod
      | Inl e \<Rightarrow>
          if IsNotFound e then create_pod E C js podName sec
          else State_Monad.return (Err e))
   }"

definition createOrAddRef :: "env \<Rightarrow> config \<Rightarrow> jfs_setting \<Rightarrow> unit outcome prog" where
  "createOrAddRef E C js = (
     let podName = GenerateNameByVolumeId C (js_VolumeId js);
         js' = js\<lparr>js_SecretName := podName @ ''-secret''\<rparr>
     in with_lock (GetPodLock podName)
          (createOrAddRef_loop 120 E C js' podName (NewSecret C js')))"

section \<open>Waiting for the pod\<close>

text \<open>The first status for which \<^verbatim>\<open>bad\<close> holds, init containers first, and its container's log.\<close>

definition first_log ::
  "env \<Rightarrow> config \<Rightarrow> (container_status \<Rightarrow> bool) \<Rightarrow> string \<Rightarrow> (string \<times> goerr option) prog" where
  "first_log E C bad podName = do {
     r \<leftarrow> GetPod E podName (Namespace C);
     (case r of
        Inl e \<Rightarrow> State_Monad.return ('''', Some e)
      | Inr pod \<Rightarrow>
          (case find bad (st_initContainerStatuses (p_status pod) @ st_containerStatuses (p_status pod)) of
             None \<Rightarrow> State_Monad.return ('''', None)
           | Some cn \<Rightarrow> do {
               l \<leftarrow> GetPodLog E (p_name pod) (p_namespace pod) (cs_name cn);
               State_Monad.return (case l of Inl e \<Rightarrow> ('''', Some e) | Inr log \<Rightarrow> (log, None))
             }))
   }"

definition getErrContainerLog :: "env \<Rightarrow> config \<Rightarrow> string \<Rightarrow> (string \<times> goerr option) prog" where
  "getErrContainerLog E C podName = first_log E C (\<lambda>cn. \<not> cs_ready cn) podName"

definition getNotCompleteCnLog :: "env \<Rightarrow> config \<Rightarrow> string \<Rightarrow> (string \<times> goerr option) prog" where
  "getNotCompleteCnLog E C podName =
     first_log E C (\<lambda>cn. case cs_terminated cn of None \<Rightarrow> True | Some (_, reason) \<Rightarrow> reason \<noteq> ''Completed'') podName"

fun waitUtilPodReady_loop :: "nat \<Rightarrow> env \<Rightarrow> config \<Rightarrow> string \<Rightarrow> goerr option prog" where
  "waitUtilPodReady_loop 0 E C podName = do {
     (log, _) \<leftarrow> getErrContainerLog E C podName;
     State_Monad.return (Some (StatusError Internal
       ''waitUtilPodReady: mount pod %s isn't ready in 30 seconds: %v'' [podName, log] None))
   }"
| "waitUtilPodReady_loop (Suc n) E C podName = do {
     r \<leftarrow> GetPod E podName (Namespace C);
     (case r of
        Inl e \<Rightarrow> State_Monad.return (Some (StatusError Internal ''waitUtilPodReady: Get pod %v failed: %v'' [podName] (Some e)))
      | Inr pod \<Rightarrow>
          if IsPodReady pod then State_Monad.return None
          else do {
            Sleep 500000000;
            waitUtilPodReady_loop n E C podName
          })
   }"

definition waitUtilPodReady :: "env \<Rightarrow> config \<Rightarrow> string \<Rightarrow> goerr option prog" where
  "waitUtilPodReady E C podName = waitUtilPodReady_loop 60 E C podName"

definition JMount :: "env \<Rightarrow> config \<Rightarrow> jfs_setting \<Rightarrow> unit outcome prog" where
  "JMount E C js =
     bindO (createOrAddRef E C js) (\<lambda>_. do {
       err \<leftarrow> waitUtilPodReady E C (GenerateNameByVolumeId C (js_VolumeId js));
       State_Monad.return (of_err err)
     })"

section \<open>Unmounting\<close>

definition removeRef :: "env \<Rightarrow> string \<Rightarrow> pod \<Rightarrow> goerr option prog" where
  "removeRef E target pod =
     x_retry E (do {
       r \<leftarrow> GetPod E (p_name pod) (p_namespace pod);
       (case r of
          Inl e \<Rightarrow> State_Monad.return (Some e)
        | Inr po \<Rightarrow>
            if \<not> mhas (entries (p_annotations po)) (GetReferenceKey target) then State_Monad.return None
            else UpdatePod E (Some (remove_ref target po)))
     })"

definition deleteMountPod :: "env \<Rightarrow> string \<Rightarrow> string \<Rightarrow> goerr option prog" where
  "deleteMountPod E podName namespace =
     x_retry E (do {
       r \<leftarrow> GetPod E podName namespace;
       (case r of
          Inl e \<Rightarrow> State_Monad.return (if IsNotFound e then None else Some e)
        | Inr po \<Rightarrow>
            if HasRef po then State_Monad.return None
            else do {
              (shouldDelay, err, po') \<leftarrow> ShouldDelay E po;
              (case err of
                 Some e \<Rightarrow> State_Monad.return (Some e)
               | None \<Rightarrow> if \<not> shouldDelay then DeletePod E (Some po') else State_Monad.return None)
            })
     })"

text \<open>The end of \<^verbatim>\<open>JUmount\<close>: read the pod again and delete it when it has no reference left.\<close>

definition release_pod :: "env \<Rightarrow> string \<Rightarrow> string \<Rightarrow> goerr option prog" where
  "release_pod E podName namespace = do {
     r \<leftarrow> GetPod E podName namespace;
     (case r of
        Inl e \<Rightarrow> State_Monad.return (if IsNotFound e then None else Some e)
      | Inr newPod \<Rightarrow>
          if HasRef newPod then State_Monad.return None
          else deleteMountPod E podName namespace)
   }"

definition JUmount :: "env \<Rightarrow> config \<Rightarrow> string \<Rightarrow> string \<Rightarrow> goerr option prog" where
  "JUmount E C volumeId target = (
     let podName = GenerateNameByVolumeId C volumeId in
     with_lock (GetPodLock podName) (do {
       r \<leftarrow> GetPod E podName (Namespace C);
       (case r of
          Inl e \<Rightarrow> State_Monad.return (if IsNotFound e then None else Some e)
        | Inr pod \<Rightarrow> do {
            err \<leftarrow> removeRef E target pod;
            (case err of
               Some e \<Rightarrow> State_Monad.return (Some e)
             | None \<Rightarrow> release_pod E (p_name pod) (p_namespace pod))
          })
     }))"

section \<open>Volume jobs\<close>

fun waitUtilJobCompleted_loop :: "nat \<Rightarrow> env \<Rightarrow> config \<Rightarrow> string \<Rightarrow> unit outcome prog" where
  "waitUtilJobCompleted_loop 0 E C jobName = do {
     r \<leftarrow> ListPod E (Namespace C) [(''job-name'', jobName)];
     (case r of
        Inl _ \<Rightarrow> State_Monad.return (Panic ''index out of range [0] with length 0'')
      | Inr [] \<Rightarrow> State_Monad.return (Panic ''index out of range [0] with length 0'')
      | Inr (p # _) \<Rightarrow> do {
          (log, _) \<leftarrow> getNotCompleteCnLog E C (p_name p);
          State_Monad.return (Err (StatusError Internal
            ''waitUtilJobCompleted: job %s isn't completed in 30 seconds: %v'' [jobName, log] None))
        })
   }"
| "waitUtilJobCompleted_loop (Suc n) E C jobName = do {
     r \<leftarrow> GetJob E jobName (Namespace C);
     (case r of
        Inl e \<Rightarrow>
          State_Monad.return (if IsNotFound e then Ok ()
            else Err (StatusError Internal ''waitUtilJobCompleted: Get job %v failed: %v'' [jobName] (Some e)))
      | Inr job \<Rightarrow>
          if IsJobCompleted job then State_Monad.return (Ok ())
          else do {
            Sleep 500000000;
            waitUtilJobCompleted_loop n E C jobName
          })
   }"

definition waitUtilJobCompleted :: "env \<Rightarrow> config \<Rightarrow> string \<Rightarrow> unit outcome prog" where
  "waitUtilJobCompleted E C jobName = waitUtilJobCompleted_loop 60 E C jobName"

text \<open>What \<^verbatim>\<open>JCreateVolume\<close> and \<^verbatim>\<open>JDeleteVolume\<close> do with the job they built.\<close>

definition run_volume_job :: "env \<Rightarrow> config \<Rightarrow> job \<Rightarrow> jfs_setting \<Rightarrow> unit outcome prog" where
  "run_volume_job E C job js = do {
     r \<leftarrow> GetJob E (job_name job) (job_namespace job);
     (exist, err) \<leftarrow> (case r of
         Inr j \<Rightarrow> State_Monad.return (Some j, None)
       | Inl e \<Rightarrow> if IsNotFound e then CreateJob E (Some job) else State_Monad.return (None, Some e));
     (case err of
        Some e \<Rightarrow> State_Monad.return (Err e)
      | None \<Rightarrow>
          (case exist of
             None \<Rightarrow> State_Monad.return (Panic ''invalid memory address or nil pointer dereference'')
           | Some ex \<Rightarrow> do {
               err2 \<leftarrow> createOrUpdateSecret E C (SetJobAsOwner (NewSecret C js) ex);
               (case err2 of
                  Some e \<Rightarrow> State_Monad.return (Err e)
                | None \<Rightarrow> do {
                    w \<leftarrow> waitUtilJobCompleted E C (job_name job);
                    (case w of
                       Ok _ \<Rightarrow> State_Monad.return (Ok ())
                     | Panic m \<Rightarrow> State_Monad.return (Panic m)
                     | Err e \<Rightarrow> do {
                         _ \<leftarrow> DeleteJob E (job_name job) (job_namespace job);
                         State_Monad.return (Err e)
                       })
                  })
             }))
   }"

definition JCreateVolume :: "env \<Rightarrow> config \<Rightarrow> jfs_setting \<Rightarrow> unit outcome prog" where
  "JCreateVolume E C js = do {
     (job, js') \<leftarrow> NewJobForCreateVolume E C js;
     run_volume_job E C job js'
   }"

definition JDeleteVolume :: "env \<Rightarrow> config \<Rightarrow> jfs_setting \<Rightarrow> unit outcome prog" where
  "JDeleteVolume E C js = do {
     (job, js') \<leftarrow> NewJobForDeleteVolume E C js;
     run_volume_job E C job js'
   }"

section \<open>The reference table\<close>

definition ref_keys :: "pod \<Rightarrow> string set" where
  "ref_keys pod = {k. \<exists>v. (k, v) \<in> set (entries (p_annotations pod)) \<and> k = GetReferenceKey v}"

definition wf_refs :: "pod \<Rightarrow> bool" where
  "wf_refs pod \<longleftrightarrow> wf_map (entries (p_annotations pod)) \<and>
     (\<forall>(k, v) \<in> set (entries (p_annotations pod)). k \<in> range GetReferenceKey \<longrightarrow> k = GetReferenceKey v)"

lemma HasRef_iff: "HasRef pod \<longleftrightarrow> ref_keys pod \<noteq> {}"
  by (auto simp: HasRef_def ref_keys_def list_ex_iff)

lemma set_annos_add_ref:
  assumes "wf_refs p"
  shows "set (entries (p_annotations (add_ref t p))) =
    (if mhas (entries (p_annotations p)) (GetReferenceKey t) then set (entries (p_annotations p))
     else insert (GetReferenceKey t, t) {kv \<in> set (entries (p_annotations p)). fst kv \<noteq> DeleteDelayAtKey})"
  using assms by (force simp: add_ref_def wf_refs_def set_mdel set_mput mhas_iff image_iff)

lemma mhas_ref_key:
  "wf_refs p \<Longrightarrow> mhas (entries (p_annotations p)) (GetReferenceKey t) \<longleftrightarrow> GetReferenceKey t \<in> ref_keys p"
  by (force simp: mhas_iff ref_keys_def wf_refs_def image_iff split: prod.splits)

interpretation refs: ref_table wf_refs ref_keys HasRef GetReferenceKey add_ref remove_ref
proof unfold_locales
  fix p t
  assume inv: "wf_refs p"
  show "wf_refs (add_ref t p)"
    using inv by (auto simp: wf_refs_def add_ref_def set_mdel set_mput)
  show "wf_refs (remove_ref t p)"
    using inv by (auto simp: wf_refs_def remove_ref_def set_mdel)
  show "ref_keys (add_ref t p) = insert (GetReferenceKey t) (ref_keys p)"
    using mhas_ref_key [OF inv, of t] by (auto simp: ref_keys_def set_annos_add_ref [OF inv])
  show "ref_keys (remove_ref t p) = ref_keys p - {GetReferenceKey t}"
    using mhas_ref_key [OF inv, of t] by (auto simp: ref_keys_def remove_ref_def set_mdel)
next
  fix p
  show "HasRef p \<longleftrightarrow> ref_keys p \<noteq> {}" by (rule HasRef_iff)
qed

lemma ref_ops_keep_identity [simp]:
  "p_name (add_ref t p) = p_name p" "p_namespace (add_ref t p) = p_namespace p"
  "p_deletionTimestamp (add_ref t p) = p_deletionTimestamp p" "p_finalizers (add_ref t p) = p_finalizers p"
  "p_name (remove_ref t p) = p_name p" "p_namespace (remove_ref t p) = p_namespace p"
  "p_deletionTimestamp (remove_ref t p) = p_deletionTimestamp p" "p_finalizers (remove_ref t p) = p_finalizers p"
  by (simp_all add: add_ref_def remove_ref_def)

lemma AddRefOfMount_server:
  assumes "retry_documented E" "api_documented init now E"
    and "pod_at init now (hist s) (Namespace C) podName = Some p"
  shows "wp (AddRefOfMount E C target podName) (\<lambda>r s'.
           if r = None then p_deletionTimestamp p = None \<and> pod_at init now (hist s') (Namespace C) podName = Some (add_ref target p)
           else pod_at init now (hist s') (Namespace C) podName = Some p) s"
  unfolding AddRefOfMount_def Let_def
proof (rule wp_retry [where I = "\<lambda>s. pod_at init now (hist s) (Namespace C) podName = Some p"], goal_cases)
  case (3 s)
  show ?case
  proof (cases "k_pod_get E (hist s) (Namespace C) podName")
    case (Inl e)
    with 3 show ?thesis by (simp add: wp_simps client_defs)
  next
    case (Inr q)
    with 3 api_get(1) [OF assms(2) Inr, of p] have "q = p" "named (Namespace C) podName p" by simp_all
    with 3 Inr show ?thesis
      by (cases "k_pod_update E (EvPodGet (Namespace C) podName (Inr p) # hist s) (add_ref target p)")
        (auto simp: wp_simps client_defs named_def add_ref_def)
  qed
qed (use assms in simp_all)

lemma removeRef_server:
  assumes "retry_documented E" "api_documented init now E"
    and "pod_at init now (hist s) (p_namespace pod) (p_name pod) = Some p"
    and "p_deletionTimestamp p = None \<or> p_finalizers p \<noteq> []"
  shows "wp (removeRef E target pod) (\<lambda>r s'.
           pod_at init now (hist s') (p_namespace pod) (p_name pod) =
             Some (if r = None then remove_ref target p else p)) s"
  unfolding removeRef_def
proof (rule wp_retry [where I = "\<lambda>s. pod_at init now (hist s) (p_namespace pod) (p_name pod) = Some p"], goal_cases)
  case (3 s)
  show ?case
  proof (cases "k_pod_get E (hist s) (p_namespace pod) (p_name pod)")
    case (Inl e)
    with 3 show ?thesis by (simp add: wp_simps client_defs)
  next
    case (Inr q)
    with 3 api_get(1) [OF assms(2) Inr, of p] have "q = p" "named (p_namespace pod) (p_name pod) p" by simp_all
    with 3 Inr assms(4) show ?thesis
      by (cases "k_pod_update E (EvPodGet (p_namespace pod) (p_name pod) (Inr p) # hist s) (remove_ref target p)")
        (auto simp: wp_simps client_defs named_def remove_ref_def)
  qed
qed (use assms in simp_all)

section \<open>Sequences of calls against the API server\<close>

text \<open>Recording a deadline leaves everything but the deadline's annotation as it was.\<close>

definition stamped :: "string \<Rightarrow> pod \<Rightarrow> pod" where
  "stamped at pod = pod\<lparr>p_annotations := Some (mput DeleteDelayAtKey at (entries (p_annotations pod)))\<rparr>"

lemma stamped_sel [simp]:
  "p_name (stamped at p) = p_name p" "p_namespace (stamped at p) = p_namespace p"
  "p_deletionTimestamp (stamped at p) = p_deletionTimestamp p" "p_finalizers (stamped at p) = p_finalizers p"
  by (simp_all add: stamped_def)

text \<open>What the server does with a pod that is deleted.\<close>

definition after_delete :: "int \<Rightarrow> pod \<Rightarrow> pod option" where
  "after_delete now p = (if p_finalizers p = [] then None else Some (p\<lparr>p_deletionTimestamp := Some now\<rparr>))"

lemma ShouldDelay_no_delay:
  "\<not> mhas (entries (p_annotations p)) DeleteDelayTimeKey \<Longrightarrow> ShouldDelay E p = State_Monad.return (False, None, p)"
  by (simp add: ShouldDelay_def mhas_def)

lemma ShouldDelay_server:
  assumes "pod_at init now (hist s) ns n = Some p" "named ns n p" "stored p"
  shows "wp (ShouldDelay E p) (\<lambda>(delay, err, p') s'. named ns n p' \<and>
           (err \<noteq> None \<longrightarrow> pod_at init now (hist s') ns n = Some p) \<and>
           (err = None \<longrightarrow> pod_at init now (hist s') ns n = Some p') \<and>
           (p' = p \<or> delay \<and> (\<exists>at. p' = stamped at p))) s"
proof (cases "map_of (entries (p_annotations p)) DeleteDelayTimeKey")
  case None
  with assms show ?thesis by (simp add: ShouldDelay_def wp_simps)
next
  case (Some d)
  show ?thesis
  proof (cases "map_of (entries (p_annotations p)) DeleteDelayAtKey")
    case (Some at)
    with \<open>map_of _ DeleteDelayTimeKey = Some d\<close> assms show ?thesis
      by (cases "GetTime at") (simp_all add: ShouldDelay_def wp_simps)
  next
    case None
    show ?thesis
    proof (cases "ParseDuration (g_frac E) d")
      case (Inl e)
      with None Some assms show ?thesis by (simp add: ShouldDelay_def GetTimeAfterDelay_def wp_simps)
    next
      case (Inr dur)
      define h where "h = EvNow (o_now E (hist s)) # hist s"
      define t where "t = o_now E (hist s) + dur"
      define q where "q = stamped (format_time (t div 10 ^ 9 + o_tz E t)) p"
      show ?thesis
        using None Some Inr assms
        by (cases "k_pod_update E h q")
          (auto simp: ShouldDelay_def GetTimeAfterDelay_def wp_simps client_defs named_def
              h_def q_def t_def stamped_def stored_def Let_def)
    qed
  qed
qed

text \<open>The step of \<^verbatim>\<open>deleteMountPod\<close> on a pod without references: it is deleted, unless its annotations ask for a delay.\<close>

lemma delete_unless_delayed:
  assumes "pod_at init now (hist s) ns n = Some p" "named ns n p" "stored p"
  shows "wp (ShouldDelay E p \<bind> (\<lambda>(delay, err, p'). case err of
           Some e \<Rightarrow> State_Monad.return (Some e)
         | None \<Rightarrow> if \<not> delay then DeletePod E (Some p') else State_Monad.return None)) (\<lambda>r s'.
           (r \<noteq> None \<longrightarrow> pod_at init now (hist s') ns n = Some p) \<and>
           (r = None \<longrightarrow> (if \<not> mhas (entries (p_annotations p)) DeleteDelayTimeKey
                then pod_at init now (hist s') ns n = after_delete now p
              else pod_at init now (hist s') ns n \<in> {after_delete now p, Some p} \<union> {Some (stamped at p) |at. True}))) s"
proof (cases "mhas (entries (p_annotations p)) DeleteDelayTimeKey")
  case False
  with assms show ?thesis
    by (cases "k_pod_delete E (hist s) ns n") (auto simp: wp_simps client_defs ShouldDelay_no_delay named_def after_delete_def)
next
  case True
  from ShouldDelay_server [OF assms] show ?thesis
    unfolding wp_bind
  proof (rule wp_mono, clarify, goal_cases)
    case (1 delay err p' s')
    with True show ?case
      by (cases err; cases delay; cases "k_pod_delete E (hist s') ns n") (auto simp: wp_simps client_defs named_def after_delete_def)
  qed
qed

lemma deleteMountPod_server:
  assumes "retry_documented E" "api_documented init now E"
    and "pod_at init now (hist s) ns n = Some p" "p_deletionTimestamp p = None"
  shows "wp (deleteMountPod E n ns) (\<lambda>r s'.
           (r \<noteq> None \<longrightarrow> pod_at init now (hist s') ns n = Some p) \<and>
           (r = None \<longrightarrow> (if HasRef p then pod_at init now (hist s') ns n = Some p
              else if \<not> mhas (entries (p_annotations p)) DeleteDelayTimeKey
                then pod_at init now (hist s') ns n = after_delete now p
              else pod_at init now (hist s') ns n \<in> {after_delete now p, Some p} \<union> {Some (stamped at p) |at. True}))) s"
  unfolding deleteMountPod_def
proof (rule wp_retry [where I = "\<lambda>s. pod_at init now (hist s) ns n = Some p"], goal_cases)
  case (3 s)
  show ?case
  proof (cases "k_pod_get E (hist s) ns n")
    case (Inl e)
    with 3 api_get(2) [OF assms(2), of "hist s" ns n] show ?thesis
      by (cases "IsNotFound e") (auto simp: wp_simps client_defs)
  next
    case (Inr q)
    with 3 api_get(1) [OF assms(2) Inr, of p] have q: "q = p" "named ns n p" by simp_all
    let ?s = "s\<lparr>hist := EvPodGet ns n (Inr p) # hist s\<rparr>"
    have "pod_at init now (hist ?s) ns n = Some p" "stored p" using 3 assms(4) by (simp_all add: stored_def)
    note step = delete_unless_delayed [OF this(1) q(2) this(2), of E]
    show ?thesis
    proof (cases "HasRef p")
      case False
      show ?thesis
        unfolding GetPod_def wp_bind wp_call Inr q(1) sum.case using False
        by (simp only: if_False) (rule wp_mono [OF step], auto split: if_splits)
    qed (use 3 Inr q in \<open>simp add: wp_simps client_defs\<close>)
  qed
qed (use assms in simp_all)

text \<open>How the server may hold a pod after \<^verbatim>\<open>deleteMountPod\<close> returned without an error.\<close>

definition released :: "int \<Rightarrow> pod \<Rightarrow> pod option \<Rightarrow> bool" where
  "released now p q \<longleftrightarrow>
     (if HasRef p then q = Some p
      else if \<not> mhas (entries (p_annotations p)) DeleteDelayTimeKey then q = after_delete now p
      else q = after_delete now p \<or> q = Some p \<or> (\<exists>at. q = Some (stamped at p)))"

lemma released_HasRef: "HasRef p \<Longrightarrow> released now p (Some p)"
  by (simp add: released_def)

lemma deleteMountPod_released:
  assumes "retry_documented E" "api_documented init now E"
    and "pod_at init now (hist s) ns n = Some p" "p_deletionTimestamp p = None"
  shows "wp (deleteMountPod E n ns) (\<lambda>r s'. r = None \<longrightarrow> released now p (pod_at init now (hist s') ns n)) s"
  by (rule wp_mono [OF deleteMountPod_server [OF assms]]) (auto simp: released_def)

lemma release_pod_server:
  assumes "retry_documented E" "api_documented init now E"
    and "pod_at init now (hist s) ns n = Some p" "p_deletionTimestamp p = None"
  shows "wp (release_pod E n ns) (\<lambda>r s'. r = None \<longrightarrow> released now p (pod_at init now (hist s') ns n)) s"
  using assms(3) api_get(1) [OF assms(2) _ assms(3)] api_get(2) [OF assms(2), of "hist s" ns n]
    deleteMountPod_released [OF assms(1,2), of "s\<lparr>hist := EvPodGet ns n (k_pod_get E (hist s) ns n) # hist s\<rparr>" ns n p]
    assms(4)
  by (auto simp: release_pod_def client_defs wp_simps released_HasRef split: sum.splits)

lemma JUmount_server:
  assumes retry: "retry_documented E" and api: "api_documented init now E"
    and pod: "pod_at init now (hist s) (Namespace C) (GenerateNameByVolumeId C volumeId) = Some p"
    and live: "p_deletionTimestamp p = None"
  shows "wp (JUmount E C volumeId target) (\<lambda>r s'. r = None \<longrightarrow>
           released now (remove_ref target p)
             (pod_at init now (hist s') (Namespace C) (GenerateNameByVolumeId C volumeId))) s"
proof -
  let ?ns = "Namespace C" and ?n = "GenerateNameByVolumeId C volumeId"
  let ?s = "s\<lparr>hist := EvLock (GetPodLock ?n) # hist s\<rparr>"
  show ?thesis
  proof (cases "k_pod_get E (hist ?s) ?ns ?n")
    case (Inl e)
    with pod api_get(2) [OF api, of "hist ?s" ?ns ?n] show ?thesis
      by (auto simp: JUmount_def wp_simps client_defs Let_def)
  next
    case (Inr q)
    with pod api_get(1) [OF api Inr, of p] have q: "q = p" "p_namespace p = ?ns" "p_name p = ?n"
      by (simp_all add: named_def)
    have rm: "wp (removeRef E target p) (\<lambda>r s'.
          pod_at init now (hist s') ?ns ?n = Some (if r = None then remove_ref target p else p))
        (?s\<lparr>hist := EvPodGet ?ns ?n (Inr p) # hist ?s\<rparr>)"
      using removeRef_server [OF retry api, of "?s\<lparr>hist := EvPodGet ?ns ?n (Inr p) # hist ?s\<rparr>" p p target] pod live q
      by simp
    show ?thesis
      using Inr q
      apply (simp add: JUmount_def Let_def wp_simps client_defs)
      apply (rule wp_mono [OF rm [simplified]])
      subgoal for r s'
        using release_pod_server [OF retry api, of s' ?ns ?n "remove_ref target p"] live
        by (cases r) (simp_all add: wp_simps)
      done
  qed
qed

section \<open>No deletion of a referenced pod\<close>

fun last_read :: "history \<Rightarrow> pod option" where
  "last_read [] = None"
| "last_read (e # h) = (case e of EvPodGet _ _ (Inr p) \<Rightarrow> Some p | _ \<Rightarrow> last_read h)"

text \<open>Every deletion hits the pod read last, and that pod had no reference when it was read.\<close>

fun safe_deletes :: "history \<Rightarrow> bool" where
  "safe_deletes [] = True"
| "safe_deletes (e # h) = (safe_deletes h \<and>
     (case e of
        EvPodDelete ns n _ \<Rightarrow> (case last_read h of Some p \<Rightarrow> named ns n p \<and> \<not> HasRef p | None \<Rightarrow> False)
      | _ \<Rightarrow> True))"

lemma safe_deletes_keep [simp]:
  "safe_deletes (EvPodGet ns n r # h) = safe_deletes h"
  "safe_deletes (EvPodUpdate p e # h) = safe_deletes h"
  "safe_deletes (EvSleep d # h) = safe_deletes h"
  "safe_deletes (EvNow t # h) = safe_deletes h"
  "safe_deletes (EvLock i # h) = safe_deletes h"
  "safe_deletes (EvUnlock i # h) = safe_deletes h"
  by simp_all

lemma last_read_keep [simp]:
  "last_read (EvPodGet ns n (Inr p) # h) = Some p"
  "last_read (EvPodUpdate p' e # h) = last_read h"
  "last_read (EvNow t # h) = last_read h"
  by simp_all

lemma safe_deletes_delete [simp]:
  "safe_deletes (EvPodDelete ns n r # h) \<longleftrightarrow>
     safe_deletes h \<and> (case last_read h of Some p \<Rightarrow> named ns n p \<and> \<not> HasRef p | None \<Rightarrow> False)"
  by simp

declare last_read.simps(2) [simp del] safe_deletes.simps(2) [simp del]

lemma ShouldDelay_safe:
  "wp (ShouldDelay E p) (\<lambda>(delay, err, p') s'. safe_deletes (hist s') = safe_deletes (hist s) \<and>
     last_read (hist s') = last_read (hist s) \<and> p_name p' = p_name p \<and> p_namespace p' = p_namespace p) s"
  by (auto simp: ShouldDelay_def GetTimeAfterDelay_def wp_simps client_defs Let_def split: option.splits sum.splits)

lemma deleteMountPod_safe:
  assumes "retry_documented E" "safe_deletes (hist s)"
  shows "wp (deleteMountPod E n ns) (\<lambda>_ s'. safe_deletes (hist s')) s"
  unfolding deleteMountPod_def
proof (rule wp_retry [where I = "\<lambda>s. safe_deletes (hist s)"], goal_cases)
  case (3 s)
  show ?case
  proof (cases "k_pod_get E (hist s) ns n")
    case (Inl e)
    with 3 show ?thesis by (simp add: wp_simps client_defs)
  next
    case (Inr p)
    show ?thesis
    proof (cases "HasRef p")
      case True
      with 3 Inr show ?thesis by (simp add: wp_simps client_defs)
    next
      case False
      with 3 Inr show ?thesis
        apply (simp add: wp_simps client_defs)
        apply (rule wp_mono [OF ShouldDelay_safe])
        apply (auto simp: wp_simps named_def client_defs split: prod.splits option.splits)
        done
    qed
  qed
qed (use assms in simp_all)

lemma removeRef_safe:
  assumes "retry_documented E" "safe_deletes (hist s)"
  shows "wp (removeRef E target pod) (\<lambda>_ s'. safe_deletes (hist s')) s"
  unfolding removeRef_def
proof (rule wp_retry [where I = "\<lambda>s. safe_deletes (hist s)"], goal_cases)
  case (3 s)
  then show ?case
    by (cases "k_pod_get E (hist s) (p_namespace pod) (p_name pod)") (simp_all add: wp_simps client_defs)
qed (use assms in simp_all)

lemma release_pod_safe:
  assumes "retry_documented E" "safe_deletes (hist s)"
  shows "wp (release_pod E n ns) (\<lambda>_ s'. safe_deletes (hist s')) s"
  using deleteMountPod_safe [OF assms(1)] assms(2)
  by (auto simp: release_pod_def client_defs wp_simps split: sum.splits)

lemma JUmount_safe:
  assumes "retry_documented E" "safe_deletes (hist s)"
  shows "wp (JUmount E C volumeId target) (\<lambda>_ s'. safe_deletes (hist s')) s"
proof (cases "k_pod_get E (EvLock (GetPodLock (GenerateNameByVolumeId C volumeId)) # hist s) (Namespace C)
    (GenerateNameByVolumeId C volumeId)")
  case (Inl e)
  with assms(2) show ?thesis by (simp add: JUmount_def Let_def wp_simps client_defs)
next
  case (Inr p)
  then show ?thesis
    apply (simp add: JUmount_def Let_def wp_simps client_defs)
    apply (rule wp_mono [OF removeRef_safe [OF assms(1)]])
     apply (simp add: assms(2))
    subgoal for r s'
      using release_pod_safe [OF assms(1)] by (cases r) (simp_all add: wp_simps)
    done
qed

section \<open>The waiting loops\<close>

interpretation ready: poll_loop "\<lambda>n. waitUtilPodReady_loop n E C podName" "GetPod E podName (Namespace C)"
  "\<lambda>r. case r of
       Inl e \<Rightarrow> Some (State_Monad.return (Some (StatusError Internal ''waitUtilPodReady: Get pod %v failed: %v'' [podName] (Some e))))
     | Inr pod \<Rightarrow> if IsPodReady pod then Some (State_Monad.return None) else None"
  "\<lambda>_. Sleep 500000000" "waitUtilPodReady_loop 0 E C podName"
  for E C podName
  by unfold_locales (auto intro!: arg_cong2 [where f = State_Monad.bind] split: sum.splits)

interpretation job: poll_loop "\<lambda>n. waitUtilJobCompleted_loop n E C jobName" "GetJob E jobName (Namespace C)"
  "\<lambda>r. case r of
       Inl e \<Rightarrow> Some (State_Monad.return (if IsNotFound e then Ok ()
            else Err (StatusError Internal ''waitUtilJobCompleted: Get job %v failed: %v'' [jobName] (Some e))))
     | Inr job \<Rightarrow> if IsJobCompleted job then Some (State_Monad.return (Ok ())) else None"
  "\<lambda>_. Sleep 500000000" "waitUtilJobCompleted_loop 0 E C jobName"
  for E C jobName
  by unfold_locales (auto intro!: arg_cong2 [where f = State_Monad.bind] split: sum.splits)

interpretation create: poll_loop "\<lambda>n. createOrAddRef_loop n E C js podName sec" "GetPod E podName (Namespace C)"
  "\<lambda>r. case r of
       Inr oldPod \<Rightarrow> if p_deletionTimestamp oldPod \<noteq> None then None else Some (add_to_pod E C js podName sec oldPod)
     | Inl e \<Rightarrow> Some (if IsNotFound e then create_pod E C js podName sec else State_Monad.return (Err e))"
  "\<lambda>_. Sleep 500000000" "createOrAddRef_loop 0 E C js podName sec"
  for E C js podName sec
  by unfold_locales (auto intro!: arg_cong2 [where f = State_Monad.bind] split: sum.splits)

lemma waitUtilPodReady_reads: "emits (\<lambda>e. (\<exists>ns n r. e = EvPodGet ns n r) \<or> (\<exists>d. e = EvSleep d) \<or> (\<exists>ns n c r. e = EvPodLog ns n c r))
    (waitUtilPodReady_loop n E C podName)"
  by (rule ready.loop_emits) (auto simp: getErrContainerLog_def first_log_def intro!: emits_intros split: sum.splits if_splits)

text \<open>A wait that ends well ends with a read of a ready pod.\<close>

lemma waitUtilPodReady_loop_ready:
  "wp (waitUtilPodReady_loop n E C podName) (\<lambda>r s'. r = None \<longrightarrow>
     (\<exists>h p. hist s' = EvPodGet (Namespace C) podName (Inr p) # h \<and>
        k_pod_get E h (Namespace C) podName = Inr p \<and> IsPodReady p)) s"
  apply (rule ready.loop_wp [where I = "\<lambda>_ _. True"])
    apply (simp add: wp_simps client_defs split: sum.splits)
   apply (auto simp: getErrContainerLog_def first_log_def wp_simps split_beta client_defs split: sum.splits option.splits)
  done

section \<open>Mounting against the API server\<close>

text \<open>What the mount pod is called and carries, however the environment answers.\<close>

lemma NewMountPod_identity:
  assumes "finalizers_documented E"
  shows "wp (NewMountPod E C js podName) (\<lambda>r s'. \<forall>p. r = Ok p \<longrightarrow>
     p_name p = podName \<and> p_namespace p = Namespace C \<and> p_deletionTimestamp p = None \<and>
     Finalizer \<in> set (p_finalizers p) \<and>
     map_of (entries (p_labels p)) = map_of (mputs (js_MountPodLabels js) [(PodTypeKey, PodTypeValue)]) \<and>
     map_of (entries (p_annotations p)) =
       (if js_DeletedDelay js \<noteq> '''' then (map_of (mputs (js_MountPodAnnotations js) []))(DeleteDelayTimeKey \<mapsto> js_DeletedDelay js)
        else map_of (mputs (js_MountPodAnnotations js) []))) s"
  unfolding NewMountPod_def wp_bindO
  apply (rule wp_any)
  subgoal for r s'
    apply (cases r)
      apply (simp_all add: wp_simps)
    apply (cases "getCommand js")
      apply (simp_all add: wp_simps generateJuicePod_def os_defs Let_def split_beta
        add_finalizer_sel [OF assms] GeneratePodTemplate_def update_conv')
    done
  done

lemma NewMountPod_keeps: "emits keeps_pods (NewMountPod E C js podName)"
  unfolding NewMountPod_def parsePodResources_def put_limit_def put_request_def generateJuicePod_def
  by (auto simp: os_defs Let_def split_beta intro!: emits_intros split: option.splits)


lemma createOrUpdateSecret_keeps:
  "retry_documented E \<Longrightarrow> emits keeps_pods (createOrUpdateSecret E C sec)"
  unfolding createOrUpdateSecret_def by (auto simp: client_defs intro!: emits_intros split: sum.splits)

lemma create_pod_server:
  assumes "retry_documented E" "finalizers_documented E" "api_documented init now E"
  shows "wp (create_pod E C js podName sec) (\<lambda>r s'. r = Ok () \<longrightarrow>
     (\<exists>p. pod_at init now (hist s') (Namespace C) podName = Some p \<and> p_deletionTimestamp p = None \<and>
        map_of (entries (p_annotations p)) (GetReferenceKey (js_TargetPath js)) = Some (js_TargetPath js))) s"
  unfolding create_pod_def wp_bindO
proof (rule wp_mono [OF NewMountPod_identity [OF assms(2)]], goal_cases)
  case (1 r s)
  show ?case
  proof (cases r)
    case (Ok np)
    let ?p = "np\<lparr>p_annotations := Some (mput (GetReferenceKey (js_TargetPath js)) (js_TargetPath js) (entries (p_annotations np)))\<rparr>"
    show ?thesis
    proof (cases "k_pod_create E (hist s) ?p")
      case (Inl e)
      with Ok show ?thesis by (simp add: wp_simps client_defs Let_def)
    next
      case (Inr q)
      with assms(3) 1 Ok have q: "named (Namespace C) podName q" "p_deletionTimestamp q = None" "p_annotations q = p_annotations ?p"
        by (auto simp: api_documented_def api_creates_def named_def)
      have "wp (createOrUpdateSecret E C (SetPodAsOwner sec q))
          (\<lambda>_ s'. pod_at init now (hist s') = pod_at init now (EvPodCreate ?p (Inr q) # hist s))
          (s\<lparr>hist := EvPodCreate ?p (Inr q) # hist s\<rparr>)"
        using wp_keeps_pods [OF createOrUpdateSecret_keeps [OF assms(1)],
            of C "SetPodAsOwner sec q" init now "s\<lparr>hist := EvPodCreate ?p (Inr q) # hist s\<rparr>"] by simp
      with Ok Inr q show ?thesis
        apply (simp add: wp_simps client_defs Let_def)
        apply (erule wp_mono)
        apply (auto simp: wp_simps split: option.splits)
        done
    qed
  qed (auto simp: wp_simps)
qed

lemma add_to_pod_server:
  assumes "retry_documented E" "api_documented init now E"
    and "pod_at init now (hist s) (Namespace C) podName = Some p"
  shows "wp (add_to_pod E C js podName sec oldPod) (\<lambda>r s'. r = Ok () \<longrightarrow>
     p_deletionTimestamp p = None \<and>
     pod_at init now (hist s') (Namespace C) podName = Some (add_ref (js_TargetPath js) p)) s"
  unfolding add_to_pod_def wp_bind
proof (rule wp_mono [OF wp_keeps_pods [OF createOrUpdateSecret_keeps [OF assms(1)], of C "SetPodAsOwner sec oldPod" init now]], goal_cases)
  case (1 r s')
  with assms(3) have p: "pod_at init now (hist s') (Namespace C) podName = Some p" by simp
  show ?case
  proof (cases r)
    case None
    show ?thesis
      unfolding None
      by (simp add: wp_simps, rule wp_mono [OF AddRefOfMount_server [OF assms(1,2) p]])
        (auto simp: of_err_def split: option.splits)
  qed (simp add: wp_simps)
qed


text \<open>The server's pod holds a live reference to the target.\<close>

definition mounted_for :: "pod \<Rightarrow> string \<Rightarrow> bool" where
  "mounted_for p target \<longleftrightarrow> p_deletionTimestamp p = None \<and> mhas (entries (p_annotations p)) (GetReferenceKey target)"

lemma mounted_for_add_ref: "p_deletionTimestamp p = None \<Longrightarrow> mounted_for (add_ref t p) t"
  by (simp add: mounted_for_def add_ref_def mhas_def)

lemma createOrAddRef_server:
  assumes "retry_documented E" "finalizers_documented E" "api_documented init now E"
  shows "wp (createOrAddRef E C js) (\<lambda>r s'. r = Ok () \<longrightarrow>
     (\<exists>p. pod_at init now (hist s') (Namespace C) (GenerateNameByVolumeId C (js_VolumeId js)) = Some p \<and>
        mounted_for p (js_TargetPath js))) s"
  unfolding createOrAddRef_def Let_def wp_with_lock
proof (rule create.loop_wp [where I = "\<lambda>_ _. True"], goal_cases)
  case (1 k s)
  let ?n = "GenerateNameByVolumeId C (js_VolumeId js)"
  show ?case
  proof (cases "k_pod_get E (hist s) (Namespace C) ?n")
    case (Inl e)
    then show ?thesis
      by (auto simp: wp_simps client_defs mounted_for_def mhas_def intro!: wp_mono [OF create_pod_server [OF assms]])
  next
    case (Inr p)
    with api_get(4) [OF assms(3) Inr] have p: "p_deletionTimestamp p = None \<Longrightarrow> pod_at init now (EvPodGet (Namespace C) ?n (Inr p) # hist s) (Namespace C) ?n = Some p"
      by simp
    show ?thesis
      using Inr p
      by (auto simp: wp_simps client_defs mounted_for_add_ref
          intro!: wp_mono [OF add_to_pod_server [OF assms(1,3), where p = p]])
  qed
qed (simp_all add: wp_simps)

lemma wait_keeps: "emits keeps_pods (waitUtilPodReady E C podName)"
  unfolding waitUtilPodReady_def by (rule emits_mono [OF waitUtilPodReady_reads]) auto

lemma JMount_server:
  assumes "retry_documented E" "finalizers_documented E" "api_documented init now E"
  shows "wp (JMount E C js) (\<lambda>r s'. r = Ok () \<longrightarrow>
     (\<exists>p. pod_at init now (hist s') (Namespace C) (GenerateNameByVolumeId C (js_VolumeId js)) = Some p \<and>
        mounted_for p (js_TargetPath js) \<and> IsPodReady p)) s"
  unfolding JMount_def wp_bindO
proof (rule wp_mono [OF createOrAddRef_server [OF assms]], goal_cases)
  case (1 r s)
  let ?n = "GenerateNameByVolumeId C (js_VolumeId js)"
  show ?case
  proof (cases r)
    case (Ok u)
    with 1 obtain p where p: "pod_at init now (hist s) (Namespace C) ?n = Some p" "mounted_for p (js_TargetPath js)"
      by auto
    have "wp (waitUtilPodReady E C ?n) (\<lambda>r s'. pod_at init now (hist s') = pod_at init now (hist s) \<and>
        (r = None \<longrightarrow> (\<exists>h q. hist s' = EvPodGet (Namespace C) ?n (Inr q) # h \<and>
          k_pod_get E h (Namespace C) ?n = Inr q \<and> IsPodReady q))) s"
      by (rule wp_conj [OF wp_keeps_pods [OF wait_keeps]], unfold waitUtilPodReady_def, rule waitUtilPodReady_loop_ready)
    then have "wp (waitUtilPodReady E C ?n) (\<lambda>r s'. r = None \<longrightarrow>
        pod_at init now (hist s') (Namespace C) ?n = Some p \<and> IsPodReady p) s"
      by (rule wp_mono) (use p api_get(1) [OF assms(3)] in fastforce)
    then show ?thesis
      unfolding Ok outcome.case wp_bind wp_return
      by (rule wp_mono) (use p in \<open>auto simp: of_err_def split: option.splits\<close>)
  qed (auto simp: wp_simps)
qed

lemma createOrUpdateSecret_writes:
  assumes "retry_documented E"
  shows "wp (createOrUpdateSecret E C sec) (\<lambda>r s'. r = None \<longrightarrow>
     (\<exists>h. (\<exists>r. hist s' = EvSecretCreate sec (Inr r) # h) \<or>
          (\<exists>old. hist s' = EvSecretUpdate (old\<lparr>sec_stringData := sec_stringData sec\<rparr>) None # h \<and>
             (\<exists>h'. h = EvSecretGet (Namespace C) (sec_name sec) (Inr old) # h')))) s"
  unfolding createOrUpdateSecret_def
proof (rule wp_retry [where I = "\<lambda>_. True", OF assms TrueI], goal_cases)
  case (1 s)
  show ?case
    by (auto simp: wp_simps client_defs split: sum.splits option.splits)
qed

section \<open>Properties\<close>

lemmas pod_mount_defs = JMount_def createOrAddRef_def Let_def bindO_def client_defs GenerateNameByVolumeId_def
   add_to_pod_def createOrUpdateSecret_def AddRefOfMount_def waitUtilPodReady_def IsPodReady_def add_ref_def
   JUmount_def removeRef_def remove_ref_def release_pod_def deleteMountPod_def ShouldDelay_def

text \<open>
  C1: when \<^verbatim>\<open>JMount\<close> returns no error, the API server holds a mount pod of the volume on this node that
  is not being deleted, is ready, and carries the reference of the target path, whether the pod was
  created or existed before, with any number of conflicts on the way.
\<close>

theorem JMount_records_reference:
  assumes "retry_documented E" "finalizers_documented E" "api_documented init now E"
    and "run_state (JMount E C js) s = (Ok (), s')"
  shows "\<exists>p. pod_at init now (hist s') (Namespace C) (GenerateNameByVolumeId C (js_VolumeId js)) = Some p \<and>
     p_deletionTimestamp p = None \<and> IsPodReady p \<and>
     mhas (entries (p_annotations p)) (GetReferenceKey (js_TargetPath js))"
  using wp_run [OF assms(4) JMount_server [OF assms(1-3)]] by (auto simp: mounted_for_def)

theorem JMount_records_reference_witness:
  "\<exists>p. pod_at (sim_pods [sim_mount_pod]) 0
       (hist (snd (run_state (JMount (sim_env [sim_mount_pod]) sim_config sim_setting) sim_state)))
       ''kube-system'' ''juicefs-node-pvc'' = Some p \<and>
     p_deletionTimestamp p = None \<and> IsPodReady p \<and> mhas (entries (p_annotations p)) (GetReferenceKey ''/b'')"
proof -
  have "fst (run_state (JMount (sim_env [sim_mount_pod]) sim_config sim_setting) sim_state) = Ok ()"
    by (simp add: pod_mount_defs sim_run_defs eval_nat_numeral pod_at_keeps mhas_def)
  then have "run_state (JMount (sim_env [sim_mount_pod]) sim_config sim_setting) sim_state =
      (Ok (), snd (run_state (JMount (sim_env [sim_mount_pod]) sim_config sim_setting) sim_state))"
    by (simp add: prod_eq_iff)
  from JMount_records_reference [OF sim_retry sim_finalizers sim_api this] show ?thesis
    by (simp add: sim_config_def sim_setting_def GenerateNameByVolumeId_def)
qed

text \<open>
  C2: \<^verbatim>\<open>JUmount\<close> without an error removes the target's reference and nothing else. A pod that still
  has a reference stays as it is. One without references and without a configured delay is deleted. With
  a delay it is deleted, kept, or kept with its deadline recorded.
\<close>

theorem JUmount_releases_pod:
  assumes "retry_documented E" "api_documented init now E"
    and "pod_at init now (hist s) (Namespace C) (GenerateNameByVolumeId C volumeId) = Some p"
    and "p_deletionTimestamp p = None"
    and "run_state (JUmount E C volumeId target) s = (None, s')"
  defines "q \<equiv> remove_ref target p"
    and "after \<equiv> pod_at init now (hist s') (Namespace C) (GenerateNameByVolumeId C volumeId)"
  shows "if HasRef q then after = Some q
     else if \<not> mhas (entries (p_annotations q)) DeleteDelayTimeKey then after = after_delete now q
     else after = after_delete now q \<or> after = Some q \<or> (\<exists>at. after = Some (stamped at q))"
  using wp_run [OF assms(5) JUmount_server [OF assms(1-4)]] by (simp add: released_def q_def after_def)

theorem JUmount_releases_pod_witness:
  "pod_at (sim_pods [sim_mount_pod\<lparr>p_annotations := Some [(GetReferenceKey ''/b'', ''/b'')]\<rparr>]) 0
     (hist (snd (run_state (JUmount (sim_env [sim_mount_pod\<lparr>p_annotations := Some [(GetReferenceKey ''/b'', ''/b'')]\<rparr>])
        sim_config ''pvc'' ''/b'') sim_state))) ''kube-system'' ''juicefs-node-pvc'' =
   Some (sim_mount_pod\<lparr>p_annotations := Some [], p_deletionTimestamp := Some 0\<rparr>)"
proof -
  let ?p = "sim_mount_pod\<lparr>p_annotations := Some [(GetReferenceKey ''/b'', ''/b'')]\<rparr>"
  let ?m = "JUmount (sim_env [?p]) sim_config ''pvc'' ''/b''"
  have q: "remove_ref ''/b'' ?p = sim_mount_pod\<lparr>p_annotations := Some []\<rparr>"
    by (simp add: remove_ref_def mhas_def sim_mount_pod_def)
  have "fst (run_state ?m sim_state) = None"
    by (simp add: pod_mount_defs sim_run_defs pod_at_keeps mhas_def HasRef_def)
  then have run: "run_state ?m sim_state = (None, snd (run_state ?m sim_state))" by (simp add: prod_eq_iff)
  have pod: "pod_at (sim_pods [?p]) 0 (hist sim_state) (Namespace sim_config)
      (GenerateNameByVolumeId sim_config ''pvc'') = Some ?p"
    by (simp add: sim_run_defs GenerateNameByVolumeId_def)
  have live: "p_deletionTimestamp ?p = None" by (simp add: sim_mount_pod_def)
  have names: "Namespace sim_config = ''kube-system''" "GenerateNameByVolumeId sim_config ''pvc'' = ''juicefs-node-pvc''"
    by (simp_all add: sim_config_def GenerateNameByVolumeId_def)
  have fin: "p_finalizers sim_mount_pod \<noteq> []" by (simp add: sim_mount_pod_def)
  from JUmount_releases_pod [OF sim_retry sim_api pod live run, unfolded q names] fin show ?thesis
    by (simp add: after_delete_def mhas_def HasRef_def)
qed

text \<open>
  C3: whatever the API server answers and whoever else writes, every deletion that \<^verbatim>\<open>JUmount\<close> sends
  is for the pod it read last, and that pod carried no reference in that read.
\<close>

theorem JUmount_deletes_unreferenced_only:
  assumes "retry_documented E" "safe_deletes (hist s)"
  shows "safe_deletes (hist (snd (run_state (JUmount E C volumeId target) s)))"
  using JUmount_safe [OF assms, of C volumeId target] by (simp add: wp_def split_beta)

theorem JUmount_deletes_unreferenced_only_witness:
  "safe_deletes (hist (snd (run_state (JUmount (sim_env [sim_mount_pod]) sim_config ''pvc'' ''/b'') sim_state)))"
  by (rule JUmount_deletes_unreferenced_only) (simp_all add: sim_state_def)

text \<open>
  C12: on a pod whose annotations are well formed, any sequence of added and removed references has
  the effect of the same sequence on the set of reference keys, and \<^verbatim>\<open>HasRef\<close> answers whether some
  key's last operation added it (or no operation named it and it was there before).
\<close>

theorem references_refine_key_set:
  assumes "wf_refs p"
  shows "ref_keys (fold (apply_op add_ref remove_ref) ops p) = fold (spec_op GetReferenceKey) ops (ref_keys p) \<and>
    (HasRef (fold (apply_op add_ref remove_ref) ops p) \<longleftrightarrow> (\<exists>k. survives GetReferenceKey ops (ref_keys p) k))"
  using refs.run_refs [OF assms] refs.run_has_ref [OF assms] by blast

theorem references_refine_key_set_witness:
  "HasRef (fold (apply_op add_ref remove_ref) [Publish ''/a'', Publish ''/b'', Unpublish ''/b'', Publish ''/b''] sim_mount_pod)"
proof -
  have "wf_refs sim_mount_pod" by (simp add: wf_refs_def sim_mount_pod_def)
  moreover have "survives GetReferenceKey [Publish ''/a'', Publish ''/b'', Unpublish ''/b'', Publish ''/b'']
      (ref_keys sim_mount_pod) (GetReferenceKey ''/b'')"
    by (simp add: survives_def)
  ultimately show ?thesis using references_refine_key_set by blast
qed

text \<open>
  When every reference of the pod is named by the operations and every added one is removed later, no
  reference is left: the last unpublish leaves a pod that may be deleted.
\<close>

theorem last_unpublish_leaves_no_reference:
  assumes "wf_refs p" "ref_keys p \<subseteq> GetReferenceKey ` op_target ` set ops"
    and "\<And>pre t post. ops = pre @ Publish t # post \<Longrightarrow> Unpublish t \<in> set post"
  shows "\<not> HasRef (fold (apply_op add_ref remove_ref) ops p)"
  using refs.last_one_out [OF assms] .

theorem last_unpublish_leaves_no_reference_witness:
  "\<not> HasRef (fold (apply_op add_ref remove_ref) [Publish ''/a'', Publish ''/b'', Unpublish ''/a'', Unpublish ''/b''] sim_mount_pod)"
proof (rule last_unpublish_leaves_no_reference)
  show "wf_refs sim_mount_pod" by (simp add: wf_refs_def sim_mount_pod_def)
  show "ref_keys sim_mount_pod \<subseteq> GetReferenceKey ` op_target ` set [Publish ''/a'', Publish ''/b'', Unpublish ''/a'', Unpublish ''/b'']"
    by (simp add: ref_keys_def sim_mount_pod_def)
qed (auto simp: Cons_eq_append_conv)

text \<open>
  Once the mount pod is built, creating it panics exactly when the API server refuses it: the error
  is logged and the missing pod is dereferenced for the secret's owner.
\<close>

theorem create_pod_panics_iff_refused:
  assumes "run_state (NewMountPod E C js podName) s = (Ok newPod, s1)"
  shows "is_panic (fst (run_state (create_pod E C js podName sec) s)) \<longleftrightarrow>
     (\<exists>e. k_pod_create E (hist s1) (newPod\<lparr>p_annotations :=
        Some (mput (GetReferenceKey (js_TargetPath js)) (js_TargetPath js) (entries (p_annotations newPod)))\<rparr>) = Inl e)"
    (is "_ \<longleftrightarrow> (\<exists>e. ?create = Inl e)")
proof (cases ?create)
  case (Inl e)
  with assms show ?thesis by (simp add: create_pod_def bindO_def client_defs Let_def)
next
  case (Inr q)
  with assms show ?thesis by (simp add: create_pod_def bindO_def client_defs Let_def split_beta split: option.splits)
qed

theorem create_pod_panics_iff_refused_witness:
  "is_panic (fst (run_state (create_pod ((sim_env [])\<lparr>k_pod_create := \<lambda>h p. Inl (ApiError Conflict)\<rparr>)
      sim_config sim_setting ''juicefs-node-pvc'' (NewSecret sim_config sim_setting)) sim_state))"
proof -
  let ?E = "(sim_env [])\<lparr>k_pod_create := \<lambda>h p. Inl (ApiError Conflict)\<rparr>"
  obtain np s1 where "run_state (NewMountPod ?E sim_config sim_setting ''juicefs-node-pvc'') sim_state = (Ok np, s1)"
    by (simp add: NewMountPod_def bindO_def parsePodResources_def put_limit_def put_request_def getCommand_def
        sim_setting_def zero_setting_def sim_env_def sim_state_def generateJuicePod_def os_defs Let_def split_beta)
  from create_pod_panics_iff_refused [OF this] show ?thesis by simp
qed

text \<open>
  \<^verbatim>\<open>waitUtilPodReady\<close> pauses at most 60 times, and when it returns no error the last thing it did
  was to read a pod whose two readiness conditions are true.
\<close>

theorem waitUtilPodReady_bounded:
  "events_of (\<lambda>e. \<exists>d. e = EvSleep d) (snd (run_state (waitUtilPodReady E C podName) s)) \<le>
     events_of (\<lambda>e. \<exists>d. e = EvSleep d) s + 60 \<and>
   (fst (run_state (waitUtilPodReady E C podName) s) = None \<longrightarrow>
     (\<exists>h p. hist (snd (run_state (waitUtilPodReady E C podName) s)) = EvPodGet (Namespace C) podName (Inr p) # h \<and> IsPodReady p))"
proof -
  have "wp (waitUtilPodReady_loop 60 E C podName)
      (\<lambda>_ s'. events_of (\<lambda>e. \<exists>d. e = EvSleep d) s' \<le> events_of (\<lambda>e. \<exists>d. e = EvSleep d) s + 60) s"
    by (rule ready.loop_bound)
      (auto simp: getErrContainerLog_def first_log_def events_of_def wp_simps intro!: emits_intros split: sum.splits if_splits)
  then show ?thesis
    using waitUtilPodReady_loop_ready [of 60 E C podName s]
    by (auto simp: waitUtilPodReady_def wp_def split_beta)
qed

theorem waitUtilPodReady_bounded_witness:
  "\<exists>h p. hist (snd (run_state (waitUtilPodReady (sim_env [sim_mount_pod]) sim_config ''juicefs-node-pvc'') sim_state)) =
     EvPodGet ''kube-system'' ''juicefs-node-pvc'' (Inr p) # h \<and> IsPodReady p"
proof -
  have "fst (run_state (waitUtilPodReady (sim_env [sim_mount_pod]) sim_config ''juicefs-node-pvc'') sim_state) = None"
    by (simp add: pod_mount_defs sim_run_defs eval_nat_numeral)
  moreover have "Namespace sim_config = ''kube-system''" by (simp add: sim_config_def)
  ultimately show ?thesis
    using waitUtilPodReady_bounded [of "sim_env [sim_mount_pod]" sim_config "''juicefs-node-pvc''" sim_state] by metis
qed

text \<open>
  \<^verbatim>\<open>createOrUpdateSecret\<close> without an error ends with a successful write of the secret's data, by a
  creation or by an update of the secret it read just before.
\<close>

theorem createOrUpdateSecret_writes_data:
  assumes "retry_documented E" "run_state (createOrUpdateSecret E C sec) s = (None, s')"
  shows "(\<exists>r h. hist s' = EvSecretCreate sec (Inr r) # h) \<or>
     (\<exists>old h. hist s' = EvSecretUpdate (old\<lparr>sec_stringData := sec_stringData sec\<rparr>) None #
        EvSecretGet (Namespace C) (sec_name sec) (Inr old) # h)"
  using wp_run [OF assms(2) createOrUpdateSecret_writes [OF assms(1)]] by blast

theorem createOrUpdateSecret_writes_data_witness:
  "\<exists>r h. hist (snd (run_state (createOrUpdateSecret (sim_env []) sim_config (NewSecret sim_config sim_setting)) sim_state)) =
     EvSecretCreate (NewSecret sim_config sim_setting) (Inr r) # h"
proof -
  let ?m = "createOrUpdateSecret (sim_env []) sim_config (NewSecret sim_config sim_setting)"
  have "run_state ?m sim_state = (None, snd (run_state ?m sim_state))"
    and no: "\<And>p h. hist (snd (run_state ?m sim_state)) \<noteq> EvSecretUpdate p None # h"
    by (simp_all add: createOrUpdateSecret_def client_defs sim_env_def)
  from createOrUpdateSecret_writes_data [OF sim_retry this(1)] no show ?thesis by metis
qed

text \<open>A read of a job that is not complete yet.\<close>

fun unfinished_read :: "string \<Rightarrow> string \<Rightarrow> event \<Rightarrow> bool" where
  "unfinished_read ns jobName (EvJobGet ns' n (Inr j)) \<longleftrightarrow> ns' = ns \<and> n = jobName \<and> \<not> IsJobCompleted j"
| "unfinished_read ns jobName _ \<longleftrightarrow> False"

lemma job_poll_unfinished:
  "wp (waitUtilJobCompleted_loop n E C jobName) (\<lambda>r s'. is_panic r \<longrightarrow>
     (\<exists>h l. hist s' = EvPodList (Namespace C) [(''job-name'', jobName)] l # h \<and> (\<forall>p ps. l \<noteq> Inr (p # ps)) \<and>
        events_of (unfinished_read (Namespace C) jobName) s' = events_of (unfinished_read (Namespace C) jobName) s + n)) s"
proof (rule job.loop_wp [where I = "\<lambda>k t. events_of (unfinished_read (Namespace C) jobName) t + k =
      events_of (unfinished_read (Namespace C) jobName) s + n"], goal_cases)
  case (1 k t)
  then show ?case by (auto simp: wp_simps client_defs events_of_def split: sum.splits)
next
  case (2 t)
  then show ?case
    by (auto simp: wp_simps client_defs events_of_def getNotCompleteCnLog_def first_log_def split_beta
        split: sum.splits list.splits option.splits)
qed simp

text \<open>
  The wait for a volume job panics only after 60 reads of an unfinished job, and then because the
  list of the job's pods, its last call, failed or was empty and is indexed all the same.
\<close>

theorem waitUtilJobCompleted_panics_after_timeout:
  assumes "run_state (waitUtilJobCompleted E C jobName) s = (Panic m, s')"
  shows "events_of (unfinished_read (Namespace C) jobName) s' = events_of (unfinished_read (Namespace C) jobName) s + 60 \<and>
    (\<exists>h l. hist s' = EvPodList (Namespace C) [(''job-name'', jobName)] l # h \<and> (\<forall>p ps. l \<noteq> Inr (p # ps)))"
  using wp_run [OF assms [unfolded waitUtilJobCompleted_def] job_poll_unfinished] by auto

theorem waitUtilJobCompleted_panics_after_timeout_witness:
  "\<exists>h. hist (snd (run_state (waitUtilJobCompleted ((sim_env [])\<lparr>k_job_get := \<lambda>h ns n. Inr
       \<lparr>job_name = n, job_namespace = ns, job_uid = '''', job_podSpec = zero_spec, job_ttlSecondsAfterFinished = 1,
        job_conditions = []\<rparr>\<rparr>) sim_config ''juicefs-pvc-createvol'') sim_state)) =
     EvPodList ''kube-system'' [(''job-name'', ''juicefs-pvc-createvol'')] (Inr []) # h"
proof -
  let ?j = "\<lambda>h ns n. Inr \<lparr>job_name = n, job_namespace = ns, job_uid = '''', job_podSpec = zero_spec,
     job_ttlSecondsAfterFinished = 1, job_conditions = []\<rparr>"
  let ?E = "(sim_env [])\<lparr>k_job_get := ?j\<rparr>"
  let ?m = "waitUtilJobCompleted ?E sim_config ''juicefs-pvc-createvol''"
  have env: "k_pod_list (sim_env []) h ns m = Inr []" for h ns m by (simp add: sim_env_def)
  have loop: "\<exists>h t. run_state (waitUtilJobCompleted_loop n ?E sim_config ''juicefs-pvc-createvol'') s =
      (Panic ''index out of range [0] with length 0'', t) \<and>
      hist t = EvPodList (Namespace sim_config) [(''job-name'', ''juicefs-pvc-createvol'')] (Inr []) # h" for n s
  proof (induction n arbitrary: s)
    case 0
    show ?case by (simp add: client_defs env)
  next
    case (Suc n)
    then show ?case by (simp add: client_defs env IsJobCompleted_def)
  qed
  then obtain h t where run: "run_state ?m sim_state = (Panic ''index out of range [0] with length 0'', t)"
    "hist t = EvPodList (Namespace sim_config) [(''job-name'', ''juicefs-pvc-createvol'')] (Inr []) # h"
    unfolding waitUtilJobCompleted_def by blast
  have "Namespace sim_config = ''kube-system''" by (simp add: sim_config_def)
  with waitUtilJobCompleted_panics_after_timeout [OF run(1)] run show ?thesis by simp
qed

end
