(* ===== verification/GoPath.thy ===== *)
theory GoPath
  imports GoStrings
begin

text \<open>
  Go's \<^verbatim>\<open>path/filepath\<close> on Unix: \<^verbatim>\<open>Clean\<close>, \<^verbatim>\<open>Join\<close>, \<^verbatim>\<open>Base\<close>, \<^verbatim>\<open>Dir\<close> and \<^verbatim>\<open>Rel\<close>, on the components of a path.
\<close>

section \<open>Clean and Join\<close>

text \<open>The components kept so far (last first), and the next component.\<close>

definition clean_step :: "bool \<Rightarrow> string \<Rightarrow> string list \<Rightarrow> string list" where
  "clean_step rooted part stack =
     (if part = '''' \<or> part = ''.'' then stack
      else if part = ''..'' then
        (case stack of
           lastc # rest \<Rightarrow> if lastc \<noteq> ''..'' then rest else part # stack
         | [] \<Rightarrow> if rooted then [] else [part])
      else part # stack)"

definition is_rooted :: "string \<Rightarrow> bool" where
  "is_rooted p = HasPrefix p ''/''"

definition clean_comps :: "string \<Rightarrow> string list" where
  "clean_comps p = rev (fold (clean_step (is_rooted p)) (Split p ''/'') [])"

definition Clean :: "string \<Rightarrow> string" where
  "Clean p =
     (let body = Join (clean_comps p) ''/'' in
      if is_rooted p then ''/'' @ body else if body = '''' then ''.'' else body)"

definition filepath_Join :: "string list \<Rightarrow> string" where
  "filepath_Join elems =
     (case dropWhile (\<lambda>e. e = '''') elems of [] \<Rightarrow> '''' | es \<Rightarrow> Clean (Join es ''/''))"

section \<open>Base, Dir, Rel\<close>

definition Base :: "string \<Rightarrow> string" where
  "Base p =
     (if p = '''' then ''.''
      else (let q = rev (dropWhile (\<lambda>c. c = CHR ''/'') (rev p));
                b = rev (takeWhile (\<lambda>c. c \<noteq> CHR ''/'') (rev q))
            in if b = '''' then ''/'' else b))"

definition Dir :: "string \<Rightarrow> string" where
  "Dir p = Clean (rev (dropWhile (\<lambda>c. c \<noteq> CHR ''/'') (rev p)))"

fun strip_common :: "string list \<Rightarrow> string list \<Rightarrow> string list \<times> string list" where
  "strip_common (b # bs) (t # ts) = (if b = t then strip_common bs ts else (b # bs, t # ts))"
| "strip_common bs ts = (bs, ts)"

text \<open>
  \<^verbatim>\<open>filepath.Rel(base, targ)\<close>; \<open>None\<close> is its error. The components of a cleaned path are those
  between its slashes, none for \<^verbatim>\<open>/\<close> and for \<^verbatim>\<open>.\<close>.
\<close>

definition Rel :: "string \<Rightarrow> string \<Rightarrow> string option" where
  "Rel base targ =
     (if Clean base = Clean targ then Some ''.''
      else if is_rooted base \<noteq> is_rooted targ then None
      else (let (bs, ts) = strip_common (clean_comps base) (if Clean targ = ''.'' then [''.''] else clean_comps targ) in
            if bs \<noteq> [] \<and> hd bs = ''..'' then None
            else Some (Join (replicate (length bs) ''..'' @ ts) ''/'')))"

section \<open>Laws\<close>

lemma clean_step_plain [simp]:
  "part \<noteq> '''' \<Longrightarrow> part \<noteq> ''.'' \<Longrightarrow> part \<noteq> ''..'' \<Longrightarrow> clean_step rooted part stack = part # stack"
  by (simp add: clean_step_def)

lemma clean_step_empty [simp]: "clean_step rooted [] stack = stack"
  by (simp add: clean_step_def)

definition plain_comp :: "string \<Rightarrow> bool" where
  "plain_comp n \<longleftrightarrow> n \<noteq> '''' \<and> n \<noteq> ''.'' \<and> n \<noteq> ''..'' \<and> CHR ''/'' \<notin> set n"

text \<open>Joining a plain name to a one-component absolute path is concatenation.\<close>

lemma filepath_Join_abs:
  assumes "plain_comp a" "plain_comp n"
  shows "filepath_Join [''/'' @ a, n] = ''/'' @ a @ ''/'' @ n"
proof -
  have sp: "Split (''/'' @ a @ ''/'' @ n) ''/'' = [[], a, n]"
  proof -
    have "Split (a @ CHR ''/'' # n) ''/'' = [a, n]"
      using assms by (simp add: Split_char Split_char_none plain_comp_def)
    then show ?thesis using Split_char [of "CHR ''/''" "[]" "a @ CHR ''/'' # n"] by simp
  qed
  have "is_rooted (''/'' @ a @ ''/'' @ n)" by (simp add: is_rooted_def HasPrefix_def)
  then have "Clean (''/'' @ a @ ''/'' @ n) = ''/'' @ a @ ''/'' @ n"
    using assms sp by (simp add: Clean_def clean_comps_def plain_comp_def Let_def)
  then show ?thesis by (simp add: filepath_Join_def)
qed

lemma clean_step_plain_comps:
  assumes "list_all plain_comp stack" "CHR ''/'' \<notin> set w"
  shows "list_all plain_comp (clean_step True w stack)"
  using assms by (cases stack) (simp_all add: clean_step_def plain_comp_def)

lemma clean_fold_plain:
  "list_all plain_comp stack \<Longrightarrow> \<forall>w \<in> set ws. CHR ''/'' \<notin> set w \<Longrightarrow> list_all plain_comp (fold (clean_step True) ws stack)"
  by (induction ws arbitrary: stack) (simp_all add: clean_step_plain_comps)

text \<open>The components of a cleaned rooted path are plain names.\<close>

lemma clean_comps_rooted: "is_rooted p \<Longrightarrow> list_all plain_comp (clean_comps p)"
  using clean_fold_plain [of "[]" "Split p ''/''"] Split_comps [of _ p "CHR ''/''"] by (simp add: clean_comps_def)

lemma Clean_rooted:
  assumes "is_rooted p"
  shows "is_rooted (Clean p)" and "''..'' \<notin> set (Split (Clean p) ''/'')"
proof -
  show "is_rooted (Clean p)" using assms by (simp add: Clean_def is_rooted_def Let_def HasPrefix_char)
  let ?cs = "clean_comps p"
  have plain: "list_all plain_comp ?cs" by (rule clean_comps_rooted [OF assms])
  have "Split (''/'' @ Join ?cs ''/'') ''/'' = [] # Split (Join ?cs ''/'') ''/''"
    using Split_char [of "CHR ''/''" "[]" "Join ?cs ''/''"] by simp
  moreover have "''..'' \<notin> set (Split (Join ?cs ''/'') ''/'')"
  proof (cases "?cs = []")
    case True
    then show ?thesis by simp
  next
    case False
    with plain show ?thesis by (auto simp: Split_Join list_all_iff plain_comp_def)
  qed
  ultimately show "''..'' \<notin> set (Split (Clean p) ''/'')" using assms by (simp add: Clean_def Let_def)
qed

lemma filepath_Join_root: "filepath_Join [''/'', p] = Clean (''//'' @ p)"
  by (simp add: filepath_Join_def)

lemma Split_Join_append:
  "\<forall>w \<in> set ws. c \<notin> set w \<Longrightarrow> ws \<noteq> [] \<Longrightarrow> Split (Join ws [c] @ c # x) [c] = ws @ Split x [c]"
proof (induction ws)
  case (Cons w ws)
  then show ?case
    by (cases "ws = []") (simp_all add: Split_char Join_Cons)
qed simp

lemma clean_fold_forward:
  "''..'' \<notin> set ws \<Longrightarrow> fold (clean_step rooted) ws stack = rev (filter (\<lambda>w. w \<noteq> '''' \<and> w \<noteq> ''.'') ws) @ stack"
  by (induction ws arbitrary: stack) (auto simp: clean_step_def)

text \<open>Joining a path without \<^verbatim>\<open>..\<close> components to a clean absolute path appends its components.\<close>

lemma filepath_Join_inside:
  assumes "list_all plain_comp cs" "cs \<noteq> []" "''..'' \<notin> set (Split sub ''/'')"
  shows "filepath_Join [''/'' @ Join cs ''/'', sub] = ''/'' @ Join (cs @ filter (\<lambda>w. w \<noteq> '''' \<and> w \<noteq> ''.'') (Split sub ''/'')) ''/''"
proof -
  let ?p = "''/'' @ Join cs ''/'' @ ''/'' @ sub"
  have cs: "\<forall>w \<in> set cs. CHR ''/'' \<notin> set w" "\<forall>w \<in> set cs. w \<noteq> '''' \<and> w \<noteq> ''.'' \<and> w \<noteq> ''..''"
    using assms(1) by (auto simp: list_all_iff plain_comp_def)
  have "Split ?p ''/'' = [] # cs @ Split sub ''/''"
    using Split_char [of "CHR ''/''" "[]" "Join cs ''/'' @ CHR ''/'' # sub"] Split_Join_append [OF cs(1) assms(2), of sub] by simp
  moreover have "''..'' \<notin> set (cs @ Split sub ''/'')" using cs(2) assms(3) by auto
  moreover have "filter (\<lambda>w. w \<noteq> '''' \<and> w \<noteq> ''.'') cs = cs" using cs(2) by (simp add: filter_id_conv)
  moreover have "is_rooted ?p" by (simp add: is_rooted_def HasPrefix_def)
  ultimately have "Clean ?p = ''/'' @ Join (cs @ filter (\<lambda>w. w \<noteq> '''' \<and> w \<noteq> ''.'') (Split sub ''/'')) ''/''"
    by (simp add: Clean_def clean_comps_def clean_fold_forward Let_def)
  then show ?thesis by (simp add: filepath_Join_def)
qed

end
