(* ===== verification/UtilMounts.thy ===== *)
theory UtilMounts
  imports OsCalls GoPath
begin

text \<open>
  The mount-table part of pkg/util/util.go: parsing \<^verbatim>\<open>/proc/self/mountinfo\<close> and finding the other
  mount points of the device a path is mounted from. \<^verbatim>\<open>utilio.ConsistentRead\<close> is answered by the
  environment.
\<close>

record mountInfo =
  mt_id :: int
  mt_parentID :: int
  mt_majorMinor :: string
  mt_root :: string
  mt_source :: string
  mt_mountPoint :: string
  mt_optionalFields :: "string list"
  mt_fsType :: string
  mt_mountOptions :: "string list"
  mt_superOptions :: "string list"

definition startsWithBackstep :: "string \<Rightarrow> bool" where
  "startsWithBackstep rel \<longleftrightarrow> rel = ''..'' \<or> HasPrefix rel ''../''"

definition pathWithinBase :: "string \<Rightarrow> string \<Rightarrow> bool" where
  "pathWithinBase fullPath basePath =
     (case Rel basePath fullPath of None \<Rightarrow> False | Some rel \<Rightarrow> \<not> startsWithBackstep rel)"

definition parse_mountinfo_line :: "string \<Rightarrow> goerr + mountInfo" where
  "parse_mountinfo_line line =
     (let fields = Fields line in
      if length fields < 10 then
        Inl (Errorf ''wrong number of fields in (expected at least %d, got %d): %s'' [line] None)
      else
        bindE (Atoi (fields ! 0)) (\<lambda>id.
        bindE (Atoi (fields ! 1)) (\<lambda>parentID.
          let optional = takeWhile (\<lambda>f. f \<noteq> ''-'') (drop 6 fields);
              i = 6 + length optional + 1
          in if int (length fields) - int i < 3 then Inl (Errorf ''expect 3 fields in %s, got %d'' [line] None)
             else Inr \<lparr>mt_id = id, mt_parentID = parentID, mt_majorMinor = fields ! 2, mt_root = fields ! 3,
                       mt_source = fields ! (i + 1), mt_mountPoint = fields ! 4, mt_optionalFields = optional,
                       mt_fsType = fields ! i, mt_mountOptions = Split (fields ! 5) '','',
                       mt_superOptions = Split (fields ! (i + 2)) '',''\<rparr>)))"

fun parse_mountinfo_lines :: "string list \<Rightarrow> goerr + mountInfo list" where
  "parse_mountinfo_lines [] = Inr []"
| "parse_mountinfo_lines (l # ls) =
     (if l = '''' then parse_mountinfo_lines ls
      else bindE (parse_mountinfo_line l) (\<lambda>mi. bindE (parse_mountinfo_lines ls) (\<lambda>mis. Inr (mi # mis))))"

definition parseMountInfo :: "env \<Rightarrow> string \<Rightarrow> (goerr + mountInfo list) prog" where
  "parseMountInfo E filename = do {
     r \<leftarrow> ReadFile E filename;
     State_Monad.return (bindE r (\<lambda>content. parse_mountinfo_lines (Split content [CHR 0x0A])))
   }"

text \<open>The search on a parsed table: the last mount that covers the path, then every other mount of its device.\<close>

definition covers :: "string \<Rightarrow> mountInfo \<Rightarrow> bool" where
  "covers hostSource mi \<longleftrightarrow> hostSource = mt_mountPoint mi \<or> pathWithinBase hostSource (mt_mountPoint mi)"

definition search_table :: "string \<Rightarrow> mountInfo list \<Rightarrow> goerr + string list" where
  "search_table hostSource mis =
     (case find (covers hostSource) (rev mis) of
        None \<Rightarrow> Inl (Errorf ''failed to get root path and major:minor for %s'' [hostSource] None)
      | Some m \<Rightarrow>
          if filepath_Join [mt_root m, TrimPrefix hostSource (mt_mountPoint m)] = '''' \<or> mt_majorMinor m = '''' then
            Inl (Errorf ''failed to get root path and major:minor for %s'' [hostSource] None)
          else Inr (map mt_mountPoint (filter (\<lambda>mi. mt_id mi \<noteq> mt_id m \<and>
                 mt_majorMinor mi = mt_majorMinor m \<and> mt_fsType mi = mt_fsType m) mis)))"

definition searchMountPoints :: "env \<Rightarrow> string \<Rightarrow> string \<Rightarrow> (goerr + string list) prog" where
  "searchMountPoints E hostSource mountInfoPath = do {
     r \<leftarrow> parseMountInfo E mountInfoPath;
     State_Monad.return (bindE r (search_table hostSource))
   }"

definition GetMountDeviceRefs :: "env \<Rightarrow> string \<Rightarrow> bool \<Rightarrow> (goerr + string list) prog" where
  "GetMountDeviceRefs E pathname corrupted =
     (if corrupted then do {
        let pathname' = TrimSuffix pathname ''/'';
        r \<leftarrow> EvalSymlinks E (Dir pathname');
        (case r of
           Inl e \<Rightarrow> State_Monad.return (Inl e)
         | Inr realpath \<Rightarrow> searchMountPoints E (filepath_Join [realpath, Base pathname']) ''/proc/self/mountinfo'')
      }
      else do {
        r \<leftarrow> EvalSymlinks E pathname;
        (case r of
           Inl e \<Rightarrow> State_Monad.return (Inl e)
         | Inr realpath \<Rightarrow> searchMountPoints E realpath ''/proc/self/mountinfo'')
      })"

lemma emits_GetMountDeviceRefs [emits_intros]:
  "(\<And>p r. P (EvEvalSymlinks p r)) \<Longrightarrow> (\<And>p r. P (EvReadFile p r)) \<Longrightarrow> emits P (GetMountDeviceRefs E path c)"
  unfolding GetMountDeviceRefs_def searchMountPoints_def parseMountInfo_def
  by (intro emits_intros) assumption+

section \<open>Lines of the mount table\<close>

lemma Fields_last: "no_space w \<Longrightarrow> w \<noteq> [] \<Longrightarrow> Fields w = [w]"
proof -
  have "fields_acc w acc = flush (acc @ w)" if "no_space w" for w acc
    using that by (induction w arbitrary: acc) auto
  moreover assume "no_space w" "w \<noteq> []"
  ultimately show ?thesis by (simp add: Fields_def flush_def)
qed

lemma Fields_Join:
  "ws \<noteq> [] \<Longrightarrow> \<forall>w \<in> set ws. no_space w \<and> w \<noteq> [] \<Longrightarrow> Fields (Join ws '' '') = ws"
proof (induction ws)
  case (Cons w ws)
  show ?case
  proof (cases "ws = []")
    case True
    with Cons.prems show ?thesis by (simp add: Fields_last)
  next
    case False
    with Cons show ?thesis by (simp add: Join_Cons Fields_word)
  qed
qed simp

text \<open>
  A line of \<^verbatim>\<open>/proc/self/mountinfo\<close>, written as \<^verbatim>\<open>man proc\<close> describes it with any number of optional
  fields before the separator, is parsed into exactly its fields.
\<close>

theorem mountinfo_line_roundtrip:
  assumes "Atoi a = Inr i" "Atoi b = Inr p"
    and "\<forall>w \<in> set ([a, b, mm, root, mp, opts] @ optional @ [fs, src, super]). no_space w \<and> w \<noteq> ''''"
    and "''-'' \<notin> set optional"
  shows "parse_mountinfo_line (Join ([a, b, mm, root, mp, opts] @ optional @ [''-'', fs, src, super]) '' '') =
     Inr \<lparr>mt_id = i, mt_parentID = p, mt_majorMinor = mm, mt_root = root, mt_source = src, mt_mountPoint = mp,
       mt_optionalFields = optional, mt_fsType = fs, mt_mountOptions = Split opts '','', mt_superOptions = Split super '',''\<rparr>"
proof -
  let ?ws = "[a, b, mm, root, mp, opts] @ optional @ [''-'', fs, src, super]"
  have "no_space ''-''" by (simp add: ascii_space_def)
  with assms(3) have fields: "Fields (Join ?ws '' '') = ?ws" by (intro Fields_Join) auto
  have opt: "takeWhile (\<lambda>f. f \<noteq> ''-'') (optional @ ''-'' # rest) = optional" for rest
    using assms(4) by (subst takeWhile_append2) auto
  have nth: "?ws ! (6 + length optional + 1) = fs" "?ws ! (6 + length optional + 1 + 1) = src"
    "?ws ! (6 + length optional + 1 + 2) = super"
    by (simp_all add: nth_append)
  have "drop 6 ?ws = optional @ ''-'' # [fs, src, super]" by simp
  with opt have tw: "takeWhile (\<lambda>f. f \<noteq> ''-'') (drop 6 ?ws) = optional" by metis
  show ?thesis
    unfolding parse_mountinfo_line_def fields Let_def tw nth using assms(1,2) by simp
qed

lemma sim_line_ok:
  "Atoi ''36'' = Inr 36" "Atoi ''35'' = Inr 35"
  "\<forall>w \<in> set ([''36'', ''35'', ''98:0'', ''/dir'', ''/mnt'', ''rw,noatime''] @ [''master:1''] @ [''fuse.juicefs'', ''JuiceFS:test'', ''rw'']).
     no_space w \<and> w \<noteq> ''''"
  by code_simp+

theorem mountinfo_line_roundtrip_witness:
  "parse_mountinfo_line ''36 35 98:0 /dir /mnt rw,noatime master:1 - fuse.juicefs JuiceFS:test rw'' =
     Inr \<lparr>mt_id = 36, mt_parentID = 35, mt_majorMinor = ''98:0'', mt_root = ''/dir'', mt_source = ''JuiceFS:test'', mt_mountPoint = ''/mnt'',
       mt_optionalFields = [''master:1''], mt_fsType = ''fuse.juicefs'', mt_mountOptions = Split ''rw,noatime'' '','',
       mt_superOptions = Split ''rw'' '',''\<rparr>"
  using mountinfo_line_roundtrip [OF sim_line_ok] by simp

end
