(* ===== verification/ProcessMount.thy ===== *)
theory ProcessMount
  imports UtilMounts SimEnv Poll
begin

text \<open>
  pkg/juicefs/mount/process_mount.go: mounting in the driver's own process, without mount pods.
\<close>

definition pm_JCreateVolume :: "jfs_setting \<Rightarrow> unit outcome prog" where
  "pm_JCreateVolume js = State_Monad.return (Panic ''implement me'')"

definition pm_JDeleteVolume :: "jfs_setting \<Rightarrow> unit outcome prog" where
  "pm_JDeleteVolume js = State_Monad.return (Panic ''implement me'')"

definition pm_AddRefOfMount :: "string \<Rightarrow> string \<Rightarrow> unit outcome prog" where
  "pm_AddRefOfMount target podName = State_Monad.return (Panic ''implement me'')"

text \<open>The loop that waits for the mount: the root of a mounted file system is inode 1.\<close>

fun pm_wait :: "nat \<Rightarrow> env \<Rightarrow> jfs_setting \<Rightarrow> goerr option prog" where
  "pm_wait 0 E js = State_Monad.return (Some (StatusError Internal
     ''Mount %v at %v failed: mount isn't ready in 30 seconds'' [js_Source js, js_MountPath js] None))"
| "pm_wait (Suc n) E js = do {
     r \<leftarrow> Stat E (js_MountPath js);
     (case r of
        Inl e \<Rightarrow> State_Monad.return (Some (StatusError Internal ''Stat mount path %v failed: %v'' [js_MountPath js] (Some e)))
      | Inr finfo \<Rightarrow>
          if fi_ino finfo = 1 then State_Monad.return None
          else do { Sleep 1000000000; pm_wait n E js })
   }"

text \<open>\<^verbatim>\<open>PathExists\<close> and \<^verbatim>\<open>MkdirAll(0755)\<close>, then \<^verbatim>\<open>Unmount\<close> of a path that is a mount point.\<close>

definition pm_prepare :: "env \<Rightarrow> jfs_setting \<Rightarrow> goerr option prog" where
  "pm_prepare E js = do {
     (exist, pe) \<leftarrow> PathExists E (js_MountPath js);
     (case pe of
        Some e \<Rightarrow> State_Monad.return (Some (StatusError Internal ''Could not check existence of dir %q: %v'' [js_MountPath js] (Some e)))
      | None \<Rightarrow> do {
          err \<leftarrow> (if \<not> exist then MkdirAll E (js_MountPath js) 493 else State_Monad.return None);
          (case err of
             Some e \<Rightarrow> State_Monad.return (Some (StatusError Internal ''Could not create dir %q: %v'' [js_MountPath js] (Some e)))
           | None \<Rightarrow> do {
               r2 \<leftarrow> IsLikelyNotMountPoint E (js_MountPath js);
               (case r2 of
                  Inl e \<Rightarrow> State_Monad.return (Some e)
                | Inr notMounted \<Rightarrow> if \<not> notMounted then Unmount E (js_MountPath js) else State_Monad.return None)
             })
        })
   }"

definition no_check_env :: "string \<Rightarrow> string list" where
  "no_check_env storage = (if storage = ''ceph'' \<or> storage = ''gs'' then [''JFS_NO_CHECK_OBJECT_STORAGE=1''] else [])"

definition pm_JMount :: "env \<Rightarrow> jfs_setting \<Rightarrow> unit outcome prog" where
  "pm_JMount E js =
     (if \<not> Contains (js_Source js) ''://'' then do {
        err \<leftarrow> Mount E (js_Source js) (js_MountPath js) FsType (js_Options js);
        State_Monad.return (case err of
            None \<Rightarrow> Ok ()
          | Some e \<Rightarrow> Err (StatusError Internal ''Could not mount %q at %q: %v'' [js_Source js, js_MountPath js] (Some e)))
      }
      else do {
        let mountArgs = [js_Source js, js_MountPath js] @
              (if length (js_Options js) > 0 then [''-o'', Join (js_Options js) '',''] else []);
        err \<leftarrow> pm_prepare E js;
        (case err of
           Some e \<Rightarrow> State_Monad.return (Err e)
         | None \<Rightarrow> do {
             emit (EvSpawn CeMountPath mountArgs (o_environ E @ [''JFS_FOREGROUND=1''] @ no_check_env (js_Storage js)));
             err2 \<leftarrow> pm_wait 30 E js;
             State_Monad.return (of_err err2)
           })
      })"

text \<open>Whether the target is gone or no mount point (nothing to do), and else whether its mount is corrupted.\<close>

definition pm_check_target :: "env \<Rightarrow> string \<Rightarrow> (goerr + bool option) prog" where
  "pm_check_target E target = do {
     (exists, pe) \<leftarrow> PathExists E target;
     (case pe of
        None \<Rightarrow>
          if \<not> exists then State_Monad.return (Inr None)
          else do {
            r2 \<leftarrow> IsNotMountPoint E target;
            State_Monad.return (case r2 of
                Inl e \<Rightarrow> Inl (StatusError Internal ''Check target path is mountpoint failed: %q'' [] (Some e))
              | Inr notMnt \<Rightarrow> if notMnt then Inr None else Inr (Some False))
          }
      | Some err \<Rightarrow>
          State_Monad.return (if m_is_corrupted E err then Inr (Some True)
            else Inl (StatusError Internal ''Check path %s failed: %q'' [target] (Some err))))
   }"

definition pm_JUmount :: "env \<Rightarrow> string \<Rightarrow> string \<Rightarrow> goerr option prog" where
  "pm_JUmount E volumeId target = do {
     c \<leftarrow> pm_check_target E target;
     (case c of
        Inl e \<Rightarrow> State_Monad.return (Some e)
      | Inr None \<Rightarrow> State_Monad.return None
      | Inr (Some corruptedMnt) \<Rightarrow> do {
          r \<leftarrow> GetMountDeviceRefs E target corruptedMnt;
          (case r of
             Inl e \<Rightarrow> State_Monad.return (Some (StatusError Internal ''Fail to get mount device refs: %q'' [] (Some e)))
           | Inr refs \<Rightarrow> do {
               err \<leftarrow> Unmount E target;
               (case err of
                  Some e \<Rightarrow> State_Monad.return (Some (StatusError Internal ''Could not unmount %q: %v'' [target] (Some e)))
                | None \<Rightarrow>
                    (case refs of
                       [ref] \<Rightarrow> do { _ \<leftarrow> Unmount E ref; State_Monad.return None }
                     | _ \<Rightarrow> State_Monad.return None))
             })
        })
   }"

section \<open>Waiting for a mount in the process\<close>

interpretation mounted: poll_loop "\<lambda>n. pm_wait n E js" "Stat E (js_MountPath js)"
  "\<lambda>r. case r of
       Inl e \<Rightarrow> Some (State_Monad.return (Some (StatusError Internal ''Stat mount path %v failed: %v'' [js_MountPath js] (Some e))))
     | Inr finfo \<Rightarrow> if fi_ino finfo = 1 then Some (State_Monad.return None) else None"
  "\<lambda>_. Sleep 1000000000" "pm_wait 0 E js"
  for E js
  by unfold_locales (auto intro!: arg_cong2 [where f = State_Monad.bind] split: sum.splits)

lemma pm_wait_root:
  "wp (pm_wait n E js) (\<lambda>r s'. r = None \<longrightarrow>
     (\<exists>evs fi. hist s' = EvStat (js_MountPath js) (Inr fi) # evs @ hist s \<and> fi_ino fi = 1)) s"
proof (rule mounted.loop_wp [where I = "\<lambda>_ t. \<exists>evs. hist t = evs @ hist s"], goal_cases)
  case (1 k t)
  then obtain evs where t: "hist t = evs @ hist s" by blast
  have more: "\<exists>evs'. e # e' # evs @ hist s = evs' @ hist s" for e e' by (rule exI [of _ "e # e' # evs"]) simp
  show ?case using more by (auto simp: wp_simps os_defs t split: sum.splits)
qed (auto simp: wp_simps)

abbreviation is_sleep :: "event \<Rightarrow> bool" where
  "is_sleep e \<equiv> \<exists>d. e = EvSleep d"

lemma pm_wait_bound: "wp (pm_wait n E js) (\<lambda>_ s'. events_of is_sleep s' \<le> events_of is_sleep s + n) s"
  by (rule mounted.loop_bound) (auto simp: events_of_def wp_simps intro!: emits_intros split: sum.splits if_splits)

lemma pm_prepare_no_sleep: "emits (\<lambda>e. \<not> is_sleep e) (pm_prepare E js)"
  unfolding pm_prepare_def by (intro emits_intros; simp)

definition spawns_mount :: "env \<Rightarrow> jfs_setting \<Rightarrow> event" where
  "spawns_mount E js = EvSpawn CeMountPath ([js_Source js, js_MountPath js] @
      (if length (js_Options js) > 0 then [''-o'', Join (js_Options js) '',''] else []))
      (o_environ E @ [''JFS_FOREGROUND=1''] @ no_check_env (js_Storage js))"

lemma pm_JMount_ce:
  "Contains (js_Source js) ''://'' \<Longrightarrow> pm_JMount E js = do {
     err \<leftarrow> pm_prepare E js;
     (case err of
        Some e \<Rightarrow> State_Monad.return (Err e)
      | None \<Rightarrow> do { emit (spawns_mount E js); err2 \<leftarrow> pm_wait 30 E js; State_Monad.return (of_err err2) })
   }"
  by (simp only: pm_JMount_def spawns_mount_def Let_def not_True_eq_False if_False)

lemma pm_JMount_wp:
  assumes "Contains (js_Source js) ''://''"
  shows "wp (pm_JMount E js) (\<lambda>r s'. events_of is_sleep s' \<le> events_of is_sleep s + 30 \<and>
     (r = Ok () \<longrightarrow> (\<exists>evs fi. hist s' = EvStat (js_MountPath js) (Inr fi) # evs @ hist s \<and> fi_ino fi = 1 \<and> spawns_mount E js \<in> set evs))) s"
  unfolding pm_JMount_ce [OF assms] wp_bind
proof (rule wp_mono [OF wp_conj [OF emits_none_of [OF pm_prepare_no_sleep] pm_prepare_no_sleep [unfolded emits_def, rule_format]]], goal_cases)
  case (1 err t)
  then obtain evs where t: "hist t = evs @ hist s" "events_of is_sleep t = events_of is_sleep s" by blast
  show ?case
  proof (cases err)
    case None
    show ?thesis
      unfolding None option.case wp_bind wp_emit
    proof (rule wp_mono [OF wp_conj [OF pm_wait_bound pm_wait_root]], goal_cases)
      case (1 r t')
      then show ?case using t by (cases r) (auto simp: events_of_def spawns_mount_def wp_simps)
    qed
  qed (use t in \<open>simp add: wp_simps\<close>)
qed

lemma pm_JMount_ee:
  assumes "\<not> Contains (js_Source js) ''://''"
  shows "wp (pm_JMount E js) (\<lambda>r s'. \<exists>e. hist s' = EvMount (js_Source js) (js_MountPath js) FsType (js_Options js) e # hist s \<and> (r = Ok () \<longrightarrow> e = None)) s"
  using assms by (auto simp: pm_JMount_def wp_simps os_defs split: option.splits)



section \<open>Unmounting in the process\<close>

text \<open>What was unmounted, last first, when the mount's device is mounted at the other paths \<open>refs\<close>.\<close>

definition unmounted :: "string \<Rightarrow> string list \<Rightarrow> history \<Rightarrow> history \<Rightarrow> bool" where
  "unmounted target refs h h' \<longleftrightarrow>
     (case refs of
        [ref] \<Rightarrow> \<exists>r. h' = EvUnmount ref r # EvUnmount target None # h
      | _ \<Rightarrow> h' = EvUnmount target None # h)"

text \<open>What the check of the target found, newest first: that it does not exist or is no mount point, or else that it is mounted, maybe corrupted.\<close>

definition found_unmounted :: "string \<Rightarrow> history \<Rightarrow> history \<Rightarrow> bool" where
  "found_unmounted target h h' \<longleftrightarrow> h' = EvPathExists target (False, None) # h \<or>
     h' = EvIsNotMnt target (Inr True) # EvPathExists target (True, None) # h"

definition found_mounted :: "env \<Rightarrow> string \<Rightarrow> bool \<Rightarrow> history \<Rightarrow> history \<Rightarrow> bool" where
  "found_mounted E target corrupted h h' \<longleftrightarrow>
     (if corrupted then \<exists>b e. m_is_corrupted E e \<and> h' = EvPathExists target (b, Some e) # h
      else h' = EvIsNotMnt target (Inr False) # EvPathExists target (True, None) # h)"

lemma pm_check_target_found:
  "wp (pm_check_target E target) (\<lambda>c s'. case c of Inl _ \<Rightarrow> True | Inr None \<Rightarrow> found_unmounted target (hist s) (hist s')
     | Inr (Some corrupted) \<Rightarrow> found_mounted E target corrupted (hist s) (hist s')) s"
  unfolding pm_check_target_def
  by (cases "m_path_exists E (hist s) target") (auto simp: wp_simps os_defs found_unmounted_def found_mounted_def split: option.splits sum.splits)

text \<open>
  C29: a process unmount that returns no error either saw that the target does not exist or is no mount point, and did nothing; or it saw the target mounted
  (or its mount corrupted), took the target off and, exactly
  when the volume was mounted at one other place only, that place too: the mount of a volume that other targets use stays.
\<close>

theorem process_unmount_last_reference:
  assumes "run_state (pm_JUmount E volumeId target) s = (None, s')"
  shows "found_unmounted target (hist s) (hist s') \<or>
     (\<exists>corrupted t refs t'. found_mounted E target corrupted (hist s) (hist t) \<and>
        run_state (GetMountDeviceRefs E target corrupted) t = (Inr refs, t') \<and> unmounted target refs (hist t') (hist s'))"
proof -
  obtain c t where c: "run_state (pm_check_target E target) s = (c, t)" by fastforce
  note found = wp_run [OF c pm_check_target_found]
  show ?thesis
  proof (cases "c = Inr None")
    case True
    with c assms have "s' = t" by (simp add: pm_JUmount_def)
    with found True show ?thesis by simp
  next
    case False
    with c assms obtain corrupted where cor: "c = Inr (Some corrupted)" by (cases c) (auto simp: pm_JUmount_def split: option.splits)
    moreover obtain q t' where q: "run_state (GetMountDeviceRefs E target corrupted) t = (q, t')" by fastforce
    moreover obtain refs where "q = Inr refs" using assms c calculation by (cases q) (auto simp: pm_JUmount_def)
    ultimately have "unmounted target refs (hist t') (hist s')"
      using assms c by (auto simp: pm_JUmount_def os_defs unmounted_def split: option.splits list.splits)
    with q \<open>q = Inr refs\<close> found cor show ?thesis by auto
  qed
qed

definition sim_mount_table :: string where
  "sim_mount_table = ''36 35 98:0 / /t rw - fuse.juicefs J rw'' @ [CHR 0x0A] @ ''37 35 98:0 / /jfs rw - fuse.juicefs J rw'' @ [CHR 0x0A]"

lemma sim_device_refs:
  "bindE (parse_mountinfo_lines (Split sim_mount_table [CHR 0x0A])) (search_table ''/t'') = Inr [''/jfs'']"
  by code_simp

theorem process_unmount_last_reference_witness:
  "let E = (sim_env [])\<lparr>o_read_file := \<lambda>h p. Inr sim_mount_table\<rparr>;
       s' = snd (run_state (pm_JUmount E ''pvc'' ''/t'') sim_state)
   in EvUnmount ''/jfs'' None \<in> set (hist s') \<and>
     (\<exists>corrupted t refs t'. found_mounted E ''/t'' corrupted (hist sim_state) (hist t) \<and>
        run_state (GetMountDeviceRefs E ''/t'' corrupted) t = (Inr refs, t') \<and> unmounted ''/t'' refs (hist t') (hist s'))"
proof -
  let ?E = "(sim_env [])\<lparr>o_read_file := \<lambda>h p. Inr sim_mount_table\<rparr>"
  let ?m = "pm_JUmount ?E ''pvc'' ''/t''"
  have env: "m_is_not_mnt (sim_env []) h p = Inr False" "o_eval_symlinks (sim_env []) h p = Inr p" for h p
    by (simp_all add: sim_env_def)
  have "fst (run_state ?m sim_state) = None"
    and mounted: "EvUnmount ''/jfs'' None \<in> set (hist (snd (run_state ?m sim_state)))"
    using sim_device_refs
    by (simp_all add: pm_JUmount_def pm_check_target_def GetMountDeviceRefs_def searchMountPoints_def parseMountInfo_def os_defs env)
  then have run: "run_state ?m sim_state = (None, snd (run_state ?m sim_state))" by (simp add: prod_eq_iff)
  have "hist sim_state = []" by (simp add: sim_state_def)
  with process_unmount_last_reference [OF run] mounted show ?thesis unfolding Let_def by (auto simp: found_unmounted_def)
qed

end
