(* ===== verification/MntInterface.thy ===== *)
theory MntInterface
  imports PodMount ProcessMount
begin

text \<open>
  The interface of pkg/juicefs/mount/interface.go as a contract: which pod an implementation may write when it mounts or
  unmounts a volume. Mount pods and process mounts are its two interpretations; what follows from the contract, the
  isolation of volumes, is proved once.
\<close>

text \<open>The pod that the API server returns has the name that was asked for.\<close>

definition api_names :: "env \<Rightarrow> bool" where
  "api_names E \<longleftrightarrow> (\<forall>h ns n p. k_pod_get E h ns n = Inr p \<longrightarrow> named ns n p)"

lemma emits_GetPod_named:
  assumes "api_names E" "\<And>r. P (EvPodGet ns n r)" "\<And>r. (\<And>p. r = Inr p \<Longrightarrow> named ns n p) \<Longrightarrow> emits P (f r)"
  shows "emits P (State_Monad.bind (GetPod E n ns) f)"
proof (rule emits_bind_wp [where R = "\<lambda>r. \<forall>p. r = Inr p \<longrightarrow> named ns n p"])
  show "emits P (GetPod E n ns)" by (intro emits_intros assms(2))
  show "wp (GetPod E n ns) (\<lambda>r _. \<forall>p. r = Inr p \<longrightarrow> named ns n p) s" for s
    using assms(1) by (simp add: GetPod_def wp_simps api_names_def)
qed (auto intro: assms(3))

section \<open>Which pod an event may write\<close>

fun writes_pod :: "string \<Rightarrow> string \<Rightarrow> event \<Rightarrow> bool" where
  "writes_pod ns n (EvPodCreate p r) \<longleftrightarrow> named ns n p \<and> (case r of Inl _ \<Rightarrow> True | Inr q \<Rightarrow> named ns n q)"
| "writes_pod ns n (EvPodUpdate p _) \<longleftrightarrow> named ns n p"
| "writes_pod ns n (EvPodDelete ns' n' _) \<longleftrightarrow> ns' = ns \<and> n' = n"
| "writes_pod ns n (EvPodPatch _ _ _ _) \<longleftrightarrow> False"
| "writes_pod ns n (EvSecretDelete _ _ _) \<longleftrightarrow> False"
| "writes_pod ns n (EvJobUpdate _ _) \<longleftrightarrow> False"
| "writes_pod ns n _ \<longleftrightarrow> True"

lemma writes_other_pod:
  "writes_pod ns n e \<Longrightarrow> n' \<noteq> n \<Longrightarrow> pod_at init now (e # h) ns n' = pod_at init now h ns n'"
  by (cases e rule: keeps_pods.cases) (auto simp: pod_at_keeps named_def split: sum.splits)

lemma writes_other_pods:
  "\<forall>e \<in> set evs. writes_pod ns n e \<Longrightarrow> n' \<noteq> n \<Longrightarrow> pod_at init now (evs @ h) ns n' = pod_at init now h ns n'"
proof (induction evs)
  case (Cons e evs)
  then show ?case using writes_other_pod [of ns n e n' init now "evs @ h"] by simp
qed simp

lemma wp_writes_other:
  assumes "emits (writes_pod ns n) m" "n' \<noteq> n"
  shows "wp m (\<lambda>_ s'. pod_at init now (hist s') ns n' = pod_at init now (hist s) ns n') s"
proof -
  have "wp m (\<lambda>_ s'. \<exists>evs. hist s' = evs @ hist s \<and> (\<forall>e \<in> set evs. writes_pod ns n e)) s"
    using assms(1) by (simp add: emits_def)
  then show ?thesis by (rule wp_mono) (auto simp: writes_other_pods [OF _ assms(2)])
qed

section \<open>The mount interface\<close>

datatype mnt_request = MountReq jfs_setting | UmountReq string string

fun req_volume :: "mnt_request \<Rightarrow> string" where
  "req_volume (MountReq js) = js_VolumeId js"
| "req_volume (UmountReq v _) = v"

fun serve :: "(jfs_setting \<Rightarrow> unit outcome prog) \<Rightarrow> (string \<Rightarrow> string \<Rightarrow> goerr option prog) \<Rightarrow> mnt_request \<Rightarrow> unit prog" where
  "serve jmount jumount (MountReq js) = do { _ \<leftarrow> jmount js; State_Monad.return () }"
| "serve jmount jumount (UmountReq v target) = do { _ \<leftarrow> jumount v target; State_Monad.return () }"

fun serve_all :: "(jfs_setting \<Rightarrow> unit outcome prog) \<Rightarrow> (string \<Rightarrow> string \<Rightarrow> goerr option prog) \<Rightarrow> mnt_request list \<Rightarrow> unit prog" where
  "serve_all jmount jumount [] = State_Monad.return ()"
| "serve_all jmount jumount (r # rs) = do { serve jmount jumount r; serve_all jmount jumount rs }"

locale mnt_interface =
  fixes documented :: bool
    and ns :: string
    and pod_name :: "string \<Rightarrow> string"
    and jmount :: "jfs_setting \<Rightarrow> unit outcome prog"
    and jumount :: "string \<Rightarrow> string \<Rightarrow> goerr option prog"
  assumes pod_name_inj: "pod_name v = pod_name w \<Longrightarrow> v = w"
    and jmount_writes: "documented \<Longrightarrow> emits (writes_pod ns (pod_name (js_VolumeId js))) (jmount js)"
    and jumount_writes: "documented \<Longrightarrow> emits (writes_pod ns (pod_name v)) (jumount v target)"
begin

lemma serve_writes: "documented \<Longrightarrow> emits (writes_pod ns (pod_name (req_volume r))) (serve jmount jumount r)"
  by (cases r) (auto intro!: emits_intros jmount_writes jumount_writes)

text \<open>Whatever is asked for other volumes, a volume's pod stays as it is.\<close>

lemma isolation:
  assumes "documented" "\<forall>r \<in> set rs. req_volume r \<noteq> v"
  shows "wp (serve_all jmount jumount rs) (\<lambda>_ s'. pod_at init now (hist s') ns (pod_name v) = pod_at init now (hist s) ns (pod_name v)) s"
  using assms(2)
proof (induction rs arbitrary: s)
  case (Cons r rs)
  have "pod_name v \<noteq> pod_name (req_volume r)" using Cons.prems pod_name_inj by auto
  note one = wp_writes_other [OF serve_writes [OF assms(1)] this, of init now s]
  show ?case
    unfolding serve_all.simps wp_bind
  proof (rule wp_mono [OF one])
    fix s' :: gst
    assume "pod_at init now (hist s') ns (pod_name v) = pod_at init now (hist s) ns (pod_name v)"
    with Cons.IH [of s'] Cons.prems
    show "wp (serve_all jmount jumount rs) (\<lambda>_ s'. pod_at init now (hist s') ns (pod_name v) = pod_at init now (hist s) ns (pod_name v)) s'"
      by simp
  qed
qed (simp add: wp_simps)

end

locale mnt_volumes = mnt_interface +
  fixes jcreate :: "jfs_setting \<Rightarrow> unit outcome prog"
    and jdelete :: "jfs_setting \<Rightarrow> unit outcome prog"
  assumes jcreate_keeps: "documented \<Longrightarrow> emits keeps_pods (jcreate js)"
    and jdelete_keeps: "documented \<Longrightarrow> emits keeps_pods (jdelete js)"
begin

lemma volume_jobs_keep_pods:
  assumes "documented"
  shows "wp (jcreate js \<bind> (\<lambda>_. jdelete js')) (\<lambda>_ s'. pod_at init now (hist s') = pod_at init now (hist s)) s"
  by (rule wp_keeps_pods) (intro emits_bind jcreate_keeps jdelete_keeps assms)

end

definition mnt_documented :: "env \<Rightarrow> bool" where
  "mnt_documented E \<longleftrightarrow> retry_documented E \<and> finalizers_documented E \<and> api_names E \<and> api_creates E"

lemma createOrUpdateSecret_writes_pod [emits_intros]:
  "retry_documented E \<Longrightarrow> emits (writes_pod ns n) (createOrUpdateSecret E C sec)"
  unfolding createOrUpdateSecret_def by (auto simp: client_defs intro!: emits_intros split: sum.splits)

lemma AddRefOfMount_writes [emits_intros]:
  "mnt_documented E \<Longrightarrow> emits (writes_pod (Namespace C) n) (AddRefOfMount E C target n)"
  unfolding AddRefOfMount_def mnt_documented_def Let_def
  by (intro emits_retry emits_GetPod_named) (auto intro!: emits_intros simp: named_def)

lemma add_to_pod_writes: "mnt_documented E \<Longrightarrow> emits (writes_pod (Namespace C) n) (add_to_pod E C js n sec oldPod)"
  unfolding add_to_pod_def by (intro emits_intros) (simp_all add: mnt_documented_def)

lemma NewMountPod_writes: "emits (writes_pod ns n) (NewMountPod E C js podName)"
  unfolding NewMountPod_def parsePodResources_def put_limit_def put_request_def generateJuicePod_def
  by (auto simp: os_defs Let_def split_beta intro!: emits_intros split: option.splits)

lemma create_pod_writes:
  assumes "mnt_documented E"
  shows "emits (writes_pod (Namespace C) n) (create_pod E C js n sec)"
  unfolding create_pod_def
proof (rule emits_bindO_wp [OF NewMountPod_writes, where R = "named (Namespace C) n"])
  have doc: "retry_documented E" "finalizers_documented E" "api_creates E" using assms by (simp_all add: mnt_documented_def)
  show "wp (NewMountPod E C js n) (\<lambda>r _. \<forall>p. r = Ok p \<longrightarrow> named (Namespace C) n p) s" for s
    by (rule wp_mono [OF NewMountPod_identity [OF doc(2)]]) (auto simp: named_def)
  fix p
  assume p: "named (Namespace C) n p"
  let ?p = "p\<lparr>p_annotations := Some (mput (GetReferenceKey (js_TargetPath js)) (js_TargetPath js) (entries (p_annotations p)))\<rparr>"
  have "emits (writes_pod (Namespace C) n) (CreatePod E (Some ?p))"
    using p doc(3) unfolding emits_def
    by (auto simp: client_defs wp_simps named_def api_creates_def split: sum.splits)
  then show "emits (writes_pod (Namespace C) n) (do {
       let newPod' = ?p;
       (po, err) \<leftarrow> CreatePod E (Some newPod');
       (case po of
          None \<Rightarrow> State_Monad.return (Panic ''invalid memory address or nil pointer dereference'')
        | Some pod \<Rightarrow> do {
            err2 \<leftarrow> createOrUpdateSecret E C (SetPodAsOwner sec pod);
            (case err2 of
               Some e2 \<Rightarrow> State_Monad.return (Err e2)
             | None \<Rightarrow> State_Monad.return (of_err err))
          })
     })"
    unfolding Let_def by (rule emits_bind) (intro emits_intros doc(1))
qed

lemma JMount_writes:
  assumes "mnt_documented E"
  shows "emits (writes_pod (Namespace C) (GenerateNameByVolumeId C (js_VolumeId js))) (JMount E C js)"
proof -
  have "emits (writes_pod (Namespace C) podName) (createOrAddRef_loop n E C js' podName sec)" for n podName sec js'
    by (rule create.loop_emits)
      (auto intro!: emits_intros add_to_pod_writes create_pod_writes assms split: sum.splits if_splits)
  moreover have "emits (writes_pod (Namespace C) podName) (waitUtilPodReady E C podName)" for podName
    unfolding waitUtilPodReady_def by (rule emits_mono [OF waitUtilPodReady_reads]) auto
  ultimately show ?thesis
    unfolding JMount_def createOrAddRef_def Let_def by (intro emits_intros) simp_all
qed

lemma ShouldDelay_named: "wp (ShouldDelay E p) (\<lambda>r _. p_name (snd (snd r)) = p_name p \<and> p_namespace (snd (snd r)) = p_namespace p) s"
  by (auto simp: ShouldDelay_def GetTimeAfterDelay_def wp_simps client_defs Let_def split: option.splits sum.splits)

lemma ShouldDelay_writes: "named ns n p \<Longrightarrow> emits (writes_pod ns n) (ShouldDelay E p)"
  unfolding ShouldDelay_def GetTimeAfterDelay_def Let_def
  by (intro emits_intros; simp add: client_defs emits_call named_def split: option.splits)

lemma deleteMountPod_writes:
  assumes "mnt_documented E"
  shows "emits (writes_pod ns n) (deleteMountPod E n ns)"
  unfolding deleteMountPod_def
proof (intro emits_retry emits_GetPod_named, goal_cases)
  case (5 r)
  show ?case
  proof (cases r)
    case (Inr po)
    with 5 have po: "named ns n po" by simp
    show ?thesis
      unfolding Inr sum.case
      by (intro emits_if emits_return emits_bind_wp [OF ShouldDelay_writes [OF po] ShouldDelay_named])
        (use po in \<open>auto intro!: emits_intros simp: named_def split: prod.splits\<close>)
  qed (simp add: emits_return)
qed (use assms in \<open>simp_all add: mnt_documented_def\<close>)

lemma removeRef_writes:
  assumes "mnt_documented E" "named ns n pod"
  shows "emits (writes_pod ns n) (removeRef E target pod)"
  unfolding removeRef_def
  by (intro emits_retry emits_GetPod_named)
    (use assms in \<open>auto intro!: emits_intros simp: named_def mnt_documented_def split: sum.splits\<close>)

lemma JUmount_writes:
  assumes "mnt_documented E"
  shows "emits (writes_pod (Namespace C) (GenerateNameByVolumeId C volumeId)) (JUmount E C volumeId target)"
proof -
  have names: "api_names E" using assms by (simp add: mnt_documented_def)
  let ?n = "GenerateNameByVolumeId C volumeId"
  have "emits (writes_pod (Namespace C) ?n) (release_pod E (p_name pod) (p_namespace pod))"
    if "named (Namespace C) ?n pod" for pod
    using that unfolding release_pod_def named_def
    by (auto intro!: emits_intros deleteMountPod_writes [OF assms] split: sum.splits)
  then show ?thesis
    unfolding JUmount_def Let_def
    by (intro emits_with_lock emits_GetPod_named [OF names])
      (auto intro!: emits_intros removeRef_writes [OF assms] split: sum.splits)
qed

lemma run_volume_job_keeps:
  assumes "retry_documented E"
  shows "emits keeps_pods (run_volume_job E C job js)"
proof -
  have "emits keeps_pods (waitUtilJobCompleted E C jobName)" for jobName
    unfolding waitUtilJobCompleted_def
    by (rule job.loop_emits)
      (auto simp: getNotCompleteCnLog_def first_log_def intro!: emits_intros split: sum.splits list.splits if_splits)
  then show ?thesis
    unfolding run_volume_job_def
    by (intro emits_intros createOrUpdateSecret_keeps [OF assms]) simp_all
qed

lemma pod_volume_jobs_keep:
  assumes "retry_documented E"
  shows "emits keeps_pods (JCreateVolume E C js)" "emits keeps_pods (JDeleteVolume E C js)"
  unfolding JCreateVolume_def JDeleteVolume_def by (intro emits_intros run_volume_job_keeps [OF assms]; simp)+

lemma GenerateNameByVolumeId_inj: "GenerateNameByVolumeId C v = GenerateNameByVolumeId C w \<Longrightarrow> v = w"
  by (simp add: GenerateNameByVolumeId_def)

interpretation pods: mnt_volumes "mnt_documented E" "Namespace C" "GenerateNameByVolumeId C" "JMount E C" "JUmount E C"
    "JCreateVolume E C" "JDeleteVolume E C"
  for E C
  by unfold_locales (auto intro: JMount_writes JUmount_writes pod_volume_jobs_keep dest: GenerateNameByVolumeId_inj simp: mnt_documented_def)

lemma pm_JMount_writes: "emits (writes_pod ns n) (pm_JMount E js)"
proof -
  have "emits (writes_pod ns n) (pm_wait k E js)" for k
    by (induction k) (auto intro!: emits_intros)
  then show ?thesis unfolding pm_JMount_def pm_prepare_def Let_def by (intro emits_intros; simp)
qed

lemma pm_JUmount_writes: "emits (writes_pod ns n) (pm_JUmount E volumeId target)"
  unfolding pm_JUmount_def pm_check_target_def
  by (intro emits_intros; simp)

interpretation process: mnt_volumes True "Namespace C" "GenerateNameByVolumeId C" "pm_JMount E" "pm_JUmount E"
    pm_JCreateVolume pm_JDeleteVolume
  for E C
  by unfold_locales (auto intro: pm_JMount_writes pm_JUmount_writes dest: GenerateNameByVolumeId_inj
      simp: pm_JCreateVolume_def pm_JDeleteVolume_def emits_return)

text \<open>
  C13: volumes are isolated: serving any sequence of mounts and unmounts of other volumes leaves a volume's mount pod
  on the API server as it is, and so do the jobs that create and delete volumes.
\<close>

theorem volumes_isolated:
  assumes "mnt_documented E" "\<forall>r \<in> set rs. req_volume r \<noteq> v"
  shows "pod_at init now (hist (snd (run_state (serve_all (JMount E C) (JUmount E C) rs) s))) (Namespace C) (GenerateNameByVolumeId C v) =
       pod_at init now (hist s) (Namespace C) (GenerateNameByVolumeId C v) \<and>
     pod_at init now (hist (snd (run_state (JCreateVolume E C js \<bind> (\<lambda>_. JDeleteVolume E C js')) s))) = pod_at init now (hist s)"
  using pods.isolation [OF assms, of C init now s] pods.volume_jobs_keep_pods [OF assms(1), of C js js' init now s]
  by (simp add: wp_def split_beta)

lemma mnt_documentedI:
  "retry_documented E \<Longrightarrow> finalizers_documented E \<Longrightarrow> api_documented init now E \<Longrightarrow> mnt_documented E"
  using api_get(5) by (auto simp: mnt_documented_def api_names_def api_documented_def)

lemma sim_mnt_documented: "mnt_documented (sim_env ps)"
  by (rule mnt_documentedI [OF sim_retry sim_finalizers sim_api])

theorem volumes_isolated_witness:
  "pod_at (sim_pods [sim_mount_pod]) 0
     (hist (snd (run_state (serve_all (JMount (sim_env [sim_mount_pod]) sim_config) (JUmount (sim_env [sim_mount_pod]) sim_config)
        [MountReq (sim_setting\<lparr>js_VolumeId := ''other''\<rparr>), UmountReq ''other'' ''/b'']) sim_state)))
     ''kube-system'' ''juicefs-node-pvc'' = Some sim_mount_pod"
proof -
  have names: "Namespace sim_config = ''kube-system''" "GenerateNameByVolumeId sim_config ''pvc'' = ''juicefs-node-pvc''"
    by (simp_all add: sim_config_def GenerateNameByVolumeId_def)
  have start: "pod_at (sim_pods [sim_mount_pod]) 0 (hist sim_state) ''kube-system'' ''juicefs-node-pvc'' = Some sim_mount_pod"
    by (simp add: sim_run_defs)
  show ?thesis
    using volumes_isolated [OF sim_mnt_documented, of "[MountReq (sim_setting\<lparr>js_VolumeId := ''other''\<rparr>), UmountReq ''other'' ''/b'']"
        "''pvc''" "sim_pods [sim_mount_pod]" 0 "[sim_mount_pod]" sim_config sim_state] start
    by (simp add: names)
qed

end
