(* ===== verification/MountInfo.thy ===== *)
theory MountInfo
  imports PodMount
begin

text \<open>
  pkg/controller/mountinfo.go: the table of mounts and of pods on the node that one round of the
  reconciler works with, and how a CSI target path is resolved in it.
\<close>

section \<open>The table\<close>

record mountInfoTable =
  mit_mis :: "mount_info list"
  mit_deletedPods :: "(string \<times> bool) list"

definition newMountInfoTable :: mountInfoTable where
  "newMountInfoTable = \<lparr>mit_mis = [], mit_deletedPods = []\<rparr>"

definition parse_mountinfo :: "env \<Rightarrow> mountInfoTable \<Rightarrow> (goerr option \<times> mountInfoTable) prog" where
  "parse_mountinfo E mit = do {
     r \<leftarrow> call (m_parse_mountinfo E) EvParseMountInfo;
     State_Monad.return (case r of
         Inl e \<Rightarrow> (Some e, mit\<lparr>mit_mis := []\<rparr>)
       | Inr mis \<Rightarrow> (None, mit\<lparr>mit_mis := mis\<rparr>))
   }"

definition setPodStatus :: "mountInfoTable \<Rightarrow> pod \<Rightarrow> mountInfoTable" where
  "setPodStatus mit pod =
     (if p_deletionTimestamp pod \<noteq> None then mit\<lparr>mit_deletedPods := mput (p_uid pod) True (mit_deletedPods mit)\<rparr>
      else mit\<lparr>mit_deletedPods := mput (p_uid pod) False (mit_deletedPods mit)\<rparr>)"

definition setPodsStatus :: "mountInfoTable \<Rightarrow> pod list option \<Rightarrow> mountInfoTable" where
  "setPodsStatus mit podList =
     (let mit0 = mit\<lparr>mit_deletedPods := []\<rparr> in
      case podList of
        None \<Rightarrow> mit0
      | Some items \<Rightarrow> mit0\<lparr>mit_deletedPods :=
          fold (\<lambda>pod m. mput (p_uid pod) (p_deletionTimestamp pod \<noteq> None) m) items []\<rparr>)"

section \<open>Target paths\<close>

definition containerSubPathDirectory :: string where
  "containerSubPathDirectory = ''volume-subpaths''"

definition containerCsiDirectory :: string where
  "containerCsiDirectory = ''volumes/kubernetes.io~csi''"

definition getPodUid :: "string \<Rightarrow> string" where
  "getPodUid target =
     (let pair = Split target containerCsiDirectory in
      if length pair \<noteq> 2 then ''''
      else (let podDir = TrimSuffix (pair ! 0) ''/''; index = LastIndex_char podDir (CHR ''/'') in
            if index \<le> 0 then '''' else drop (nat (index + 1)) podDir))"

definition getPVName :: "string \<Rightarrow> string" where
  "getPVName target =
     (let pair = Split target containerCsiDirectory in
      if length pair \<noteq> 2 then ''''
      else (let pvName = TrimPrefix (pair ! 1) ''/''; index = Index pvName ''/'' in
            if index \<le> 0 then '''' else take (nat index) pvName))"

section \<open>Target items\<close>

datatype target_status = TargetNotExist | TargetMounted | TargetNotMount | TargetCorrupt | TargetUnexpect

record targetItem =
  ti_target :: string
  ti_subpath :: string
  ti_count :: int
  ti_inconsistent :: bool
  ti_status :: target_status
  ti_err :: "goerr option"

record mountItem =
  it_podExist :: bool
  it_podDeleted :: bool
  it_baseTarget :: targetItem
  it_subPathTarget :: "targetItem list"

definition new_targetItem :: "string \<Rightarrow> string \<Rightarrow> int \<Rightarrow> targetItem" where
  "new_targetItem target subpath count =
     \<lparr>ti_target = target, ti_subpath = subpath, ti_count = count, ti_inconsistent = False,
      ti_status = TargetNotExist, ti_err = None\<rparr>"

definition check_result :: "env \<Rightarrow> bool \<Rightarrow> targetItem \<Rightarrow> goerr + file_info \<Rightarrow> targetItem" where
  "check_result E mounted ti r =
     (case r of
        Inr _ \<Rightarrow> ti\<lparr>ti_status := (if mounted then TargetMounted else TargetNotMount)\<rparr>
      | Inl err \<Rightarrow>
          if os_IsNotExist err then ti\<lparr>ti_status := TargetNotExist\<rparr>
          else (let ti1 = (if \<not> mounted then ti\<lparr>ti_status := TargetUnexpect, ti_err := Some err\<rparr> else ti) in
                if m_is_corrupted E err then ti1\<lparr>ti_status := TargetCorrupt\<rparr>
                else ti1\<lparr>ti_status := TargetUnexpect, ti_err := Some err\<rparr>))"

definition ti_check :: "env \<Rightarrow> bool \<Rightarrow> targetItem \<Rightarrow> targetItem prog" where
  "ti_check E mounted ti = do {
     r \<leftarrow> Stat E (ti_target ti);
     State_Monad.return (check_result E mounted ti r)
   }"

text \<open>One line of the mount table entered into the records.\<close>

definition trim_root :: "string \<Rightarrow> string" where
  "trim_root root = TrimChar (TrimSuffix root ''//deleted'') (CHR ''/'')"

definition add_record :: "mount_info \<Rightarrow> (string \<times> targetItem) list \<Rightarrow> (string \<times> targetItem) list" where
  "add_record mi records =
     (let subpath = trim_root (mi_Root mi) in
      case map_of records (mi_MountPoint mi) of
        None \<Rightarrow> mput (mi_MountPoint mi) (new_targetItem (mi_MountPoint mi) subpath 1) records
      | Some rec \<Rightarrow> mput (mi_MountPoint mi)
          (rec\<lparr>ti_inconsistent := ti_inconsistent rec \<or> ti_subpath rec \<noteq> subpath, ti_count := ti_count rec + 1\<rparr>) records)"

definition item_match :: "string \<Rightarrow> bool \<Rightarrow> mount_info \<Rightarrow> bool" where
  "item_match path isPrefix mi =
     (if isPrefix then HasPrefix (mi_MountPoint mi) path else path = mi_MountPoint mi)"

definition collect_records :: "mount_info list \<Rightarrow> string \<Rightarrow> bool \<Rightarrow> (string \<times> targetItem) list" where
  "collect_records mis path isPrefix =
     fold (\<lambda>mi records. if item_match path isPrefix mi then add_record mi records else records) mis []"

fun check_all :: "env \<Rightarrow> targetItem list \<Rightarrow> targetItem list prog" where
  "check_all E [] = State_Monad.return []"
| "check_all E (ti # tis) = do {
     ti' \<leftarrow> ti_check E True ti;
     res \<leftarrow> check_all E tis;
     State_Monad.return (ti' # res)
   }"

text \<open>The records in the order the runtime ranges over the map of their mount points.\<close>

definition resolveTargetItem :: "env \<Rightarrow> mountInfoTable \<Rightarrow> string \<Rightarrow> bool \<Rightarrow> targetItem list prog" where
  "resolveTargetItem E mit path isPrefix = do {
     let records = collect_records (mit_mis mit) path isPrefix;
     keys \<leftarrow> Range E (map (\<lambda>(k, _). (k, '''')) records);
     check_all E (List.map_filter (\<lambda>(k, _). map_of records k) keys)
   }"

definition resolveTarget :: "env \<Rightarrow> mountInfoTable \<Rightarrow> string \<Rightarrow> mountItem option prog" where
  "resolveTarget E mit target = (
     let pair = Split target containerCsiDirectory in
     if length pair \<noteq> 2 then State_Monad.return None
     else (
       let podDir = TrimSuffix (pair ! 0) ''/''; podUID = getPodUid target in
       if podUID = '''' then State_Monad.return None
       else (
         let pvName = getPVName target in
         if pvName = '''' then State_Monad.return None
         else do {
           let podExist = mhas (mit_deletedPods mit) podUID;
           let podDeleted = (map_of (mit_deletedPods mit) podUID = Some True);
           iterms \<leftarrow> resolveTargetItem E mit target False;
           baseTarget \<leftarrow> (case iterms of
               [ti] \<Rightarrow> State_Monad.return ti
             | _ \<Rightarrow> ti_check E False (new_targetItem target '''' 0));
           let subpathTargetPrefix = Join [podDir, containerSubPathDirectory, pvName] ''/'';
           subPathTarget \<leftarrow> resolveTargetItem E mit subpathTargetPrefix True;
           State_Monad.return (Some \<lparr>it_podExist = podExist, it_podDeleted = podDeleted,
             it_baseTarget = baseTarget, it_subPathTarget = subPathTarget\<rparr>)
         })))"

section \<open>Lemmas\<close>

definition entries_at :: "mount_info list \<Rightarrow> string \<Rightarrow> mount_info list" where
  "entries_at mis mp = filter (\<lambda>mi. mi_MountPoint mi = mp) mis"

definition record_of :: "string \<Rightarrow> mount_info list \<Rightarrow> targetItem" where
  "record_of mp es =
     (new_targetItem mp (trim_root (mi_Root (hd es))) (int (length es)))
       \<lparr>ti_inconsistent := list_ex (\<lambda>mi. trim_root (mi_Root mi) \<noteq> trim_root (mi_Root (hd es))) es\<rparr>"

lemma collect_records_map:
  "map_of (collect_records mis path isPrefix) mp =
     (let es = entries_at (filter (item_match path isPrefix) mis) mp in
      if es = [] then None else Some (record_of mp es))"
proof (induction mis rule: rev_induct)
  case Nil
  show ?case by (simp add: collect_records_def entries_at_def)
next
  case (snoc mi mis)
  show ?case
  proof (cases "item_match path isPrefix mi")
    case False
    with snoc show ?thesis by (simp add: collect_records_def)
  next
    case True
    let ?old = "collect_records mis path isPrefix"
    let ?es = "entries_at (filter (item_match path isPrefix) mis) (mi_MountPoint mi)"
    have step: "collect_records (mis @ [mi]) path isPrefix = add_record mi ?old"
      using True by (simp add: collect_records_def)
    show ?thesis
    proof (cases "mp = mi_MountPoint mi")
      case False
      with snoc True show ?thesis
        by (auto simp: step add_record_def entries_at_def Let_def split: option.splits)
    next
      case same: True
      show ?thesis
      proof (cases "?es = []")
        case True
        with snoc same \<open>item_match path isPrefix mi\<close> show ?thesis
          by (simp add: step add_record_def entries_at_def record_of_def Let_def new_targetItem_def split: option.splits)
      next
        case False
        then obtain e es where es: "?es = e # es" by (cases ?es) auto
        with snoc same \<open>item_match path isPrefix mi\<close> show ?thesis
          by (auto simp: step add_record_def entries_at_def record_of_def Let_def new_targetItem_def list_ex_iff split: option.splits)
      qed
    qed
  qed
qed

lemma wf_collect_records [simp]: "wf_map (collect_records mis path isPrefix)"
proof -
  have "wf_map m \<Longrightarrow> wf_map (fold (\<lambda>mi r. if item_match path isPrefix mi then add_record mi r else r) mis m)" for m
    by (induction mis arbitrary: m) (auto simp: add_record_def Let_def split: option.splits)
  then show ?thesis by (simp add: collect_records_def)
qed

text \<open>When the kubelet's list has distinct UIDs.\<close>

lemma setPodsStatus_map:
  assumes "distinct (map p_uid pods)"
  shows "map_of (mit_deletedPods (setPodsStatus mit (Some pods))) u =
    (case find (\<lambda>p. p_uid p = u) pods of None \<Rightarrow> None | Some p \<Rightarrow> Some (p_deletionTimestamp p \<noteq> None))"
proof -
  have "map_of (fold (\<lambda>pod m. mput (p_uid pod) (p_deletionTimestamp pod \<noteq> None) m) pods m) u =
    (case find (\<lambda>p. p_uid p = u) pods of None \<Rightarrow> map_of m u | Some p \<Rightarrow> Some (p_deletionTimestamp p \<noteq> None))" for m
    using assms
  proof (induction pods arbitrary: m)
    case (Cons p pods)
    show ?case
    proof (cases "p_uid p = u")
      case True
      with Cons.prems have "find (\<lambda>q. p_uid q = u) pods = None"
        unfolding find_None_iff by (metis distinct.simps(2) list.simps(9) image_eqI list.set_map)
      with True Cons show ?thesis by simp
    next
      case False
      with Cons show ?thesis by (simp split: option.split)
    qed
  qed simp
  from this [of "[]"] show ?thesis by (simp add: setPodsStatus_def split: option.split)
qed

section \<open>Properties\<close>

text \<open>
  C34: on the target path the kubelet makes for a CSI volume, \<^verbatim>\<open>getPodUid\<close> and \<^verbatim>\<open>getPVName\<close> return the pod's UID
  and the persistent volume's name.
\<close>

theorem target_path_roundtrip:
  assumes "base \<noteq> ''''" "CHR ''/'' \<notin> set uid" "CHR ''/'' \<notin> set pv" "pv \<noteq> ''''"
    and "\<not> Contains (base @ ''/'' @ uid @ ''/'') containerCsiDirectory"
    and "\<not> Contains (''/'' @ pv @ ''/'' @ rest) containerCsiDirectory"
  defines "target \<equiv> base @ ''/'' @ uid @ ''/'' @ containerCsiDirectory @ ''/'' @ pv @ ''/'' @ rest"
  shows "getPodUid target = uid \<and> getPVName target = pv"
proof -
  have dir: "containerCsiDirectory = CHR ''v'' # ''olumes/kubernetes.io~csi''"
    by (simp add: containerCsiDirectory_def)
  have "CHR ''v'' \<notin> set ''olumes/kubernetes.io~csi''" by simp
  from Split_append [OF this, folded dir, OF assms(5)] Split_none [OF assms(6) [unfolded dir], folded dir]
  have split: "Split target containerCsiDirectory = [base @ ''/'' @ uid @ ''/'', ''/'' @ pv @ ''/'' @ rest]"
    by (simp add: target_def)
  have trim: "TrimSuffix (base @ ''/'' @ uid @ ''/'') ''/'' = base @ CHR ''/'' # uid"
    using TrimSuffix_append [of "base @ ''/'' @ uid" "''/''"] by simp
  have "getPodUid target = uid"
    unfolding getPodUid_def split using assms(1,2)
    by (simp add: trim [simplified] Let_def LastIndex_char_append nat_add_distrib)
  moreover have "TrimPrefix (''/'' @ pv @ ''/'' @ rest) ''/'' = pv @ CHR ''/'' # rest"
    using TrimPrefix_append [of "''/''" "pv @ ''/'' @ rest"] by simp
  then have "getPVName target = pv"
    unfolding getPVName_def split using assms(3,4)
    by (simp add: Let_def Index_char_append)
  ultimately show ?thesis ..
qed

theorem target_path_roundtrip_witness:
  "getPodUid (''/var/lib/kubelet/pods'' @ ''/'' @ ''d6f1'' @ ''/'' @ containerCsiDirectory @ ''/'' @ ''pvc-1'' @ ''/'' @ ''mount'') = ''d6f1'' \<and>
   getPVName (''/var/lib/kubelet/pods'' @ ''/'' @ ''d6f1'' @ ''/'' @ containerCsiDirectory @ ''/'' @ ''pvc-1'' @ ''/'' @ ''mount'') = ''pvc-1''"
  by (rule target_path_roundtrip)
    (simp_all add: containerCsiDirectory_def Contains_def HasPrefix_def)

text \<open>
  The records \<^verbatim>\<open>resolveTargetItem\<close> collects have one entry per matching mount point: its count is the
  number of lines of the mount table for that point, its subpath the trimmed root of the first of them,
  and it is inconsistent exactly when another of them has a different trimmed root.
\<close>

theorem collect_records_exact:
  "wf_map (collect_records mis path isPrefix) \<and>
   map_of (collect_records mis path isPrefix) mp =
     (let es = entries_at (filter (item_match path isPrefix) mis) mp in
      if es = [] then None
      else Some \<lparr>ti_target = mp, ti_subpath = trim_root (mi_Root (hd es)), ti_count = int (length es),
        ti_inconsistent = list_ex (\<lambda>mi. trim_root (mi_Root mi) \<noteq> trim_root (mi_Root (hd es))) es,
        ti_status = TargetNotExist, ti_err = None\<rparr>)"
  by (simp add: collect_records_map record_of_def new_targetItem_def Let_def)

end
