(* ===== verification/PodDriver.thy ===== *)
theory PodDriver
  imports MountInfo
begin

text \<open>
  pkg/controller/pod_driver.go: what the reconciler does with one mount pod. The receiver's mount
  table is passed along; the pod a handler mutates in place is returned where a later step reads it.
\<close>

section \<open>Status\<close>

datatype podStatus = podReady | podError | podDeleted | podPending

definition getPodStatus :: "pod option \<Rightarrow> podStatus" where
  "getPodStatus p =
     (case p of
        None \<Rightarrow> podError
      | Some pod \<Rightarrow>
          if p_deletionTimestamp pod \<noteq> None then podDeleted
          else if IsPodError pod then podError
          else if IsPodReady pod then podReady
          else podPending)"

section \<open>Commands with a deadline\<close>

text \<open>
  \<^verbatim>\<open>doWithinTime(ctx, nil, f)\<close>: the work runs in a goroutine; the caller gets its error, or a timeout
  after a second (the work is not undone). \<^verbatim>\<open>doWithinTime(ctx, cmd, nil)\<close> also returns the output.
\<close>

definition context_timeout :: goerr where
  "context_timeout = StatusError Internal ''context timeout'' [] None"

definition doWithinTime :: "env \<Rightarrow> goerr option prog \<Rightarrow> goerr option prog" where
  "doWithinTime E f = do {
     r \<leftarrow> f;
     t \<leftarrow> call (o_timeout E) EvTimeout;
     State_Monad.return (if t then Some context_timeout else r)
   }"

definition doWithinTime_cmd :: "env \<Rightarrow> string \<Rightarrow> string list \<Rightarrow> (string \<times> goerr option) prog" where
  "doWithinTime_cmd E cmd args = do {
     (out, r) \<leftarrow> Exec E cmd args [];
     t \<leftarrow> call (o_timeout E) EvTimeout;
     State_Monad.return (if t then ('''', Some context_timeout) else (out, r))
   }"

section \<open>References of pods that are gone\<close>

text \<open>Whether an annotation is the reference of a target whose pod is deleted or unknown.\<close>

definition dead_ref :: "mountInfoTable \<Rightarrow> string \<times> string \<Rightarrow> bool" where
  "dead_ref mit = (\<lambda>(k, target).
     k = GetReferenceKey target \<and>
     (case map_of (mit_deletedPods mit) (getPodUid target) of None \<Rightarrow> True | Some deleted \<Rightarrow> deleted))"

definition is_ref :: "string \<times> string \<Rightarrow> bool" where
  "is_ref = (\<lambda>(k, target). k = GetReferenceKey target)"

text \<open>The annotations that remain: no dead reference, and no deadline while a reference is alive.\<close>

definition live_annotations :: "mountInfoTable \<Rightarrow> gomap \<Rightarrow> gomap" where
  "live_annotations mit annos =
     (let annotation = filter (\<lambda>kv. \<not> dead_ref mit kv) annos;
          existTargets = length (filter is_ref annotation)
      in if existTargets \<noteq> 0 then mdel DeleteDelayAtKey annotation else annotation)"

definition live_targets :: "mountInfoTable \<Rightarrow> gomap \<Rightarrow> nat" where
  "live_targets mit annos = length (filter is_ref (filter (\<lambda>kv. \<not> dead_ref mit kv) annos))"

text \<open>The deletion of a pod without references, unless it is to be delayed.\<close>

definition delete_if_due :: "env \<Rightarrow> pod \<Rightarrow> (goerr option \<times> pod) prog" where
  "delete_if_due E pod = do {
     (shouldDelay, err, pod') \<leftarrow> ShouldDelay E pod;
     (case err of
        Some e \<Rightarrow> State_Monad.return (Some e, pod')
      | None \<Rightarrow>
          if \<not> shouldDelay then do {
            err2 \<leftarrow> DeletePod E (Some pod');
            State_Monad.return (err2, pod')
          }
          else State_Monad.return (None, pod'))
   }"

definition checkAnnotations :: "env \<Rightarrow> mountInfoTable \<Rightarrow> pod \<Rightarrow> (goerr option \<times> pod) prog" where
  "checkAnnotations E mit pod =
     with_lock (GetPodLock (p_name pod)) (do {
       let annotation = live_annotations mit (entries (p_annotations pod));
       (err, pod1) \<leftarrow>
         (if length (entries (p_annotations pod)) \<noteq> length annotation then do {
            let pod1 = pod\<lparr>p_annotations := Some annotation\<rparr>;
            err \<leftarrow> UpdatePod E (Some pod1);
            State_Monad.return (err, pod1)
          }
          else State_Monad.return (None, pod));
       (case err of
          Some e \<Rightarrow> State_Monad.return (Some e, pod1)
        | None \<Rightarrow>
            if live_targets mit (entries (p_annotations pod)) = 0 \<and> p_deletionTimestamp pod1 = None
            then delete_if_due E pod1
            else State_Monad.return (None, pod1))
     })"

section \<open>Handlers\<close>

fun wait_deleted :: "nat \<Rightarrow> env \<Rightarrow> string \<Rightarrow> string \<Rightarrow> bool prog" where
  "wait_deleted 0 E name namespace = State_Monad.return False"
| "wait_deleted (Suc n) E name namespace = do {
     r \<leftarrow> GetPod E name namespace;
     (case r of
        Inr _ \<Rightarrow> do { Sleep 500000; wait_deleted n E name namespace }
      | Inl e \<Rightarrow> if IsNotFound e then State_Monad.return True else wait_deleted n E name namespace)
   }"

text \<open>The pod that replaces a deleted one: its name, labels, annotations and spec, nothing else.\<close>

definition recreate_of :: "env \<Rightarrow> pod \<Rightarrow> pod" where
  "recreate_of E pod = x_add_finalizer E
     (zero_pod\<lparr>p_name := p_name pod, p_namespace := p_namespace pod, p_labels := p_labels pod,
        p_annotations := p_annotations pod, p_spec := p_spec pod\<rparr>) Finalizer"

definition podErrorHandler :: "env \<Rightarrow> config \<Rightarrow> pod option \<Rightarrow> goerr option prog" where
  "podErrorHandler E C p =
     (case p of
        None \<Rightarrow> State_Monad.return None
      | Some pod \<Rightarrow>
          with_lock (GetPodLock (p_name pod))
            (if IsPodResourceError pod \<and> IsPodHasResource pod then do {
               let pod1 = x_remove_finalizer E pod Finalizer;
               err \<leftarrow> UpdatePod E (Some pod1);
               (case err of
                  Some _ \<Rightarrow> State_Monad.return None
                | None \<Rightarrow> do {
                    err2 \<leftarrow> DeletePod E (Some pod1);
                    (case err2 of
                       Some _ \<Rightarrow> State_Monad.return None
                     | None \<Rightarrow> do {
                         isDeleted \<leftarrow> wait_deleted 120 E (p_name pod1) (p_namespace pod1);
                         (if \<not> isDeleted then State_Monad.return None
                          else do {
                            let newPod = DeleteResourceOfPod (recreate_of E pod1);
                            _ \<leftarrow> CreatePod E (Some newPod);
                            State_Monad.return None
                          })
                       })
                  })
             }
             else State_Monad.return None))"

definition umount_stale_messages :: "string list" where
  "umount_stale_messages = [''not mounted'', ''mountpoint not found'', ''no mount point specified'']"

text \<open>The \<^verbatim>\<open>umount\<close> before a mount pod is created again, with the lazy unmount as its fallback.\<close>

definition umount_source :: "env \<Rightarrow> string \<Rightarrow> unit prog" where
  "umount_source E sourcePath = do {
     err \<leftarrow> doWithinTime E (do {
       (exist, _) \<leftarrow> PathExists E sourcePath;
       State_Monad.return (if \<not> exist then Some (Errorf ''%s not exist'' [sourcePath] None) else None)
     });
     (case err of
        None \<Rightarrow> State_Monad.return ()
      | Some _ \<Rightarrow> do {
          (out, err2) \<leftarrow> doWithinTime_cmd E ''umount'' [sourcePath];
          (if err2 \<noteq> None \<and> \<not> list_ex (Contains out) umount_stale_messages then do {
             _ \<leftarrow> doWithinTime_cmd E ''umount'' [''-l'', sourcePath];
             State_Monad.return ()
           }
           else State_Monad.return ())
        })
   }"

fun recreate_loop :: "nat \<Rightarrow> env \<Rightarrow> config \<Rightarrow> pod \<Rightarrow> string \<Rightarrow> gomap \<Rightarrow> goerr option prog" where
  "recreate_loop 0 E C pod sourcePath existTargets =
     State_Monad.return (Some (Errorf ''old pod %s %s can't be deleted within 1min'' [p_name pod, Namespace C] None))"
| "recreate_loop (Suc n) E C pod sourcePath existTargets = do {
     r \<leftarrow> GetPod E (p_name pod) (p_namespace pod);
     (case r of
        Inl e \<Rightarrow>
          if IsNotFound e then do {
            umount_source E sourcePath;
            _ \<leftarrow> CreatePod E (Some (recreate_of E pod));
            State_Monad.return None
          }
          else State_Monad.return None
      | Inr po \<Rightarrow>
          if p_deletionTimestamp po \<noteq> None then do {
            Sleep 500000000;
            recreate_loop n E C pod sourcePath existTargets
          }
          else do {
            _ \<leftarrow> UpdatePod E (Some (po\<lparr>p_annotations := Some (mputs existTargets (entries (p_annotations po)))\<rparr>));
            State_Monad.return None
          })
   }"

definition podDeletedHandler :: "env \<Rightarrow> config \<Rightarrow> pod option \<Rightarrow> goerr option prog" where
  "podDeletedHandler E C p =
     (case p of
        None \<Rightarrow> State_Monad.return None
      | Some pod \<Rightarrow>
          if \<not> ContainsString (p_finalizers pod) Finalizer then State_Monad.return None
          else if IsPodResourceError pod then State_Monad.return None
          else do {
            let pod1 = x_remove_finalizer E pod Finalizer;
            err \<leftarrow> UpdatePod E (Some pod1);
            (case err of
               Some e \<Rightarrow> State_Monad.return (Some e)
             | None \<Rightarrow>
                 (case GetMountPathOfPod pod1 of
                    Inl _ \<Rightarrow> State_Monad.return None
                  | Inr (sourcePath, _) \<Rightarrow>
                      (case p_annotations pod1 of
                         None \<Rightarrow> State_Monad.return None
                       | Some annotation \<Rightarrow> (
                           let existTargets = filter is_ref annotation in
                           if length existTargets = 0 then do {
                             _ \<leftarrow> doWithinTime E (CleanupMountPoint E sourcePath);
                             State_Monad.return None
                           }
                           else with_lock (GetPodLock (p_name pod1))
                                  (recreate_loop 120 E C pod1 sourcePath existTargets)))))
          })"

definition podPendingHandler :: "pod option \<Rightarrow> goerr option prog" where
  "podPendingHandler p = State_Monad.return None"

section \<open>Recovery of targets\<close>

fun umountTarget_n :: "env \<Rightarrow> string \<Rightarrow> nat \<Rightarrow> unit prog" where
  "umountTarget_n E target 0 = State_Monad.return ()"
| "umountTarget_n E target (Suc n) = do { _ \<leftarrow> Unmount E target; umountTarget_n E target n }"

definition umountTarget :: "env \<Rightarrow> string \<Rightarrow> int \<Rightarrow> unit prog" where
  "umountTarget E target count = umountTarget_n E target (nat count)"

definition recoverTarget :: "env \<Rightarrow> string \<Rightarrow> targetItem \<Rightarrow> mountItem \<Rightarrow> unit prog" where
  "recoverTarget E sourcePath ti mi =
     (case ti_status ti of
        TargetNotExist \<Rightarrow>
          if ti_count ti > 0 \<and> it_podDeleted mi then umountTarget E (ti_target ti) (ti_count ti)
          else State_Monad.return ()
      | TargetMounted \<Rightarrow> State_Monad.return ()
      | TargetNotMount \<Rightarrow> State_Monad.return ()
      | TargetCorrupt \<Rightarrow>
          if ti_inconsistent ti then State_Monad.return ()
          else if it_podDeleted mi then State_Monad.return ()
          else do {
            umountTarget E (ti_target ti) (ti_count ti - 1);
            (if ti_subpath ti \<noteq> '''' then do {
               let source = sourcePath @ ''/'' @ ti_subpath ti;
               r \<leftarrow> Stat E source;
               (case r of
                  Inl _ \<Rightarrow> State_Monad.return ()
                | Inr _ \<Rightarrow> do { _ \<leftarrow> Mount E source (ti_target ti) ''none'' [''bind'']; State_Monad.return () })
             }
             else do { _ \<leftarrow> Mount E sourcePath (ti_target ti) ''none'' [''bind'']; State_Monad.return () })
          }
      | TargetUnexpect \<Rightarrow> State_Monad.return ())"

fun recover_all :: "env \<Rightarrow> string \<Rightarrow> targetItem list \<Rightarrow> mountItem \<Rightarrow> unit prog" where
  "recover_all E mntPath [] mi = State_Monad.return ()"
| "recover_all E mntPath (ti # tis) mi = do { recoverTarget E mntPath ti mi; recover_all E mntPath tis mi }"

fun recover_refs :: "env \<Rightarrow> mountInfoTable \<Rightarrow> string \<Rightarrow> gomap \<Rightarrow> unit prog" where
  "recover_refs E mit mntPath [] = State_Monad.return ()"
| "recover_refs E mit mntPath ((k, target) # m) =
     (if k = GetReferenceKey target then do {
        r \<leftarrow> resolveTarget E mit target;
        (case r of
           None \<Rightarrow> State_Monad.return ()
         | Some mi \<Rightarrow> recover_all E mntPath (it_baseTarget mi # it_subPathTarget mi) mi);
        recover_refs E mit mntPath m
      }
      else recover_refs E mit mntPath m)"

definition podReadyHandler :: "env \<Rightarrow> mountInfoTable \<Rightarrow> pod option \<Rightarrow> goerr option prog" where
  "podReadyHandler E mit p =
     (case p of
        None \<Rightarrow> State_Monad.return None
      | Some pod \<Rightarrow>
          (case p_annotations pod of
             None \<Rightarrow> State_Monad.return None
           | Some annotation \<Rightarrow>
               (case GetMountPathOfPod pod of
                  Inl _ \<Rightarrow> State_Monad.return None
                | Inr (mntPath, _) \<Rightarrow> do {
                    e \<leftarrow> doWithinTime E (do {
                      r \<leftarrow> Stat E mntPath;
                      State_Monad.return (case r of Inl e \<Rightarrow> Some e | Inr _ \<Rightarrow> None)
                    });
                    (case e of
                       Some _ \<Rightarrow> State_Monad.return None
                     | None \<Rightarrow> do {
                         annos \<leftarrow> Range E annotation;
                         recover_refs E mit mntPath annos;
                         State_Monad.return None
                       })
                  })))"

section \<open>Run\<close>

definition handlers :: "env \<Rightarrow> config \<Rightarrow> mountInfoTable \<Rightarrow> podStatus \<Rightarrow> pod \<Rightarrow> goerr option prog" where
  "handlers E C mit st pod =
     (case st of
        podReady \<Rightarrow> podReadyHandler E mit (Some pod)
      | podError \<Rightarrow> podErrorHandler E C (Some pod)
      | podPending \<Rightarrow> podPendingHandler (Some pod)
      | podDeleted \<Rightarrow> podDeletedHandler E C (Some pod))"

definition Run :: "env \<Rightarrow> config \<Rightarrow> mountInfoTable \<Rightarrow> pod \<Rightarrow> (goerr option \<times> mountInfoTable) prog" where
  "Run E C mit current = do {
     (err0, current0) \<leftarrow> checkAnnotations E mit current;
     (err, current1) \<leftarrow>
       (if err0 = Some (ApiError Conflict) then do {
          r \<leftarrow> GetPod E (p_name current0) (p_namespace current0);
          (case r of
             Inl e \<Rightarrow> State_Monad.return (Some e, current0)
           | Inr cur \<Rightarrow> checkAnnotations E mit cur)
        }
        else State_Monad.return (err0, current0));
     (case err of
        Some e \<Rightarrow> State_Monad.return (Some e, mit)
      | None \<Rightarrow> (
          let st = getPodStatus (Some current1) in
          if st \<noteq> podError \<and> st \<noteq> podDeleted then do {
            r \<leftarrow> handlers E C mit st current1;
            State_Monad.return (r, mit)
          }
          else do {
            r \<leftarrow> GetPod E (p_name current1) (p_namespace current1);
            (case r of
               Inl e \<Rightarrow> State_Monad.return (Some e, mit)
             | Inr pod \<Rightarrow> do {
                 let mit' = setPodStatus mit pod;
                 r2 \<leftarrow> handlers E C mit' (getPodStatus (Some pod)) pod;
                 State_Monad.return (r2, mit')
               })
          }))
   }"

section \<open>Lemmas\<close>

text \<open>The annotations \<^verbatim>\<open>checkAnnotations\<close> keeps, as a function of those of the pod.\<close>

definition kept :: "mountInfoTable \<Rightarrow> gomap \<Rightarrow> string \<times> string \<Rightarrow> bool" where
  "kept mit m kv \<longleftrightarrow> \<not> dead_ref mit kv \<and>
     (fst kv = DeleteDelayAtKey \<longrightarrow> \<not> (\<exists>r \<in> set m. is_ref r \<and> \<not> dead_ref mit r))"

lemma live_targets_zero: "live_targets mit m = 0 \<longleftrightarrow> (\<forall>r \<in> set m. is_ref r \<longrightarrow> dead_ref mit r)"
  by (auto simp: live_targets_def filter_empty_conv)

lemma live_annotations_filter: "live_annotations mit m = filter (kept mit m) m"
  using live_targets_zero [of mit m]
  by (auto simp: live_annotations_def live_targets_def Let_def AList.delete_eq kept_def case_prod_beta intro!: filter_cong)

lemma length_filter_eqD: "length (filter P xs) = length xs \<Longrightarrow> filter P xs = xs"
  using length_filter_less [of _ xs P] by (fastforce simp: filter_id_conv)

lemma live_annotations_same:
  "length m = length (live_annotations mit m) \<Longrightarrow> live_annotations mit m = m"
  unfolding live_annotations_filter by (rule length_filter_eqD) simp

lemma delete_if_due_pod:
  "wp (delete_if_due E p) (\<lambda>(err, p') s'. p' = p \<or> (\<exists>at. p' = stamped at p)) s"
  by (auto simp: delete_if_due_def ShouldDelay_def GetTimeAfterDelay_def wp_simps client_defs Let_def stamped_def
      split: option.splits sum.splits)

lemma checkAnnotations_pod:
  "wp (checkAnnotations E mit pod) (\<lambda>(err, pod') s'. err = None \<longrightarrow>
     (let m = live_annotations mit (entries (p_annotations pod)) in
      entries (p_annotations pod') = m \<or>
      live_targets mit (entries (p_annotations pod)) = 0 \<and> (\<exists>at. entries (p_annotations pod') = mput DeleteDelayAtKey at m))) s"
  unfolding checkAnnotations_def Let_def wp_with_lock
  using live_annotations_same [of "entries (p_annotations pod)" mit]
  by (auto simp: wp_simps client_defs stamped_def intro!: wp_mono [OF delete_if_due_pod] split: option.splits)

fun is_delete :: "event \<Rightarrow> bool" where
  "is_delete (EvPodDelete _ _ _) = True"
| "is_delete _ = False"

lemma checkAnnotations_live_no_delete:
  assumes "live_targets mit (entries (p_annotations pod)) \<noteq> 0 \<or> p_deletionTimestamp pod \<noteq> None"
  shows "emits (\<lambda>e. \<not> is_delete e) (checkAnnotations E mit pod)"
  unfolding checkAnnotations_def Let_def
  using assms by (auto simp: client_defs intro!: emits_intros)

lemma map_of_filter_wf:
  "wf_map m \<Longrightarrow> map_of (filter P m) k = (case map_of m k of None \<Rightarrow> None | Some v \<Rightarrow> if P (k, v) then Some v else None)"
proof (induction m)
  case (Cons kv m)
  then show ?case
    by (cases kv) (auto simp: map_of_eq_None_iff [THEN iffD2] rev_image_eqI split: option.splits dest: map_of_SomeD)
qed simp

lemma checkAnnotations_result:
  assumes "wf_map (entries (p_annotations pod))"
    and "run_state (checkAnnotations E mit pod) s = ((None, pod'), s')"
  shows "(\<forall>k. k \<noteq> DeleteDelayAtKey \<longrightarrow>
      map_of (entries (p_annotations pod')) k =
        (case map_of (entries (p_annotations pod)) k of
           None \<Rightarrow> None | Some v \<Rightarrow> if dead_ref mit (k, v) then None else Some v)) \<and>
    (live_targets mit (entries (p_annotations pod)) \<noteq> 0 \<longrightarrow> \<not> mhas (entries (p_annotations pod')) DeleteDelayAtKey)"
proof -
  let ?a = "entries (p_annotations pod)"
  have m: "map_of (live_annotations mit ?a) k = (case map_of ?a k of None \<Rightarrow> None | Some v \<Rightarrow> if kept mit ?a (k, v) then Some v else None)" for k
    using assms(1) by (simp add: live_annotations_filter map_of_filter_wf)
  from wp_run [OF assms(2) checkAnnotations_pod]
  have *: "entries (p_annotations pod') = live_annotations mit ?a \<or>
      live_targets mit ?a = 0 \<and> (\<exists>at. entries (p_annotations pod') = mput DeleteDelayAtKey at (live_annotations mit ?a))"
    by (simp add: Let_def)
  have "live_targets mit ?a \<noteq> 0 \<Longrightarrow> map_of (live_annotations mit ?a) DeleteDelayAtKey = None"
    unfolding m live_targets_zero by (auto simp: kept_def split: option.splits)
  then show ?thesis using * m by (auto simp: kept_def mhas_def split: option.splits)
qed

lemma dead_ref_after_listing:
  assumes "distinct (map p_uid pods)"
  shows "dead_ref (setPodsStatus mit (Some pods)) (GetReferenceKey target, target) \<longleftrightarrow>
     \<not> (\<exists>p \<in> set pods. p_uid p = getPodUid target \<and> p_deletionTimestamp p = None)"
proof (cases "find (\<lambda>p. p_uid p = getPodUid target) pods")
  case None
  then have "\<forall>p \<in> set pods. p_uid p \<noteq> getPodUid target" by (simp add: find_None_iff)
  with None show ?thesis by (simp add: dead_ref_def setPodsStatus_map [OF assms])
next
  case (Some p)
  then have p: "p \<in> set pods" "p_uid p = getPodUid target" by (auto simp: find_Some_iff)
  have "q = p" if "q \<in> set pods" "p_uid q = getPodUid target" for q
    using that p assms inj_onD [of p_uid "set pods" q p] by (simp add: distinct_map)
  with p have "(\<exists>q \<in> set pods. p_uid q = getPodUid target \<and> p_deletionTimestamp q = None) \<longleftrightarrow> p_deletionTimestamp p = None"
    by blast
  with Some show ?thesis by (simp add: dead_ref_def setPodsStatus_map [OF assms])
qed

interpretation gone: poll_loop "\<lambda>n. wait_deleted n E name namespace" "GetPod E name namespace"
  "\<lambda>r. case r of Inr _ \<Rightarrow> None | Inl e \<Rightarrow> if IsNotFound e then Some (State_Monad.return True) else None"
  "\<lambda>r. case r of Inr _ \<Rightarrow> Sleep 500000 | Inl _ \<Rightarrow> State_Monad.return ()" "State_Monad.return False"
  for E name namespace
  by unfold_locales (auto intro!: arg_cong2 [where f = State_Monad.bind] split: sum.splits)

text \<open>The two ways the loop of \<^verbatim>\<open>podDeletedHandler\<close> ends early.\<close>

interpretation recreate: poll_loop "\<lambda>n. recreate_loop n E C pod sourcePath targets" "GetPod E (p_name pod) (p_namespace pod)"
  "\<lambda>r. case r of
       Inl e \<Rightarrow> Some (if IsNotFound e then do {
            umount_source E sourcePath;
            _ \<leftarrow> CreatePod E (Some (recreate_of E pod));
            State_Monad.return None
          } else State_Monad.return None)
     | Inr po \<Rightarrow> if p_deletionTimestamp po \<noteq> None then None
         else Some (do {
            _ \<leftarrow> UpdatePod E (Some (po\<lparr>p_annotations := Some (mputs targets (entries (p_annotations po)))\<rparr>));
            State_Monad.return None
          })"
  "\<lambda>_. Sleep 500000000"
  "State_Monad.return (Some (Errorf ''old pod %s %s can't be deleted within 1min'' [p_name pod, Namespace C] None))"
  for E C pod sourcePath targets
  by unfold_locales (auto intro!: arg_cong2 [where f = State_Monad.bind] split: sum.splits)

text \<open>An event that loses no reference of the pod: no deletion, and what is created or updated has all of them.\<close>

fun carries_refs :: "pod \<Rightarrow> event \<Rightarrow> bool" where
  "carries_refs pod (EvPodCreate p _) \<longleftrightarrow>
     p_name p = p_name pod \<and> p_namespace p = p_namespace pod \<and> p_labels p = p_labels pod \<and>
     p_annotations p = p_annotations pod \<and> p_spec p = p_spec pod \<and>
     Finalizer \<in> set (p_finalizers p) \<and> p_deletionTimestamp p = None"
| "carries_refs pod (EvPodUpdate p _) \<longleftrightarrow> ref_keys pod \<subseteq> ref_keys p"
| "carries_refs pod (EvPodDelete _ _ _) \<longleftrightarrow> False"
| "carries_refs pod _ \<longleftrightarrow> True"

lemma emits_umount_source:
  "emits (carries_refs pod) (umount_source E sourcePath)"
  unfolding umount_source_def doWithinTime_def doWithinTime_cmd_def
  by (intro emits_intros emits_call) (auto intro!: emits_intros simp: os_defs)

lemma carries_recreate:
  assumes "finalizers_documented E"
  shows "carries_refs pod (EvPodCreate (recreate_of E pod) r)"
  by (simp add: recreate_of_def add_finalizer_sel [OF assms])

lemma ref_keys_mputs:
  assumes "wf_map (entries (p_annotations pod))"
  shows "ref_keys pod \<subseteq> ref_keys (po\<lparr>p_annotations := Some (mputs (filter is_ref (entries (p_annotations pod))) m)\<rparr>)"
proof
  fix k
  assume "k \<in> ref_keys pod"
  then obtain v where v: "(k, v) \<in> set (entries (p_annotations pod))" "k = GetReferenceKey v"
    by (auto simp: ref_keys_def)
  let ?t = "filter is_ref (entries (p_annotations pod))"
  have wf: "wf_map ?t" using assms by simp
  have "map_of ?t k = Some v" using v wf by (auto simp: in_set_wf_map [symmetric] is_ref_def)
  then have "map_of (mputs ?t m) k = Some v" using wf by (simp add: map_of_mputs)
  then have "(k, v) \<in> set (mputs ?t m)" by (rule map_of_SomeD)
  with v show "k \<in> ref_keys (po\<lparr>p_annotations := Some (mputs ?t m)\<rparr>)" by (auto simp: ref_keys_def)
qed

lemma recreate_loop_carries:
  assumes "finalizers_documented E" "wf_map (entries (p_annotations pod))"
  shows "emits (carries_refs pod) (recreate_loop n E C pod sourcePath (filter is_ref (entries (p_annotations pod))))"
  using assms ref_keys_mputs [OF assms(2)] carries_recreate [OF assms(1)]
  by (intro recreate.loop_emits)
    (auto intro!: emits_intros emits_umount_source split: sum.splits if_splits)

lemma podDeletedHandler_carries:
  assumes "finalizers_documented E" "wf_map (entries (p_annotations pod))"
  shows "emits (carries_refs pod) (podDeletedHandler E C (Some pod))"
proof -
  let ?p = "x_remove_finalizer E pod Finalizer"
  have p: "p_annotations ?p = p_annotations pod" "p_name ?p = p_name pod" "p_namespace ?p = p_namespace pod"
    "p_labels ?p = p_labels pod" "p_spec ?p = p_spec pod"
    by (simp_all add: remove_finalizer_eq [OF assms(1)])
  have same: "carries_refs ?p = carries_refs pod"
    by (rule ext, rename_tac e, case_tac e) (simp_all add: p ref_keys_def)
  have loop: "emits (carries_refs pod) (recreate_loop n E C ?p sourcePath (filter is_ref a))"
    if "p_annotations ?p = Some a" for n sourcePath a
    using recreate_loop_carries [OF assms(1), of ?p n C sourcePath] assms(2) that by (simp add: same p)
  have "emits (carries_refs pod) (doWithinTime E (CleanupMountPoint E sourcePath))" for sourcePath
    by (auto simp: doWithinTime_def intro!: emits_intros)
  moreover have "carries_refs pod (EvPodUpdate ?p r)" for r by (simp add: ref_keys_def p)
  ultimately show ?thesis
    unfolding podDeletedHandler_def Let_def option.case
    by (intro emits_intros) (simp_all add: loop)
qed

text \<open>What the handler of a failed pod may send for it.\<close>

fun redeploys :: "pod \<Rightarrow> event \<Rightarrow> bool" where
  "redeploys pod (EvPodCreate p _) \<longleftrightarrow> IsPodResourceError pod \<and> IsPodHasResource pod \<and>
     \<not> IsPodHasResource p \<and> p_name p = p_name pod \<and> p_namespace p = p_namespace pod \<and>
     p_labels p = p_labels pod \<and> p_annotations p = p_annotations pod \<and>
     p_spec p = p_spec (DeleteResourceOfPod pod) \<and> Finalizer \<in> set (p_finalizers p)"
| "redeploys pod (EvPodUpdate p _) \<longleftrightarrow> IsPodResourceError pod \<and> IsPodHasResource pod \<and>
     p = pod\<lparr>p_finalizers := removeAll Finalizer (p_finalizers pod)\<rparr>"
| "redeploys pod (EvPodDelete ns n _) \<longleftrightarrow> IsPodResourceError pod \<and> IsPodHasResource pod \<and> named ns n pod"
| "redeploys pod _ \<longleftrightarrow> True"

lemma DeleteResourceOfPod_clears: "\<not> IsPodHasResource (DeleteResourceOfPod pod)"
  by (simp add: IsPodHasResource_def DeleteResourceOfPod_def list_ex_iff)

lemma DeleteResourceOfPod_sel [simp]:
  "p_name (DeleteResourceOfPod pod) = p_name pod" "p_namespace (DeleteResourceOfPod pod) = p_namespace pod"
  "p_labels (DeleteResourceOfPod pod) = p_labels pod" "p_annotations (DeleteResourceOfPod pod) = p_annotations pod"
  "p_finalizers (DeleteResourceOfPod pod) = p_finalizers pod"
  by (simp_all add: DeleteResourceOfPod_def)

lemma DeleteResourceOfPod_spec_cong:
  "p_spec p = p_spec q \<Longrightarrow> p_spec (DeleteResourceOfPod p) = p_spec (DeleteResourceOfPod q)"
  by (simp add: DeleteResourceOfPod_def)

lemma podErrorHandler_redeploys:
  assumes "finalizers_documented E"
  shows "emits (redeploys pod) (podErrorHandler E C (Some pod))"
proof -
  let ?p = "x_remove_finalizer E pod Finalizer"
  let ?new = "DeleteResourceOfPod (recreate_of E ?p)"
  have p: "?p = pod\<lparr>p_finalizers := removeAll Finalizer (p_finalizers pod)\<rparr>"
    by (rule remove_finalizer_eq [OF assms])
  have wait: "emits (redeploys pod) (wait_deleted n E name ns)" for n name ns
    by (rule gone.loop_emits) (auto intro!: emits_intros split: sum.splits if_splits)
  have spec: "p_spec ?new = p_spec (DeleteResourceOfPod pod)"
    by (rule DeleteResourceOfPod_spec_cong) (simp add: recreate_of_def add_finalizer_sel [OF assms] p)
  have new: "redeploys pod (EvPodCreate ?new r)" if "IsPodResourceError pod" "IsPodHasResource pod" for r
    using that spec
    by (simp add: DeleteResourceOfPod_clears recreate_of_def add_finalizer_sel [OF assms] p)
  show ?thesis
    unfolding podErrorHandler_def Let_def option.case
    by (intro emits_intros wait new) (simp_all add: p named_def)
qed

fun is_unmount :: "event \<Rightarrow> bool" where
  "is_unmount (EvUnmount _ _) = True"
| "is_unmount _ = False"

lemma umountTarget_n_count:
  "wp (umountTarget_n E target n) (\<lambda>_ s'. events_of is_unmount s' = events_of is_unmount s + n) s"
proof (induction n arbitrary: s)
  case (Suc n)
  let ?s = "s\<lparr>hist := EvUnmount target (m_unmount E (hist s) target) # hist s\<rparr>"
  have "events_of is_unmount ?s = Suc (events_of is_unmount s)" by (simp add: events_of_def)
  with Suc.IH [of ?s] show ?case by (simp add: wp_simps os_defs)
qed (simp add: wp_simps)

text \<open>Whether a target is mounted again, and how many of its layers are taken off before.\<close>

definition to_recover :: "targetItem \<Rightarrow> mountItem \<Rightarrow> bool" where
  "to_recover ti mi \<longleftrightarrow> ti_status ti = TargetCorrupt \<and> \<not> ti_inconsistent ti \<and> \<not> it_podDeleted mi"

definition unmount_count :: "targetItem \<Rightarrow> mountItem \<Rightarrow> nat" where
  "unmount_count ti mi =
     (if ti_status ti = TargetNotExist \<and> it_podDeleted mi then nat (ti_count ti)
      else if to_recover ti mi then nat (ti_count ti - 1) else 0)"

definition bind_source :: "string \<Rightarrow> targetItem \<Rightarrow> string" where
  "bind_source sourcePath ti = (if ti_subpath ti \<noteq> '''' then sourcePath @ ''/'' @ ti_subpath ti else sourcePath)"

fun recovers :: "string \<Rightarrow> targetItem \<Rightarrow> mountItem \<Rightarrow> event \<Rightarrow> bool" where
  "recovers src ti mi (EvMount source target fstype opts _) \<longleftrightarrow>
     to_recover ti mi \<and> source = bind_source src ti \<and> target = ti_target ti \<and> fstype = ''none'' \<and> opts = [''bind'']"
| "recovers src ti mi (EvUnmount target _) \<longleftrightarrow> target = ti_target ti \<and> unmount_count ti mi \<noteq> 0"
| "recovers src ti mi (EvStat path _) \<longleftrightarrow> to_recover ti mi \<and> path = bind_source src ti"
| "recovers src ti mi _ \<longleftrightarrow> False"

lemma emits_umountTarget_n: "(\<And>r. P (EvUnmount target r)) \<Longrightarrow> emits P (umountTarget_n E target n)"
  by (induction n) (auto intro!: emits_intros)

lemma recoverTarget_emits: "emits (recovers src ti mi) (recoverTarget E src ti mi)"
proof -
  have um: "emits (recovers src ti mi) (umountTarget E (ti_target ti) c)" if "nat c \<noteq> 0 \<longrightarrow> unmount_count ti mi \<noteq> 0" for c
  proof (cases "nat c")
    case 0
    then show ?thesis by (simp add: umountTarget_def emits_return)
  next
    case (Suc n)
    with that show ?thesis unfolding umountTarget_def by (intro emits_umountTarget_n) simp
  qed
  show ?thesis
    by (cases "ti_status ti")
      (auto simp: recoverTarget_def to_recover_def unmount_count_def bind_source_def Let_def intro!: emits_intros um)
qed

lemma recoverTarget_unmounts:
  "wp (recoverTarget E src ti mi) (\<lambda>_ s'. events_of is_unmount s' = events_of is_unmount s + unmount_count ti mi) s"
  by (cases "ti_status ti")
    (auto simp: recoverTarget_def unmount_count_def to_recover_def wp_simps umountTarget_def os_defs events_of_def Let_def
      intro!: wp_mono [OF umountTarget_n_count [unfolded events_of_def]] split: sum.splits)

text \<open>The newest accepted update among a run's events.\<close>

fun written :: "history \<Rightarrow> pod option" where
  "written [] = None"
| "written (EvPodUpdate p None # h) = Some p"
| "written (_ # h) = written h"

text \<open>A run on a pod that returns it as it last wrote it, or as it was when it wrote none.\<close>

definition synced :: "pod \<Rightarrow> pod \<Rightarrow> history \<Rightarrow> bool" where
  "synced pod pod' evs \<longleftrightarrow> (case written evs of None \<Rightarrow> pod' = pod | Some p \<Rightarrow> pod' = p)"

lemma written_append: "written (h @ h') = (case written h of None \<Rightarrow> written h' | Some p \<Rightarrow> Some p)"
  by (induction h rule: written.induct) auto

lemma synced_append: "synced p q h \<Longrightarrow> synced q r h' \<Longrightarrow> synced p r (h' @ h)"
  by (auto simp: synced_def written_append split: option.splits)

lemma synced_simps [simp]:
  "synced p q [] \<longleftrightarrow> q = p" "synced p q (EvPodUpdate p' None # h) \<longleftrightarrow> q = p'"
  "synced p q (EvPodDelete ns n r # h) = synced p q h" "synced p q (EvNow t # h) = synced p q h"
  "synced p q (EvLock i # h) = synced p q h" "synced p q (EvUnlock i # h) = synced p q h"
  by (simp_all add: synced_def)

lemma ShouldDelay_synced: "does (ShouldDelay E pod) (\<lambda>(delay, err, pod') evs. err = None \<longrightarrow> synced pod pod' evs)"
proof -
  have now: "does (Now E) (\<lambda>t evs. evs = [EvNow t])" unfolding Now_def by (rule does_call) simp
  have after: "does (GetTimeAfterDelay E d) (\<lambda>_ evs. written evs = None)" for d
    unfolding GetTimeAfterDelay_def by (auto intro!: does_bind [OF now] split: sum.splits simp: Let_def)
  show ?thesis
    unfolding ShouldDelay_def Let_def
    by (auto intro!: does_bind [OF after] does_bind [OF now] does_bind [OF does_UpdatePod] simp: synced_def split: option.splits sum.splits)
qed

lemma delete_if_due_synced: "does (delete_if_due E pod) (\<lambda>(err, pod') evs. err = None \<longrightarrow> synced pod pod' evs)"
proof -
  have del: "does (DeletePod E (Some p)) (\<lambda>r evs. evs = [EvPodDelete (p_namespace p) (p_name p) r])" for p
    unfolding DeletePod_def by (auto intro: does_call)
  show ?thesis
    unfolding delete_if_due_def
    by (intro does_bind [OF ShouldDelay_synced]) (auto intro!: does_bind [OF del] split: option.splits)
qed

lemma checkAnnotations_synced: "does (checkAnnotations E mit pod) (\<lambda>(err, pod') evs. err = None \<longrightarrow> synced pod pod' evs)"
proof -
  have em: "does (emit e) (\<lambda>_ evs. evs = [e])" for e by (simp add: does_def wp_simps)
  have "does (if length (entries (p_annotations pod)) \<noteq> length annotation then do {
            let pod1 = pod\<lparr>p_annotations := Some annotation\<rparr>;
            err \<leftarrow> UpdatePod E (Some pod1);
            State_Monad.return (err, pod1)
          }
          else State_Monad.return (None, pod)) (\<lambda>(err, pod') evs. err = None \<longrightarrow> synced pod pod' evs)" for annotation
    by (auto simp: Let_def intro!: does_bind [OF does_UpdatePod])
  note upd = does_bind [OF this]
  have del: "does (delete_if_due E p1) (\<lambda>(err, p2) evs'. err = None \<longrightarrow> synced pod p2 (evs' @ evs))" if "synced pod p1 evs" for p1 evs
    by (rule does_mono [OF delete_if_due_synced]) (use that in \<open>auto intro: synced_append\<close>)
  note del = does_mono [OF del]
  show ?thesis
    unfolding checkAnnotations_def with_lock_def
    apply (rule does_bind [OF em])
    apply (rule does_bind [where P = "\<lambda>(err, pod') evs. err = None \<longrightarrow> synced pod pod' evs"])
    subgoal unfolding Let_def by (rule upd [unfolded Let_def]) (auto intro!: del split: option.splits)
    subgoal by (auto intro!: does_bind [OF em] simp: synced_def written_append split: option.splits)
    done
qed

section \<open>Properties\<close>

text \<open>
  C18: a successful \<^verbatim>\<open>checkAnnotations\<close> leaves the pod with exactly the annotations that are no dead reference
  (the deadline's annotation apart), and with no deadline while a live reference remains; and this is the pod of its last update
  that the API server accepted, or the pod it was given when it sent none.
\<close>

theorem checkAnnotations_keeps_live:
  assumes "wf_map (entries (p_annotations pod))"
    and "run_state (checkAnnotations E mit pod) s = ((None, pod'), s')"
  shows "(\<forall>k. k \<noteq> DeleteDelayAtKey \<longrightarrow>
      map_of (entries (p_annotations pod')) k =
        (case map_of (entries (p_annotations pod)) k of
           None \<Rightarrow> None | Some v \<Rightarrow> if dead_ref mit (k, v) then None else Some v)) \<and>
    (live_targets mit (entries (p_annotations pod)) \<noteq> 0 \<longrightarrow> \<not> mhas (entries (p_annotations pod')) DeleteDelayAtKey) \<and>
    (\<exists>evs. hist s' = evs @ hist s \<and> (case written evs of None \<Rightarrow> pod' = pod | Some p \<Rightarrow> pod' = p))"
proof -
  obtain evs where "hist s' = evs @ hist s" "synced pod pod' evs" using does_run [OF checkAnnotations_synced assms(2)] by auto
  with checkAnnotations_result [OF assms] show ?thesis unfolding synced_def by blast
qed

theorem checkAnnotations_keeps_live_witness:
  "map_of (entries (p_annotations (snd (fst (run_state (checkAnnotations (sim_env []) newMountInfoTable
      (sim_mount_pod\<lparr>p_annotations := Some [(GetReferenceKey ''/a'', ''/a'')]\<rparr>)) sim_state)))))
     (GetReferenceKey ''/a'') = None"
proof -
  let ?p = "sim_mount_pod\<lparr>p_annotations := Some [(GetReferenceKey ''/a'', ''/a'')]\<rparr>"
  let ?r = "run_state (checkAnnotations (sim_env []) newMountInfoTable ?p) sim_state"
  have dead: "dead_ref newMountInfoTable (GetReferenceKey ''/a'', ''/a'')"
    by (simp add: dead_ref_def newMountInfoTable_def)
  have "fst (fst ?r) = None"
    by (simp add: checkAnnotations_def live_annotations_def live_targets_def delete_if_due_def ShouldDelay_def
        client_defs sim_env_def sim_mount_pod_def Let_def dead)
  then have "?r = ((None, snd (fst ?r)), snd ?r)" by (simp add: prod_eq_iff)
  from checkAnnotations_keeps_live [OF _ this] dead show ?thesis by simp
qed

text \<open>
  C14: \<^verbatim>\<open>checkAnnotations\<close> sends no deletion for a pod that has a live reference or is already being deleted,
  whatever the environment answers.
\<close>

theorem checkAnnotations_never_deletes_live:
  assumes "live_targets mit (entries (p_annotations pod)) \<noteq> 0 \<or> p_deletionTimestamp pod \<noteq> None"
  shows "emits (\<lambda>e. \<not> is_delete e) (checkAnnotations E mit pod)"
  using checkAnnotations_live_no_delete [OF assms] .

theorem checkAnnotations_never_deletes_live_witness:
  "emits (\<lambda>e. \<not> is_delete e) (checkAnnotations (sim_env []) \<lparr>mit_mis = [], mit_deletedPods = [(getPodUid ''/a'', False)]\<rparr>
     (sim_mount_pod\<lparr>p_annotations := Some [(GetReferenceKey ''/a'', ''/a'')]\<rparr>))"
  by (rule checkAnnotations_never_deletes_live) (simp add: live_targets_def dead_ref_def is_ref_def)

text \<open>
  C19: after the round has entered the kubelet's list of pods, a reference counts as dead exactly when no pod of the
  list has the UID of its target path and is not being deleted.
\<close>

theorem dead_reference_iff_pod_gone:
  assumes "distinct (map p_uid pods)"
  shows "dead_ref (setPodsStatus mit (Some pods)) (GetReferenceKey target, target) \<longleftrightarrow>
     \<not> (\<exists>p \<in> set pods. p_uid p = getPodUid target \<and> p_deletionTimestamp p = None)"
  using dead_ref_after_listing [OF assms] .

theorem dead_reference_iff_pod_gone_witness:
  "\<not> dead_ref (setPodsStatus newMountInfoTable (Some [sim_mount_pod\<lparr>p_uid := getPodUid ''/a''\<rparr>]))
     (GetReferenceKey ''/a'', ''/a'')"
  using dead_reference_iff_pod_gone [of "[sim_mount_pod\<lparr>p_uid := getPodUid ''/a''\<rparr>]" newMountInfoTable "''/a''"]
  by (simp add: sim_mount_pod_def)

text \<open>
  \<^verbatim>\<open>podDeletedHandler\<close> never deletes a pod; the pod it creates has the name, labels, annotations and
  specification of the deleted one and the driver's finalizer, and every pod it updates
  keeps all references of the deleted pod.
\<close>

theorem podDeletedHandler_keeps_references:
  assumes "finalizers_documented E" "wf_map (entries (p_annotations pod))"
  shows "emits (carries_refs pod) (podDeletedHandler E C (Some pod))"
  using podDeletedHandler_carries [OF assms] .

theorem podDeletedHandler_keeps_references_witness:
  "emits (carries_refs sim_mount_pod) (podDeletedHandler (sim_env []) sim_config (Some sim_mount_pod))"
  by (rule podDeletedHandler_keeps_references) (simp_all add: sim_mount_pod_def)

text \<open>
  \<^verbatim>\<open>podErrorHandler\<close> acts only on a pod that failed for want of resources and has resource requests; it deletes
  only that pod, and the pod it creates instead has its name, labels and annotations, the driver's
  finalizer and no resource requests, so that the handler does not act on it again.
\<close>

theorem podErrorHandler_redeploys_without_resources:
  assumes "finalizers_documented E"
  shows "emits (redeploys pod) (podErrorHandler E C (Some pod))"
  using podErrorHandler_redeploys [OF assms] .

theorem podErrorHandler_redeploys_without_resources_witness:
  "emits (redeploys sim_mount_pod) (podErrorHandler (sim_env []) sim_config (Some sim_mount_pod))"
  by (rule podErrorHandler_redeploys_without_resources) simp

text \<open>
  C20: \<^verbatim>\<open>recoverTarget\<close> binds a target again only when it is corrupted, its sources agree and its pod is not
  being deleted, from the source path with the subpath and to that target only; it takes off all layers of a target that
  is gone while its pod is being deleted, all but one of a target it recovers, and none else.
\<close>

theorem recoverTarget_guarded:
  "emits (recovers sourcePath ti mi) (recoverTarget E sourcePath ti mi) \<and>
   events_of is_unmount (snd (run_state (recoverTarget E sourcePath ti mi) s)) =
     events_of is_unmount s + unmount_count ti mi"
  using recoverTarget_emits recoverTarget_unmounts [of E sourcePath ti mi s] by (simp add: wp_def split_beta)

end
