(* ===== verification/PodLocks.thy ===== *)
theory PodLocks
  imports MntInterface PodDriver
begin

text \<open>
  The pod locks of pkg/config (\<^verbatim>\<open>GetPodLock\<close>) under concurrency: goroutines that serve requests or reconcile pods, interleaved by
  any scheduler. The locks exclude concurrent writes of a pod and never deadlock. \<^verbatim>\<open>podDeletedHandler\<close> and
  \<^verbatim>\<open>podReadyHandler\<close> are not among them: the former removes the finalizer before it takes the lock.
\<close>

section \<open>Writes under the lock\<close>

fun is_lock :: "event \<Rightarrow> bool" where
  "is_lock (EvLock _) = True"
| "is_lock (EvUnlock _) = True"
| "is_lock _ = False"

fun pod_write :: "event \<Rightarrow> bool" where
  "pod_write (EvPodCreate _ _) = True"
| "pod_write (EvPodUpdate _ _) = True"
| "pod_write (EvPodDelete _ _ _) = True"
| "pod_write (EvPodPatch _ _ _ _) = True"
| "pod_write _ = False"

text \<open>
  A list of events, first one first, of a goroutine that takes and returns one lock only, writes pods only while it has the
  lock, and does not have it at the end.
\<close>

fun guarded :: "nat \<Rightarrow> bool \<Rightarrow> event list \<Rightarrow> bool" where
  "guarded i held [] \<longleftrightarrow> \<not> held"
| "guarded i held (e # es) \<longleftrightarrow>
     (case e of
        EvLock j \<Rightarrow> \<not> held \<and> j = i \<and> guarded i True es
      | EvUnlock j \<Rightarrow> held \<and> j = i \<and> guarded i False es
      | _ \<Rightarrow> (pod_write e \<longrightarrow> held) \<and> guarded i held es)"

lemma guarded_other: "\<not> is_lock e \<Longrightarrow> guarded i held (e # es) \<longleftrightarrow> (pod_write e \<longrightarrow> held) \<and> guarded i held es"
  by (cases e) simp_all

lemma guarded_lock [simp]:
  "guarded i held (EvLock j # es) \<longleftrightarrow> \<not> held \<and> j = i \<and> guarded i True es"
  "guarded i held (EvUnlock j # es) \<longleftrightarrow> held \<and> j = i \<and> guarded i False es"
  by simp_all

declare guarded.simps(2) [simp del]

lemma guarded_quiet:
  "\<forall>e \<in> set xs. \<not> is_lock e \<and> (pod_write e \<longrightarrow> held) \<Longrightarrow> guarded i held (xs @ ys) \<longleftrightarrow> guarded i held ys"
  by (induction xs) (auto simp: guarded_other)

lemma guarded_append: "guarded i held xs \<Longrightarrow> guarded i False ys \<Longrightarrow> guarded i held (xs @ ys)"
proof (induction xs arbitrary: held)
  case (Cons e xs)
  show ?case
  proof (cases "is_lock e")
    case True
    then show ?thesis using Cons by (cases e) auto
  next
    case False
    then show ?thesis using Cons by (auto simp: guarded_other)
  qed
qed simp

text \<open>Every run of a program is guarded by lock \<open>i\<close>.\<close>

definition runs_guarded :: "nat \<Rightarrow> 'a prog \<Rightarrow> bool" where
  "runs_guarded i m \<longleftrightarrow> (\<forall>s. \<exists>evs. hist (snd (run_state m s)) = rev evs @ hist s \<and> guarded i False evs)"

lemma emits_run:
  assumes "emits P m"
  obtains evs where "hist (snd (run_state m s)) = rev evs @ hist s" "\<forall>e \<in> set evs. P e"
proof -
  obtain evs where "hist (snd (run_state m s)) = evs @ hist s" "\<forall>e \<in> set evs. P e"
    using emitsD [OF assms surjective_pairing [of "run_state m s"]] by blast
  then show thesis using that [of "rev evs"] by simp
qed

lemma runs_guarded_quiet:
  assumes "emits (\<lambda>e. \<not> is_lock e \<and> \<not> pod_write e) m"
  shows "runs_guarded i m"
  unfolding runs_guarded_def
proof
  fix s
  obtain evs where "hist (snd (run_state m s)) = rev evs @ hist s" "\<forall>e \<in> set evs. \<not> is_lock e \<and> \<not> pod_write e"
    using emits_run [OF assms] .
  then show "\<exists>evs. hist (snd (run_state m s)) = rev evs @ hist s \<and> guarded i False evs"
    using guarded_quiet [of evs False i "[]"] by auto
qed

lemma runs_guarded_with_lock:
  assumes "emits (\<lambda>e. \<not> is_lock e) m"
  shows "runs_guarded i (with_lock i m)"
  unfolding runs_guarded_def
proof
  fix s :: gst
  let ?s = "s\<lparr>hist := EvLock i # hist s\<rparr>"
  obtain evs where evs: "hist (snd (run_state m ?s)) = rev evs @ hist ?s" "\<forall>e \<in> set evs. \<not> is_lock e"
    using emits_run [OF assms] .
  have "hist (snd (run_state (with_lock i m) s)) = rev (EvLock i # evs @ [EvUnlock i]) @ hist s"
    using evs(1) by (simp add: split_beta)
  moreover have "guarded i False (EvLock i # evs @ [EvUnlock i])"
    using guarded_quiet [of evs True i "[EvUnlock i]"] evs(2) by simp
  ultimately show "\<exists>evs. hist (snd (run_state (with_lock i m) s)) = rev evs @ hist s \<and> guarded i False evs" by blast
qed

lemma runs_guarded_bind:
  assumes "runs_guarded i m" "\<And>a. runs_guarded i (f a)"
  shows "runs_guarded i (State_Monad.bind m f)"
  unfolding runs_guarded_def
proof
  fix s
  obtain a s' where m: "run_state m s = (a, s')" by fastforce
  obtain xs where xs: "hist s' = rev xs @ hist s" "guarded i False xs" using assms(1) m unfolding runs_guarded_def by (metis snd_conv)
  obtain ys where ys: "hist (snd (run_state (f a) s')) = rev ys @ hist s'" "guarded i False ys"
    using assms(2) [of a] unfolding runs_guarded_def by blast
  show "\<exists>evs. hist (snd (run_state (State_Monad.bind m f) s)) = rev evs @ hist s \<and> guarded i False evs"
    using m xs ys guarded_append [OF xs(2) ys(2)] by (intro exI [of _ "xs @ ys"]) simp
qed

lemma runs_guarded_bindO:
  "runs_guarded i m \<Longrightarrow> (\<And>v. runs_guarded i (f v)) \<Longrightarrow> runs_guarded i (bindO m f)"
  unfolding bindO_def
  by (rule runs_guarded_bind) (auto intro: runs_guarded_quiet emits_return split: outcome.split)

lemma createOrAddRef_unlocked:
  assumes "retry_documented E"
  shows "emits (\<lambda>e. \<not> is_lock e) (createOrAddRef_loop n E C js podName sec)"
proof (rule create.loop_emits)
  have sec: "emits (\<lambda>e. \<not> is_lock e) (createOrUpdateSecret E C x)" for x
    unfolding createOrUpdateSecret_def using assms by (auto simp: client_defs intro!: emits_intros split: sum.splits)
  have "emits (\<lambda>e. \<not> is_lock e) (AddRefOfMount E C t podName)" for t
    unfolding AddRefOfMount_def Let_def using assms by (auto intro!: emits_intros)
  moreover have "emits (\<lambda>e. \<not> is_lock e) (NewMountPod E C js podName)"
    unfolding NewMountPod_def parsePodResources_def put_limit_def put_request_def generateJuicePod_def
    by (auto simp: os_defs Let_def split_beta intro!: emits_intros split: option.splits)
  ultimately show "emits (\<lambda>e. \<not> is_lock e) m" if
    "(case r of Inl e \<Rightarrow> Some (if IsNotFound e then create_pod E C js podName sec else State_Monad.return (Err e))
      | Inr oldPod \<Rightarrow> if p_deletionTimestamp oldPod \<noteq> None then None else Some (add_to_pod E C js podName sec oldPod)) = Some m" for r m
    using that sec unfolding create_pod_def add_to_pod_def Let_def
    by (auto intro!: emits_intros split: sum.splits if_splits)
qed (auto intro!: emits_intros)

lemma JMount_guarded:
  assumes "retry_documented E"
  shows "runs_guarded (GetPodLock (GenerateNameByVolumeId C (js_VolumeId js))) (JMount E C js)"
  unfolding JMount_def createOrAddRef_def Let_def
proof (intro runs_guarded_bindO runs_guarded_with_lock createOrAddRef_unlocked assms)
  show "runs_guarded i (waitUtilPodReady E C podName \<bind> (\<lambda>err. State_Monad.return (of_err err)))" for i podName
    by (intro runs_guarded_quiet emits_bind emits_return, unfold waitUtilPodReady_def, rule emits_mono [OF waitUtilPodReady_reads]) auto
qed

lemma JUmount_guarded:
  assumes "retry_documented E"
  shows "runs_guarded (GetPodLock (GenerateNameByVolumeId C volumeId)) (JUmount E C volumeId target)"
  unfolding JUmount_def Let_def
  by (rule runs_guarded_with_lock)
    (unfold removeRef_def release_pod_def deleteMountPod_def ShouldDelay_def GetTimeAfterDelay_def Let_def,
     intro emits_intros assms; simp add: client_defs emits_call split: option.splits)

lemma ShouldDelay_unlocked: "emits (\<lambda>e. \<not> is_lock e) (ShouldDelay E p)"
  unfolding ShouldDelay_def GetTimeAfterDelay_def Let_def
  by (intro emits_intros; simp add: client_defs emits_call split: option.splits)

lemma checkAnnotations_guarded: "runs_guarded (GetPodLock (p_name pod)) (checkAnnotations E mit pod)"
  unfolding checkAnnotations_def delete_if_due_def Let_def
  by (intro runs_guarded_with_lock emits_intros ShouldDelay_unlocked; simp)

lemma podErrorHandler_guarded: "runs_guarded (GetPodLock (p_name pod)) (podErrorHandler E C (Some pod))"
proof -
  have "emits (\<lambda>e. \<not> is_lock e) (wait_deleted n E name ns)" for n name ns
    by (induction n) (auto intro!: emits_intros)
  then show ?thesis
    unfolding podErrorHandler_def Let_def option.case
    by (intro runs_guarded_with_lock emits_intros; simp)
qed

section \<open>Goroutines\<close>

text \<open>
  The requests served at the same time: who has which lock, and what each goroutine still has to do. A goroutine at
  a \<^verbatim>\<open>Lock\<close> waits until the lock is free; \<^verbatim>\<open>Unlock\<close> frees it whoever took it, as \<^verbatim>\<open>sync.Mutex\<close> does.
\<close>

record sched_state =
  owner :: "nat \<Rightarrow> nat option"
  todo :: "nat \<Rightarrow> event list"

inductive sched :: "sched_state \<Rightarrow> nat \<Rightarrow> event \<Rightarrow> sched_state \<Rightarrow> bool" where
  acquire: "todo c t = EvLock i # es \<Longrightarrow> owner c i = None \<Longrightarrow>
    sched c t (EvLock i) (c\<lparr>owner := (owner c)(i := Some t), todo := (todo c)(t := es)\<rparr>)"
| free: "todo c t = EvUnlock i # es \<Longrightarrow> owner c i \<noteq> None \<Longrightarrow>
    sched c t (EvUnlock i) (c\<lparr>owner := (owner c)(i := None), todo := (todo c)(t := es)\<rparr>)"
| other: "todo c t = e # es \<Longrightarrow> \<not> is_lock e \<Longrightarrow> sched c t e (c\<lparr>todo := (todo c)(t := es)\<rparr>)"

inductive_cases schedE: "sched c t e c'"

abbreviation some_step :: "sched_state \<Rightarrow> sched_state \<Rightarrow> bool" where
  "some_step c c' \<equiv> \<exists>t e. sched c t e c'"

lemma sched_todo: "sched c t e c' \<Longrightarrow> \<exists>es. todo c t = e # es \<and> todo c' = (todo c)(t := es)"
  by (auto elim!: schedE)

inductive execution :: "(nat \<Rightarrow> event list) \<Rightarrow> sched_state \<Rightarrow> bool" for td where
  begin_exec: "execution td \<lparr>owner = \<lambda>_. None, todo = td\<rparr>"
| step_exec: "execution td c \<Longrightarrow> sched c t e c' \<Longrightarrow> execution td c'"

text \<open>The invariant: a goroutine has exactly the lock its remaining events say it has, and no lock is held by anyone else.\<close>

definition lock_inv :: "(nat \<Rightarrow> nat) \<Rightarrow> sched_state \<Rightarrow> bool" where
  "lock_inv lk c \<longleftrightarrow> (\<forall>t. guarded (lk t) (owner c (lk t) = Some t) (todo c t)) \<and>
     (\<forall>i t. owner c i = Some t \<longrightarrow> lk t = i)"

lemma lock_inv_free: "lock_inv lk c \<Longrightarrow> owner c (lk t) \<noteq> Some t \<Longrightarrow> guarded (lk t) False (todo c t)"
  unfolding lock_inv_def by (metis (full_types))

lemma lock_inv_step:
  assumes "lock_inv lk c" "sched c t e c'"
  shows "lock_inv lk c'"
  using assms(2,1)
proof (induction rule: sched.induct)
  case (acquire c t i es)
  then have "guarded (lk t) (owner c (lk t) = Some t) (EvLock i # es)" unfolding lock_inv_def by metis
  then have "lk t = i" "guarded i True es" by auto
  moreover have "guarded (lk t') False (todo c t')" if "lk t' = i" for t'
    by (rule lock_inv_free [OF acquire.prems]) (simp add: that acquire.hyps(2))
  ultimately show ?case using acquire by (auto simp: lock_inv_def)
next
  case (free c t i es)
  then have "guarded (lk t) (owner c (lk t) = Some t) (EvUnlock i # es)" unfolding lock_inv_def by metis
  then have "lk t = i" "owner c i = Some t" "guarded i False es" by auto
  moreover from this have "guarded (lk t') False (todo c t')" if "lk t' = i" "t' \<noteq> t" for t'
    by (intro lock_inv_free [OF free.prems]) (use that in auto)
  ultimately show ?case using free by (auto simp: lock_inv_def)
next
  case (other c t e es)
  then have "guarded (lk t) (owner c (lk t) = Some t) (e # es)" unfolding lock_inv_def by metis
  with other have "guarded (lk t) (owner c (lk t) = Some t) es" by (simp add: guarded_other)
  with other show ?case by (auto simp: lock_inv_def)
qed

lemma lock_inv_execution:
  assumes "execution td c" "\<And>t. guarded (lk t) False (td t)"
  shows "lock_inv lk c"
  using assms(1)
proof (induction rule: execution.induct)
  case begin_exec
  show ?case using assms(2) by (simp add: lock_inv_def)
next
  case (step_exec c t e c')
  then show ?case using lock_inv_step by blast
qed

lemma write_has_lock:
  assumes "lock_inv lk c" "todo c t = e # es" "pod_write e"
  shows "owner c (lk t) = Some t"
proof -
  have "guarded (lk t) (owner c (lk t) = Some t) (e # es)" using assms(1,2) unfolding lock_inv_def by metis
  moreover have "\<not> is_lock e" using assms(3) by (cases e) auto
  ultimately show ?thesis using assms(3) by (simp add: guarded_other)
qed

text \<open>A goroutine that holds a lock is not waiting for one.\<close>

lemma holder_moves:
  assumes "lock_inv lk c" "owner c i = Some t"
  shows "\<exists>e c'. sched c t e c'"
proof -
  from assms have g: "guarded i True (todo c t)" unfolding lock_inv_def by metis
  then obtain e es where td: "todo c t = e # es" by (cases "todo c t") auto
  show ?thesis
  proof (cases "is_lock e")
    case True
    with g td obtain "e = EvUnlock i" by (cases e) auto
    with td assms(2) show ?thesis by (blast intro: sched.free)
  next
    case False
    with td show ?thesis by (blast intro: sched.other)
  qed
qed

lemma lock_inv_progress:
  assumes "lock_inv lk c" "todo c t \<noteq> []"
  shows "\<exists>t e c'. sched c t e c'"
proof -
  obtain e es where td: "todo c t = e # es" using assms(2) by (cases "todo c t") auto
  show ?thesis
  proof (cases "is_lock e")
    case False
    with td show ?thesis by (blast intro: sched.other)
  next
    case True
    have "guarded (lk t) (owner c (lk t) = Some t) (e # es)" using assms(1) td unfolding lock_inv_def by metis
    show ?thesis
    proof (cases "owner c (lk t)")
      case (Some t')
      then show ?thesis using holder_moves [OF assms(1)] by blast
    next
      case None
      with True \<open>guarded _ _ (e # es)\<close> have "e = EvLock (lk t)" by (cases e) auto
      with td None show ?thesis by (blast intro: sched.acquire)
    qed
  qed
qed

text \<open>
  A goroutine at work on the mount pod named \<open>n\<close>: the node service mounts or unmounts the pod's volume, or the
  reconciler checks its annotations or handles its error, in any environment and from any state.
\<close>

inductive serves :: "config \<Rightarrow> string \<Rightarrow> event list \<Rightarrow> bool" for C where
  idle: "serves C n []"
| mount: "retry_documented E \<Longrightarrow>
    hist (snd (run_state (JMount E C js) s)) = rev evs @ hist s \<Longrightarrow> serves C (GenerateNameByVolumeId C (js_VolumeId js)) evs"
| umount: "retry_documented E \<Longrightarrow>
    hist (snd (run_state (JUmount E C v target) s)) = rev evs @ hist s \<Longrightarrow> serves C (GenerateNameByVolumeId C v) evs"
| check: "hist (snd (run_state (checkAnnotations E mit pod) s)) = rev evs @ hist s \<Longrightarrow> serves C (p_name pod) evs"
| failed: "hist (snd (run_state (podErrorHandler E C (Some pod)) s)) = rev evs @ hist s \<Longrightarrow> serves C (p_name pod) evs"

lemma runs_guardedD:
  assumes "runs_guarded i m" "hist (snd (run_state m s)) = rev evs @ hist s"
  shows "guarded i False evs"
proof -
  obtain evs' where "hist (snd (run_state m s)) = rev evs' @ hist s" "guarded i False evs'"
    using assms(1) unfolding runs_guarded_def by blast
  with assms(2) show ?thesis by simp
qed

lemma serves_guarded: "serves C n evs \<Longrightarrow> guarded (GetPodLock n) False evs"
proof (induction rule: serves.induct)
  case (mount E js s evs)
  show ?case by (rule runs_guardedD [OF JMount_guarded [OF mount.hyps(1)] mount.hyps(2)])
next
  case (umount E v target s evs)
  show ?case by (rule runs_guardedD [OF JUmount_guarded [OF umount.hyps(1)] umount.hyps(2)])
next
  case (check E mit pod s evs)
  show ?case by (rule runs_guardedD [OF checkAnnotations_guarded check.hyps])
next
  case (failed E pod s evs)
  show ?case by (rule runs_guardedD [OF podErrorHandler_guarded failed.hyps])
qed simp

lemma serving_inv:
  assumes "\<And>t. serves C (pod t) (td t)" "execution td c"
  shows "lock_inv (\<lambda>t. GetPodLock (pod t)) c"
  by (rule lock_inv_execution [OF assms(2)], rule serves_guarded [OF assms(1)])


text \<open>Every step makes the work left smaller.\<close>

definition work_left :: "sched_state \<Rightarrow> nat" where
  "work_left c = (\<Sum>t | todo c t \<noteq> []. length (todo c t))"

lemma work_left_step:
  assumes "sched c t e c'" "finite {t. todo c t \<noteq> []}"
  shows "work_left c' < work_left c \<and> finite {t. todo c' t \<noteq> []}"
proof -
  obtain es where es: "todo c t = e # es" "todo c' = (todo c)(t := es)" using sched_todo [OF assms(1)] by blast
  let ?T = "{t. todo c t \<noteq> []}"
  have sub: "{t. todo c' t \<noteq> []} \<subseteq> ?T" using es by (auto split: if_splits)
  have "work_left c' = (\<Sum>t \<in> ?T. length (todo c' t))"
    unfolding work_left_def by (rule sum.mono_neutral_left [OF assms(2) sub]) auto
  also have "\<dots> < (\<Sum>t \<in> ?T. length (todo c t))"
    by (rule sum_strict_mono_ex1 [OF assms(2)]) (use es in \<open>auto intro!: bexI [of _ t]\<close>)
  finally show ?thesis using finite_subset [OF sub assms(2)] by (simp add: work_left_def)
qed

lemma lock_inv_completes:
  assumes "lock_inv lk c" "finite {t. todo c t \<noteq> []}"
  shows "\<exists>c'. some_step\<^sup>*\<^sup>* c c' \<and> (\<forall>t. todo c' t = [])"
  using assms
proof (induction "work_left c" arbitrary: c rule: less_induct)
  case less
  show ?case
  proof (cases "\<forall>t. todo c t = []")
    case False
    then obtain t e c1 where step: "sched c t e c1" using lock_inv_progress [OF less.prems(1)] by blast
    from less.hyps work_left_step [OF step less.prems(2)] lock_inv_step [OF less.prems(1) step]
    obtain c' where "some_step\<^sup>*\<^sup>* c1 c'" "\<forall>t. todo c' t = []" by blast
    moreover have "some_step c c1" using step by blast
    ultimately show ?thesis using converse_rtranclp_into_rtranclp [of some_step c c1 c'] by blast
  qed blast
qed

lemma execution_finite:
  "execution td c \<Longrightarrow> finite {t. td t \<noteq> []} \<Longrightarrow> finite {t. todo c t \<noteq> []}"
  by (induction rule: execution.induct) (use work_left_step in auto)

text \<open>
  C11: requests never deadlock on the pod locks: from every state that finitely many requests served at the same
  time can reach, all of them can be brought to their end, and each step of any goroutine brings them nearer to it.
\<close>

theorem requests_never_deadlock:
  assumes "\<And>t. serves C (pod t) (td t)" "finite {t. td t \<noteq> []}" "execution td c"
  shows "(\<exists>c'. some_step\<^sup>*\<^sup>* c c' \<and> (\<forall>t. todo c' t = [])) \<and>
     (\<forall>t e c'. sched c t e c' \<longrightarrow> work_left c' < work_left c)"
proof -
  have fin: "finite {t. todo c t \<noteq> []}" using execution_finite [OF assms(3,2)] .
  have "lock_inv (\<lambda>t. GetPodLock (pod t)) c" by (rule serving_inv [OF assms(1,3)])
  then show ?thesis using lock_inv_completes [OF _ fin] work_left_step [OF _ fin] by blast
qed

definition sim_ref_pod :: pod where
  "sim_ref_pod = sim_mount_pod\<lparr>p_annotations := Some [(GetReferenceKey ''/b'', ''/b'')]\<rparr>"

definition sim_refusing_env :: env where
  "sim_refusing_env = (sim_env [sim_ref_pod])\<lparr>k_pod_update := \<lambda>h p. Some (ApiError NotFound)\<rparr>"

text \<open>An unmount whose update of the pod is refused: it takes the lock, reads twice, writes and returns the lock.\<close>

definition sim_events :: "nat \<Rightarrow> event list" where
  "sim_events t = (let i = GetPodLock ''juicefs-node-pvc'' in
     if t = 0 then [EvLock i, EvPodGet ''kube-system'' ''juicefs-node-pvc'' (Inr sim_ref_pod),
        EvPodGet ''kube-system'' ''juicefs-node-pvc'' (Inr sim_ref_pod),
        EvPodUpdate (remove_ref ''/b'' sim_ref_pod) (Some (ApiError NotFound)), EvUnlock i]
     else [])"

lemma sim_serves: "serves sim_config ''juicefs-node-pvc'' (sim_events t)"
proof (cases "t = 0")
  case True
  have "retry_documented sim_refusing_env"
    using sim_retry [of "[sim_ref_pod]"] by (simp add: sim_refusing_env_def retry_documented_def)
  moreover have "hist (snd (run_state (JUmount sim_refusing_env sim_config ''pvc'' ''/b'') sim_state)) = rev (sim_events 0) @ hist sim_state"
    by (simp add: pod_mount_defs sim_run_defs sim_refusing_env_def sim_ref_pod_def sim_events_def pod_at_keeps mhas_def Let_def)
  ultimately have "serves sim_config (GenerateNameByVolumeId sim_config ''pvc'') (sim_events 0)" by (rule serves.umount)
  with True show ?thesis by (simp add: GenerateNameByVolumeId_def sim_config_def)
qed (simp add: sim_events_def serves.idle)

lemma sim_execution:
  obtains c where "execution sim_events c"
    "todo c 0 = [EvPodUpdate (remove_ref ''/b'' sim_ref_pod) (Some (ApiError NotFound)), EvUnlock (GetPodLock ''juicefs-node-pvc'')]"
proof -
  let ?i = "GetPodLock ''juicefs-node-pvc''"
  let ?c0 = "\<lparr>owner = \<lambda>_. None, todo = sim_events\<rparr>"
  let ?r = "EvPodGet ''kube-system'' ''juicefs-node-pvc'' (Inr sim_ref_pod)"
  let ?w = "EvPodUpdate (remove_ref ''/b'' sim_ref_pod) (Some (ApiError NotFound))"
  let ?c1 = "?c0\<lparr>owner := (owner ?c0)(?i := Some 0), todo := (todo ?c0)(0 := [?r, ?r, ?w, EvUnlock ?i])\<rparr>"
  let ?c2 = "?c1\<lparr>todo := (todo ?c1)(0 := [?r, ?w, EvUnlock ?i])\<rparr>"
  let ?c3 = "?c2\<lparr>todo := (todo ?c2)(0 := [?w, EvUnlock ?i])\<rparr>"
  have "execution sim_events ?c0" by (rule execution.begin_exec)
  moreover have "sched ?c0 0 (EvLock ?i) ?c1" by (rule sched.acquire) (simp_all add: sim_events_def Let_def)
  moreover have "sched ?c1 0 ?r ?c2" by (rule sched.other) simp_all
  moreover have "sched ?c2 0 ?r ?c3" by (rule sched.other) simp_all
  ultimately have "execution sim_events ?c3" by (meson execution.step_exec)
  then show thesis by (rule that) simp
qed


theorem requests_never_deadlock_witness:
  "\<exists>c c'. execution sim_events c \<and> todo c 0 \<noteq> [] \<and> some_step\<^sup>*\<^sup>* c c' \<and> (\<forall>t. todo c' t = [])"
proof -
  obtain c where c: "execution sim_events c"
    "todo c 0 = [EvPodUpdate (remove_ref ''/b'' sim_ref_pod) (Some (ApiError NotFound)), EvUnlock (GetPodLock ''juicefs-node-pvc'')]"
    by (rule sim_execution)
  have "{t. sim_events t \<noteq> []} \<subseteq> {0}" by (auto simp: sim_events_def Let_def)
  then have "finite {t. sim_events t \<noteq> []}" by (rule finite_subset) simp
  from requests_never_deadlock [of sim_config "\<lambda>_. ''juicefs-node-pvc''", OF sim_serves this c(1)] c show ?thesis by auto
qed

end
