(* ===== verification/GoDates.thy ===== *)
theory GoDates
  imports GoTime
begin

text \<open>
  The civil dates of theory GoTime are right: a day number and its date determine each other, and what
  \<^verbatim>\<open>time.Format\<close> writes with the layout of the driver, \<^verbatim>\<open>time.Parse\<close> reads back.
\<close>

section \<open>Dates are read back\<close>

definition yoe_num :: "int \<Rightarrow> int" where
  "yoe_num doe = doe - doe div 1460 + doe div 36524 - doe div 146096"

definition year_start :: "int \<Rightarrow> int" where
  "year_start yoe = 365 * yoe + yoe div 4 - yoe div 100"

lemma div_step: "0 < k \<Longrightarrow> (n + 1) div k = n div k + (if k dvd n + 1 then 1 else (0::int))"
proof (cases "k dvd n + 1")
  case True
  assume "0 < k"
  from True obtain q where q: "n + 1 = k * q" by blast
  then have "n = k * (q - 1) + (k - 1)" by (simp add: algebra_simps)
  with \<open>0 < k\<close> have "n div k = q - 1" by (simp add: div_pos_pos_trivial)
  with True q \<open>0 < k\<close> show ?thesis by simp
next
  case False
  assume "0 < k"
  have "0 \<le> (n + 1) mod k - 1" "(n + 1) mod k - 1 < k"
    using False pos_mod_sign [OF \<open>0 < k\<close>, of "n + 1"] pos_mod_bound [OF \<open>0 < k\<close>, of "n + 1"]
    by (auto simp: dvd_eq_mod_eq_0)
  moreover have "n = k * ((n + 1) div k) + ((n + 1) mod k - 1)" using mult_div_mod_eq [of k "n + 1"] by linarith
  ultimately have "n div k = (n + 1) div k" using int_div_pos_eq by blast
  with False show ?thesis by simp
qed

lemma yoe_num_step: "yoe_num n \<le> yoe_num (n + 1)"
proof -
  have "(36524::int) dvd n + 1" if "146096 dvd n + 1" using that by (rule dvd_trans [rotated]) simp
  then show ?thesis unfolding yoe_num_def by (simp add: div_step)
qed

lemma yoe_num_mono: "a \<le> b \<Longrightarrow> yoe_num a \<le> yoe_num b"
proof (induction "nat (b - a)" arbitrary: b)
  case (Suc n)
  then have "yoe_num a \<le> yoe_num (b - 1)" by auto
  also have "\<dots> \<le> yoe_num b" using yoe_num_step [of "b - 1"] by simp
  finally show ?case .
qed simp

text \<open>The year of an era is the right one at its first and last day, hence in between.\<close>

lemma year_ends_list:
  "list_all (\<lambda>y. y * 365 \<le> yoe_num (year_start y) \<and> (y = 399 \<or> yoe_num (year_start (y + 1) - 1) < (y + 1) * 365)) [0..399]"
  by code_simp

lemma year_ends:
  assumes "0 \<le> y" "y \<le> 399"
  shows "y * 365 \<le> yoe_num (year_start y)" "y \<noteq> 399 \<Longrightarrow> yoe_num (year_start (y + 1) - 1) < (y + 1) * 365"
  using year_ends_list assms unfolding list_all_iff by auto

lemma year_of_era:
  assumes "0 \<le> doe" "doe < 146097"
  defines "yoe \<equiv> yoe_num doe div 365"
  shows "0 \<le> yoe" "yoe \<le> 399" "year_start yoe \<le> doe" "yoe < 399 \<Longrightarrow> doe < year_start (yoe + 1)"
proof -
  have "yoe_num 0 \<le> yoe_num doe" "yoe_num doe \<le> yoe_num 146096" using assms by (auto intro: yoe_num_mono)
  then have "0 \<le> yoe_num doe" "yoe_num doe \<le> 145999" by (simp_all add: yoe_num_def)
  then show b: "0 \<le> yoe" "yoe \<le> 399" unfolding yoe_def by linarith+
  have y: "yoe * 365 \<le> yoe_num doe" "yoe_num doe < (yoe + 1) * 365"
    unfolding yoe_def using mult_div_mod_eq [of 365 "yoe_num doe"] pos_mod_sign [of 365 "yoe_num doe"] pos_mod_bound [of 365 "yoe_num doe"]
    by simp_all
  show "year_start yoe \<le> doe"
  proof (rule ccontr)
    assume less: "\<not> year_start yoe \<le> doe"
    have "yoe \<noteq> 0" using less assms(1) by (auto simp: year_start_def)
    then have "yoe_num (year_start yoe - 1) < yoe * 365" using year_ends(2) [of "yoe - 1"] b by simp
    moreover have "yoe_num doe \<le> yoe_num (year_start yoe - 1)" using less by (intro yoe_num_mono) simp
    ultimately show False using y(1) by simp
  qed
  show "doe < year_start (yoe + 1)" if "yoe < 399"
  proof (rule ccontr)
    assume "\<not> doe < year_start (yoe + 1)"
    then have "yoe_num (year_start (yoe + 1)) \<le> yoe_num doe" by (intro yoe_num_mono) simp
    with year_ends(1) [of "yoe + 1"] b that y(2) show False by simp
  qed
qed

lemma month_days_list:
  "list_all (\<lambda>doy. let mp = (5 * doy + 2) div 153; d = doy - (153 * mp + 2) div 5 + 1; m = (if mp < 10 then mp + 3 else mp - 9)
     in 0 \<le> mp \<and> mp \<le> 11 \<and> 1 \<le> d \<and> (d \<le> daysIn m 1 \<or> doy = 365 \<and> mp = 11 \<and> d = 29)) [0..365]"
  by code_simp

lemma daysIn_common: "daysIn m 1 \<le> daysIn m y"
  by (simp add: daysIn_def isLeap_def)

lemma month_days:
  assumes "0 \<le> doy" "doy \<le> 365"
  defines "mp \<equiv> (5 * doy + 2) div 153"
  defines "d \<equiv> doy - (153 * mp + 2) div 5 + 1" and "m \<equiv> (if mp < 10 then mp + 3 else mp - 9)"
  shows "0 \<le> mp" "mp \<le> 11" "1 \<le> d" "d \<le> daysIn m y \<or> doy = 365 \<and> mp = 11 \<and> d = 29"
proof -
  have "0 \<le> mp \<and> mp \<le> 11 \<and> 1 \<le> d \<and> (d \<le> daysIn m 1 \<or> doy = 365 \<and> mp = 11 \<and> d = 29)"
    using month_days_list assms(1,2) unfolding list_all_iff Let_def mp_def d_def m_def by auto
  then show "0 \<le> mp" "mp \<le> 11" "1 \<le> d" "d \<le> daysIn m y \<or> doy = 365 \<and> mp = 11 \<and> d = 29"
    using daysIn_common [of m y] by auto
qed

lemma era_mod:
  fixes a e :: int
  shows "(a + e * 400 + 1) mod 100 = (a + 1) mod 100" "(a + e * 400 + 1) mod 4 = (a + 1) mod 4"
    "(a + e * 400 + 1) mod 400 = (a + 1) mod 400"
  using mod_mult_self2 [of "a + 1" 100 "4 * e"] mod_mult_self2 [of "a + 1" 4 "100 * e"] mod_mult_self2 [of "a + 1" 400 e]
  by (simp_all add: algebra_simps)

lemma next_year_start:
  "year_start (yoe + 1) = year_start yoe + 365 + (if 4 dvd yoe + 1 then 1 else 0) - (if 100 dvd yoe + 1 then 1 else 0)"
  unfolding year_start_def by (simp add: div_step)

lemma day_of_year:
  assumes "0 \<le> doe" "doe < 146097"
  defines "yoe \<equiv> yoe_num doe div 365"
  shows "0 \<le> doe - year_start yoe" "doe - year_start yoe \<le> 365" "doe - year_start yoe = 365 \<Longrightarrow> isLeap (yoe + era * 400 + 1)"
proof -
  note yr = year_of_era [OF assms(1,2), folded yoe_def]
  show "0 \<le> doe - year_start yoe" using yr(3) by simp
  have len: "doe - year_start yoe < 365 + (if 4 dvd yoe + 1 then 1 else 0) - (if 100 dvd yoe + 1 then 1 else 0)" if "yoe \<noteq> 399"
    using yr(2,4) next_year_start [of yoe] that by simp
  have last: "doe - year_start yoe \<le> 365" if "yoe = 399" using assms(2) that by (simp add: year_start_def)
  show "doe - year_start yoe \<le> 365" using len last by (cases "yoe = 399") (simp_all split: if_splits)
  assume "doe - year_start yoe = 365"
  with len have "yoe = 399 \<or> 4 dvd yoe + 1 \<and> \<not> 100 dvd yoe + 1" by (cases "yoe = 399") (simp_all split: if_splits)
  then show "isLeap (yoe + era * 400 + 1)" unfolding isLeap_def era_mod by (auto simp: dvd_eq_mod_eq_0)
qed

lemma civil_roundtrip:
  assumes "civil_from_days z = (y, m, d)"
  shows "days_from_civil y m d = z" "1 \<le> m" "m \<le> 12" "1 \<le> d" "d \<le> daysIn m y"
proof -
  define era where "era = (z + 719468) div 146097"
  define doe where "doe = (z + 719468) mod 146097"
  define yoe where "yoe = yoe_num doe div 365"
  define doy where "doy = doe - year_start yoe"
  define mp where "mp = (5 * doy + 2) div 153"
  have z: "z = era * 146097 + doe - 719468" unfolding era_def doe_def by simp
  have doe: "0 \<le> doe" "doe < 146097" unfolding doe_def by simp_all
  note yr = year_of_era [OF doe, folded yoe_def]
  note doy = day_of_year [OF doe, folded yoe_def, folded doy_def]
  let ?m = "if mp < 10 then mp + 3 else mp - 9"
  have "civil_from_days z = (yoe + era * 400 + (if ?m \<le> 2 then 1 else 0), ?m, doy - (153 * mp + 2) div 5 + 1)"
    unfolding civil_from_days_def Let_def era_def [symmetric] doe_def [symmetric] yoe_num_def [symmetric] yoe_def [symmetric]
      year_start_def [symmetric] doy_def [symmetric] mp_def [symmetric] ..
  with assms have tup: "(y, m, d) = (yoe + era * 400 + (if ?m \<le> 2 then 1 else 0), ?m, doy - (153 * mp + 2) div 5 + 1)" by (rule subst)
  have y: "y = yoe + era * 400 + (if ?m \<le> 2 then 1 else 0)" using arg_cong [OF tup, of fst] by (simp only: fst_conv)
  have m: "m = ?m" using arg_cong [OF tup, of "\<lambda>x. fst (snd x)"] by (simp only: fst_conv snd_conv)
  have d: "d = doy - (153 * mp + 2) div 5 + 1" using arg_cong [OF tup, of "\<lambda>x. snd (snd x)"] by (simp only: snd_conv)
  have eq: "y = yoe + era * 400 + (if m \<le> 2 then 1 else 0)" unfolding m by (rule y)
  note md = month_days [OF doy(1,2), folded mp_def]
  have y0: "(if m \<le> 2 then y - 1 else y) = yoe + era * 400" and mp: "(if m \<le> 2 then m + 9 else m - 3) = mp"
    using eq m md(1,2) by auto
  have "(yoe + era * 400) div 400 = era" "(yoe + era * 400) mod 400 = yoe" using yr(1,2) by auto
  then show "days_from_civil y m d = z"
    unfolding days_from_civil_def Let_def y0 mp using d z by (simp add: doy_def year_start_def)
  show "1 \<le> m" "m \<le> 12" using m md(1,2) by auto
  show "1 \<le> d" using md(3) d by simp
  have "d \<le> daysIn m y \<or> doy = 365 \<and> mp = 11 \<and> d = 29" using md(4) m d by simp
  then show "d \<le> daysIn m y" using doy(3) [of era] eq m by (auto simp: daysIn_def)
qed

lemma digit_chr_list: "list_all (\<lambda>n. is_digit (digit_chr n) \<and> digit_val (digit_chr n) = n) [0..9]"
  by code_simp

lemma digit_chr [simp]:
  assumes "0 \<le> n" "n < 10"
  shows "is_digit (digit_chr n)" "digit_val (digit_chr n) = n"
  using digit_chr_list assms unfolding list_all_iff by auto

lemma getnum_two_digits:
  assumes "0 \<le> n" "n < 100"
  shows "getnum (two_digits n @ s) fixed = Some (n, s)"
proof -
  have "0 \<le> n div 10" "n div 10 < 10" "0 \<le> n mod 10" "n mod 10 < 10" using assms by auto
  then show ?thesis by (simp add: two_digits_def)
qed

lemma format_year_digits:
  assumes "0 \<le> y" "y \<le> 9999"
  shows "format_year y = [digit_chr (y div 1000), digit_chr (y div 100 mod 10), digit_chr (y div 10 mod 10), digit_chr (y mod 10)]"
proof -
  have zero: "digit_chr 0 = CHR ''0''" by code_simp
  consider "y < 10" | "10 \<le> y" "y < 100" | "100 \<le> y" "y < 1000" | "1000 \<le> y" by linarith
  then show ?thesis
  proof cases
    case 1
    then show ?thesis using assms zero by (simp add: format_year_def eval_nat_numeral div_pos_pos_trivial)
  next
    case 2
    then have "y div 10 < 10" "y div 1000 = 0" "y div 100 = 0" using assms by auto
    then show ?thesis using 2 assms zero by (simp add: format_year_def eval_nat_numeral)
  next
    case 3
    then have "y div 10 \<ge> 10" "y div 10 div 10 = y div 100" "y div 100 < 10" "y div 1000 = 0" using assms by auto
    then show ?thesis using 3 assms zero by (simp add: format_year_def eval_nat_numeral)
  next
    case 4
    then have "y div 10 \<ge> 10" "y div 10 div 10 = y div 100" "y div 100 \<ge> 10" "y div 100 div 10 = y div 1000" "y div 1000 < 10" using assms by auto
    then show ?thesis using 4 assms by (simp add: format_year_def eval_nat_numeral)
  qed
qed

lemma four_digits:
  fixes y p q r b c d :: int
  assumes "10 * p + d = y" "10 * q + c = p" "10 * r + b = q"
  shows "10 * (10 * (10 * r + b) + c) + d = y"
  using assms by simp

lemma parse_year_digits:
  assumes "0 \<le> a" "a < 10" "0 \<le> b" "b < 10" "0 \<le> c" "c < 10" "0 \<le> d" "d < 10"
  shows "parse_year ([digit_chr a, digit_chr b, digit_chr c, digit_chr d] @ s) = Some (10 * (10 * (10 * a + b) + c) + d, s)"
  using assms by (simp add: parse_year_def digits_val_def)

lemma parse_format_year:
  assumes "0 \<le> y" "y \<le> 9999"
  shows "parse_year (format_year y @ s) = Some (y, s)"
proof -
  have d: "0 \<le> y div 1000" "y div 1000 < 10" "0 \<le> y div 100 mod 10" "y div 100 mod 10 < 10"
    "0 \<le> y div 10 mod 10" "y div 10 mod 10 < 10" "0 \<le> y mod 10" "y mod 10 < 10"
    using assms by auto
  have e: "y div 10 div 10 = y div 100" "y div 100 div 10 = y div 1000" by (simp_all add: zdiv_zmult2_eq [symmetric])
  have "10 * (10 * (10 * (y div 1000) + y div 100 mod 10) + y div 10 mod 10) + y mod 10 = y"
    by (rule four_digits [OF mult_div_mod_eq mult_div_mod_eq [of 10 "y div 10", unfolded e(1)] mult_div_mod_eq [of 10 "y div 100", unfolded e(2)]])
  with parse_year_digits [OF d] show ?thesis unfolding format_year_digits [OF assms] by (simp only:)
qed

definition year_of :: "int \<Rightarrow> int" where
  "year_of secs = fst (civil_from_days (secs div 86400))"

lemma skip_blank_two_digits:
  assumes "0 \<le> a" "a < 100"
  shows "skip_blank (CHR '' '' # two_digits a @ s) = Some (two_digits a @ s)"
proof -
  have "is_digit (digit_chr (a div 10))" using assms by (intro digit_chr) auto
  then have "digit_chr (a div 10) \<noteq> CHR '' ''" by (auto simp: is_digit_def)
  then show ?thesis by (simp add: skip_blank_def two_digits_def)
qed

lemma time_Parse_fields:
  assumes "0 \<le> y" "y \<le> 9999" "1 \<le> m" "m \<le> 12" "1 \<le> d" "d \<le> daysIn m y"
    and "0 \<le> hh" "hh \<le> 23" "0 \<le> mm" "mm \<le> 59" "0 \<le> ss" "ss \<le> 59"
  shows "time_Parse (format_year y @ CHR ''-'' # two_digits m @ CHR ''-'' # two_digits d @ CHR '' '' # two_digits hh @
      CHR '':'' # two_digits mm @ CHR '':'' # two_digits ss @ []) =
    Some ((days_from_civil y m d * 86400 + hh * 3600 + mm * 60 + ss) * 10 ^ 9)"
proof -
  have "daysIn m y \<le> 31" by (simp add: daysIn_def)
  with assms have "d < 100" by simp
  with assms show ?thesis
    unfolding time_Parse_def
    by (simp add: parse_format_year skip_char_def getnum_two_digits skip_blank_two_digits in_range_def parse_frac_def del: append_Nil2)
qed

lemma time_roundtrip:
  assumes "0 \<le> year_of secs" "year_of secs \<le> 9999"
  shows "time_Parse (format_time secs) = Some (secs * 10 ^ 9)"
proof -
  obtain y m d where ymd: "civil_from_days (secs div 86400) = (y, m, d)" by (metis prod.exhaust)
  note c = civil_roundtrip [OF ymd]
  have y: "0 \<le> y" "y \<le> 9999" using assms ymd by (simp_all add: year_of_def)
  define r where "r = secs mod 86400"
  have r: "0 \<le> r" "r < 86400" unfolding r_def by simp_all
  then have h: "0 \<le> r div 3600" "r div 3600 \<le> 23" "0 \<le> r mod 3600 div 60" "r mod 3600 div 60 \<le> 59" "0 \<le> r mod 60" "r mod 60 \<le> 59"
    by auto
  have "r mod 3600 mod 60 = r mod 60" by (simp add: mod_mod_cancel)
  then have "r = 3600 * (r div 3600) + r mod 3600" "r mod 3600 = 60 * (r mod 3600 div 60) + r mod 60"
    using mult_div_mod_eq [of 3600 r] mult_div_mod_eq [of 60 "r mod 3600"] by (simp_all only:)
  moreover have "secs = secs div 86400 * 86400 + r" unfolding r_def by simp
  ultimately have secs: "secs div 86400 * 86400 + r div 3600 * 3600 + r mod 3600 div 60 * 60 + r mod 60 = secs" by linarith
  have fmt: "format_time secs = format_year y @ CHR ''-'' # two_digits m @ CHR ''-'' # two_digits d @ CHR '' '' # two_digits (r div 3600) @
      CHR '':'' # two_digits (r mod 3600 div 60) @ CHR '':'' # two_digits (r mod 60) @ []"
    unfolding format_time_def Let_def ymd prod.case r_def by simp
  show ?thesis
    unfolding fmt time_Parse_fields [OF y c(2-5) h] c(1) secs ..
qed

end
