(* ===== verification/DelayedDelete.thy ===== *)
theory DelayedDelete
  imports GoDates SimEnv Util
begin

text \<open>
  The delayed deletion of mount pods (pkg/util/util.go): what the deadline recorded on a pod makes later checks do.
\<close>

text \<open>
  C38: when the deletion of a pod is delayed, the deadline recorded on the pod makes every later check wait exactly until the instant
  of the first check plus the delay, cut to the second, plus the offset of the local time zone: away from UTC the pod is deleted too
  early or too late by that offset.
\<close>

theorem delayed_deletion_deadline:
  assumes "map_of (entries (p_annotations pod)) DeleteDelayTimeKey = Some delayStr"
    and "map_of (entries (p_annotations pod)) DeleteDelayAtKey = None"
    and "ParseDuration (g_frac E) delayStr = Inr delay"
    and "run_state (ShouldDelay E pod) s = ((True, None, pod'), s')"
  defines "wall \<equiv> (o_now E (hist s) + delay) div 10 ^ 9 + o_tz E (o_now E (hist s) + delay)"
  assumes "0 \<le> year_of wall" "year_of wall \<le> 9999"
  shows "fst (run_state (ShouldDelay E2 pod') s2) = (o_now E2 (hist s2) < wall * 10 ^ 9, None, pod')"
proof -
  have pod': "pod' = pod\<lparr>p_annotations := Some (mput DeleteDelayAtKey (format_time wall) (entries (p_annotations pod)))\<rparr>"
    using assms(4) by (auto simp: ShouldDelay_def GetTimeAfterDelay_def Now_def Let_def assms(1-3) wall_def client_defs split: option.splits)
  have "GetTime (format_time wall) = Inr (wall * 10 ^ 9)"
    using time_roundtrip [OF assms(6,7)] by (simp add: GetTime_def)
  then show ?thesis by (simp add: ShouldDelay_def pod' assms(1) Now_def)
qed

lemma sim_duration: "ParseDuration (\<lambda>f s u. f * u div s) ''1s'' = Inr 1000000000"
  by code_simp

lemma sim_year: "year_of 3602 = 1970"
  by code_simp

theorem delayed_deletion_deadline_witness:
  "let E = (sim_env [])\<lparr>o_now := \<lambda>h. 10 ^ 9, o_tz := \<lambda>t. 3600\<rparr>;
       pod = sim_mount_pod\<lparr>p_annotations := Some [(DeleteDelayTimeKey, ''1s'')]\<rparr>;
       pod' = snd (snd (fst (run_state (ShouldDelay E pod) sim_state)))
   in fst (run_state (ShouldDelay (sim_env []) pod') sim_state) = (True, None, pod')"
proof -
  let ?E = "(sim_env [])\<lparr>o_now := \<lambda>h. 10 ^ 9, o_tz := \<lambda>t. 3600\<rparr>"
  let ?pod = "sim_mount_pod\<lparr>p_annotations := Some [(DeleteDelayTimeKey, ''1s'')]\<rparr>"
  let ?r = "run_state (ShouldDelay ?E ?pod) sim_state"
  have dur: "ParseDuration (g_frac ?E) ''1s'' = Inr 1000000000"
    using sim_duration by (simp add: sim_env_def)
  have ann: "map_of (entries (p_annotations ?pod)) DeleteDelayTimeKey = Some ''1s''" "map_of (entries (p_annotations ?pod)) DeleteDelayAtKey = None"
    by simp_all
  have "fst ?r = (True, None, snd (snd (fst ?r)))"
    using dur by (simp add: ShouldDelay_def GetTimeAfterDelay_def Now_def client_defs Let_def sim_env_def)
  then have run: "?r = ((True, None, snd (snd (fst ?r))), snd ?r)" by (metis prod.collapse)
  have wall: "(o_now ?E (hist sim_state) + 1000000000) div 10 ^ 9 + o_tz ?E (o_now ?E (hist sim_state) + 1000000000) = 3602" by simp
  have now: "o_now (sim_env []) h = 0" for h by (simp add: sim_env_def)
  show ?thesis
    using delayed_deletion_deadline [OF ann dur run, unfolded wall] sim_year unfolding Let_def by (simp add: now)
qed

end
