(* ===== verification/PodEffects.thy ===== *)
theory PodEffects
  imports PodMount
begin

text \<open>
  What mounting and unmounting leave of a mount pod on the API server when they may fail at any point: theory PodMount says what
  they do when they succeed.
\<close>

section \<open>Unmounting\<close>

lemma stored_sel [simp]: "stored (add_ref t p) = stored p" "stored (remove_ref t p) = stored p" "stored (stamped a p) = stored p"
  by (simp_all add: stored_def)

text \<open>A pod that may have been deleted, or have got a deadline, when it had no reference.\<close>

definition dropped :: "int \<Rightarrow> pod \<Rightarrow> pod option \<Rightarrow> bool" where
  "dropped now p q \<longleftrightarrow> q = Some p \<or> \<not> HasRef p \<and> (q = after_delete now p \<or> (\<exists>at. q = Some (stamped at p)))"

lemma deleteMountPod_any:
  assumes "retry_documented E" "api_documented init now E"
    and "pod_at init now (hist s) ns n = Some p" "stored p"
  shows "wp (deleteMountPod E n ns) (\<lambda>_ s'. dropped now p (pod_at init now (hist s') ns n)) s"
proof -
  have "wp (deleteMountPod E n ns) (\<lambda>r s'. (r \<noteq> None \<longrightarrow> pod_at init now (hist s') ns n = Some p) \<and>
      dropped now p (pod_at init now (hist s') ns n)) s"
    unfolding deleteMountPod_def
  proof (rule wp_retry [where I = "\<lambda>s. pod_at init now (hist s) ns n = Some p"], goal_cases)
    case (3 s)
    show ?case
    proof (cases "k_pod_get E (hist s) ns n")
      case (Inl e)
      with 3 show ?thesis by (auto simp: wp_simps client_defs dropped_def)
    next
      case (Inr q)
      with 3 api_get(1) [OF assms(2) Inr, of p] have q: "q = p" "named ns n p" by simp_all
      let ?s = "s\<lparr>hist := EvPodGet ns n (Inr p) # hist s\<rparr>"
      have "pod_at init now (hist ?s) ns n = Some p" using 3 by simp
      note step = delete_unless_delayed [OF this q(2) assms(4), of E]
      show ?thesis
      proof (cases "HasRef p")
        case False
        show ?thesis
          unfolding GetPod_def wp_bind wp_call Inr q(1) sum.case using False
          by (simp only: if_False) (rule wp_mono [OF step], auto simp: dropped_def split: if_splits)
      qed (use 3 Inr q in \<open>simp add: wp_simps client_defs dropped_def\<close>)
    qed
  qed (use assms in simp_all)
  then show ?thesis by (rule wp_mono) simp
qed

lemma release_pod_any:
  assumes "retry_documented E" "api_documented init now E"
    and "pod_at init now (hist s) ns n = Some p" "stored p"
  shows "wp (release_pod E n ns) (\<lambda>_ s'. dropped now p (pod_at init now (hist s') ns n)) s"
  using assms(3,4) api_get(1) [OF assms(2) _ assms(3)] api_get(2) [OF assms(2), of "hist s" ns n]
    deleteMountPod_any [OF assms(1,2), of "s\<lparr>hist := EvPodGet ns n (k_pod_get E (hist s) ns n) # hist s\<rparr>" ns n p]
  by (auto simp: release_pod_def client_defs wp_simps dropped_def split: sum.splits)

text \<open>What unmounting may make of it.\<close>

definition umounted :: "int \<Rightarrow> string \<Rightarrow> pod option \<Rightarrow> pod option \<Rightarrow> bool" where
  "umounted now t old new \<longleftrightarrow> new = old \<or> (\<exists>p. old = Some p \<and> dropped now (remove_ref t p) new)"

text \<open>A pod that is gone or terminates stays so.\<close>

lemma pod_at_gone:
  assumes "pod_at init now h ns n = None"
  shows "pod_at init now (EvPodDelete ns' n' r # h) ns n = None"
    and "p_deletionTimestamp p \<noteq> None \<Longrightarrow> p_finalizers p = [] \<Longrightarrow> pod_at init now (EvPodUpdate p r # h) ns n = None"
  using assms by (cases r; simp)+

lemma ShouldDelay_gone:
  assumes "pod_at init now (hist s) ns n = None" "named ns n p" "terminating p"
  shows "wp (ShouldDelay E p) (\<lambda>(_, _, p') s'. pod_at init now (hist s') ns n = None \<and> named ns n p') s"
  unfolding ShouldDelay_def GetTimeAfterDelay_def
  using assms by (auto simp: wp_simps client_defs named_def terminating_def Let_def pod_at_gone split: option.splits sum.splits)

lemma removeRef_gone:
  assumes "retry_documented E" "api_documented init now E" "pod_at init now (hist s) (p_namespace pod) (p_name pod) = None"
  shows "wp (removeRef E target pod) (\<lambda>_ s'. pod_at init now (hist s') (p_namespace pod) (p_name pod) = None) s"
  unfolding removeRef_def
proof (rule wp_retry [where I = "\<lambda>s. pod_at init now (hist s) (p_namespace pod) (p_name pod) = None"], goal_cases)
  case (3 s)
  show ?case
  proof (cases "k_pod_get E (hist s) (p_namespace pod) (p_name pod)")
    case (Inr q)
    with 3 api_get(3) [OF assms(2) Inr] have "terminating q" "named (p_namespace pod) (p_name pod) q" by simp_all
    with 3 Inr show ?thesis
      by (cases "k_pod_update E (EvPodGet (p_namespace pod) (p_name pod) (Inr q) # hist s) (remove_ref target q)")
        (auto simp: wp_simps client_defs named_def remove_ref_def terminating_def)
  qed (use 3 in \<open>simp add: wp_simps client_defs\<close>)
qed (use assms in simp_all)

lemma deleteMountPod_gone:
  assumes "retry_documented E" "api_documented init now E" "pod_at init now (hist s) ns n = None"
  shows "wp (deleteMountPod E n ns) (\<lambda>_ s'. pod_at init now (hist s') ns n = None) s"
  unfolding deleteMountPod_def
proof (rule wp_retry [where I = "\<lambda>s. pod_at init now (hist s) ns n = None"], goal_cases)
  case (3 s)
  show ?case
  proof (cases "k_pod_get E (hist s) ns n")
    case (Inr q)
    let ?s = "s\<lparr>hist := EvPodGet ns n (Inr q) # hist s\<rparr>"
    from 3 api_get(3) [OF assms(2) Inr] have "pod_at init now (hist ?s) ns n = None" "named ns n q" "terminating q" by simp_all
    note step = ShouldDelay_gone [OF this, of E]
    show ?thesis
      unfolding GetPod_def wp_bind wp_call Inr sum.case using 3
      by (auto simp: wp_simps client_defs pod_at_gone intro!: wp_mono [OF step [simplified]] split: option.splits)
  qed (use 3 in \<open>auto simp: wp_simps client_defs\<close>)
qed (use assms in simp_all)

lemma release_pod_gone:
  assumes "retry_documented E" "api_documented init now E" "pod_at init now (hist s) ns n = None"
  shows "wp (release_pod E n ns) (\<lambda>_ s'. pod_at init now (hist s') ns n = None) s"
  using assms(3) deleteMountPod_gone [OF assms(1,2), of "s\<lparr>hist := EvPodGet ns n (k_pod_get E (hist s) ns n) # hist s\<rparr>" ns n]
  by (auto simp: release_pod_def client_defs wp_simps split: sum.splits)

lemma JUmount_gone:
  assumes retry: "retry_documented E" and api: "api_documented init now E"
    and gone: "pod_at init now (hist s) (Namespace C) (GenerateNameByVolumeId C volumeId) = None"
  shows "wp (JUmount E C volumeId target) (\<lambda>_ s'. pod_at init now (hist s') (Namespace C) (GenerateNameByVolumeId C volumeId) = None) s"
proof -
  let ?ns = "Namespace C" and ?n = "GenerateNameByVolumeId C volumeId"
  let ?s = "s\<lparr>hist := EvLock (GetPodLock ?n) # hist s\<rparr>"
  show ?thesis
  proof (cases "k_pod_get E (hist ?s) ?ns ?n")
    case (Inr p)
    with api_get(5) [OF api Inr] have p: "p_namespace p = ?ns" "p_name p = ?n" by (simp_all add: named_def)
    let ?t = "?s\<lparr>hist := EvPodGet ?ns ?n (Inr p) # hist ?s\<rparr>"
    have "wp (removeRef E target p) (\<lambda>_ s'. pod_at init now (hist s') ?ns ?n = None) ?t"
      using removeRef_gone [OF retry api, of ?t p target] gone p by simp
    then show ?thesis
      using Inr p
      apply (simp add: JUmount_def Let_def wp_simps client_defs)
      apply (erule wp_mono)
      subgoal for r s'
        using release_pod_gone [OF retry api, of s' ?ns ?n] by (cases r) (auto simp: wp_simps)
      done
  qed (use gone in \<open>auto simp: JUmount_def wp_simps client_defs Let_def\<close>)
qed

lemma JUmount_any:
  assumes retry: "retry_documented E" and api: "api_documented init now E"
    and stored: "\<And>p. pod_at init now (hist s) (Namespace C) (GenerateNameByVolumeId C volumeId) = Some p \<Longrightarrow> stored p"
  shows "wp (JUmount E C volumeId target) (\<lambda>_ s'. umounted now target
             (pod_at init now (hist s) (Namespace C) (GenerateNameByVolumeId C volumeId))
             (pod_at init now (hist s') (Namespace C) (GenerateNameByVolumeId C volumeId))) s"
proof -
  let ?ns = "Namespace C" and ?n = "GenerateNameByVolumeId C volumeId"
  let ?s = "s\<lparr>hist := EvLock (GetPodLock ?n) # hist s\<rparr>"
  show ?thesis
  proof (cases "k_pod_get E (hist ?s) ?ns ?n")
    case (Inl e)
    then show ?thesis by (auto simp: JUmount_def wp_simps client_defs Let_def umounted_def)
  next
    case (Inr p)
    show ?thesis
    proof (cases "pod_at init now (hist s) ?ns ?n")
      case None
      show ?thesis unfolding None by (rule wp_mono [OF JUmount_gone [OF retry api None]]) (simp add: umounted_def)
    next
      case (Some q)
      with api_get(1) [OF api Inr, of q] Inr have p: "pod_at init now (hist s) ?ns ?n = Some p" "p_namespace p = ?ns" "p_name p = ?n"
        by (simp_all add: named_def)
      have rm: "wp (removeRef E target p) (\<lambda>r s'.
            pod_at init now (hist s') ?ns ?n = Some (if r = None then remove_ref target p else p))
          (?s\<lparr>hist := EvPodGet ?ns ?n (Inr p) # hist ?s\<rparr>)"
        using removeRef_server [OF retry api, of "?s\<lparr>hist := EvPodGet ?ns ?n (Inr p) # hist ?s\<rparr>" p p target] p stored [OF p(1)]
        by (simp add: stored_def)
      show ?thesis
        using Inr p
        apply (simp add: JUmount_def Let_def wp_simps client_defs)
        apply (rule wp_mono [OF rm [simplified]])
        subgoal for r s'
          using release_pod_any [OF retry api, of s' ?ns ?n "remove_ref target p"] stored [OF p(1)]
          by (cases r) (auto simp: wp_simps umounted_def intro: wp_mono)
        done
    qed
  qed
qed

section \<open>Mounting\<close>

text \<open>Annotations configured for a volume that do not pass for references of other targets.\<close>

definition plain_annotations :: "jfs_setting \<Rightarrow> bool" where
  "plain_annotations js \<longleftrightarrow> wf_map (js_MountPodAnnotations js) \<and>
     (\<forall>(k, v) \<in> set (js_MountPodAnnotations js). k \<in> range GetReferenceKey \<longrightarrow> k = GetReferenceKey v)"

definition new_pod :: "string \<Rightarrow> pod \<Rightarrow> bool" where
  "new_pod t q \<longleftrightarrow> p_deletionTimestamp q = None \<and> wf_refs q \<and> GetReferenceKey t \<in> ref_keys q"

text \<open>What mounting for target \<open>t\<close> may make of a volume's pod, with any result.\<close>

definition mount_effect :: "string \<Rightarrow> pod option \<Rightarrow> pod option \<Rightarrow> bool" where
  "mount_effect t old new \<longleftrightarrow>
     new = old \<or> (\<exists>p. old = Some p \<and> p_deletionTimestamp p = None \<and> new = Some (add_ref t p)) \<or>
     old = None \<and> (\<exists>q. new = Some q \<and> new_pod t q)"

lemma NewMountPod_wf_annotations:
  assumes "finalizers_documented E"
  shows "wp (NewMountPod E C js podName) (\<lambda>r s'. \<forall>p. r = Ok p \<longrightarrow> wf_map (entries (p_annotations p))) s"
  unfolding NewMountPod_def wp_bindO
  apply (rule wp_any)
  subgoal for r s'
    apply (cases r)
      apply (simp_all add: wp_simps)
    apply (cases "getCommand js")
      apply (simp_all add: wp_simps generateJuicePod_def os_defs Let_def split_beta
        add_finalizer_sel [OF assms] GeneratePodTemplate_def)
    done
  done

lemma new_pod_annotations:
  assumes "plain_annotations js" "wf_map annos"
    and "map_of annos = (if js_DeletedDelay js \<noteq> '''' then (map_of (mputs (js_MountPodAnnotations js) []))(DeleteDelayTimeKey \<mapsto> js_DeletedDelay js)
        else map_of (mputs (js_MountPodAnnotations js) []))"
    and "p_annotations q = Some (mput (GetReferenceKey t) t annos)" "p_deletionTimestamp q = None"
  shows "new_pod t q"
proof -
  have "k = GetReferenceKey v" if "(k, v) \<in> set annos" "k \<in> range GetReferenceKey" for k v
  proof -
    from that have "map_of annos k = Some v" "k \<noteq> DeleteDelayTimeKey" using assms(2) by (auto simp: in_set_wf_map)
    with assms(1,3) have "map_of (js_MountPodAnnotations js) k = Some v"
      by (auto simp: plain_annotations_def map_of_mputs split: if_splits option.splits)
    with assms(1) that(2) show ?thesis using map_of_SomeD [of "js_MountPodAnnotations js" k v] by (auto simp: plain_annotations_def)
  qed
  with assms(2,4,5) show ?thesis
    by (auto simp: new_pod_def wf_refs_def ref_keys_def set_mput entries_def)
qed

lemma create_pod_any:
  assumes "retry_documented E" "finalizers_documented E" "api_documented init now E" "plain_annotations js"
    and "pod_at init now (hist s) (Namespace C) podName = None"
  shows "wp (create_pod E C js podName sec) (\<lambda>r s'.
     mount_effect (js_TargetPath js) None (pod_at init now (hist s') (Namespace C) podName)) s"
  unfolding create_pod_def wp_bindO
proof (rule wp_mono [OF wp_conj [OF NewMountPod_identity [OF assms(2)]
      wp_conj [OF NewMountPod_wf_annotations [OF assms(2)] wp_keeps_pods [OF NewMountPod_keeps, of _ _ _ _ init now]]]], goal_cases)
  case (1 r s1)
  then have none: "pod_at init now (hist s1) (Namespace C) podName = None" using assms(5) by simp
  show ?case
  proof (cases r)
    case (Ok np)
    let ?p = "np\<lparr>p_annotations := Some (mput (GetReferenceKey (js_TargetPath js)) (js_TargetPath js) (entries (p_annotations np)))\<rparr>"
    show ?thesis
    proof (cases "k_pod_create E (hist s1) ?p")
      case (Inl e)
      with Ok none show ?thesis by (simp add: wp_simps client_defs Let_def mount_effect_def)
    next
      case (Inr q)
      with assms(3) 1 Ok have q: "named (Namespace C) podName q" "p_deletionTimestamp q = None" "p_annotations q = p_annotations ?p"
        by (auto simp: api_documented_def api_creates_def named_def)
      have new: "new_pod (js_TargetPath js) q"
        by (rule new_pod_annotations [OF assms(4), where annos = "entries (p_annotations np)"]) (use 1 Ok q in auto)
      have "wp (createOrUpdateSecret E C (SetPodAsOwner sec q))
          (\<lambda>_ s'. pod_at init now (hist s') = pod_at init now (EvPodCreate ?p (Inr q) # hist s1))
          (s1\<lparr>hist := EvPodCreate ?p (Inr q) # hist s1\<rparr>)"
        using wp_keeps_pods [OF createOrUpdateSecret_keeps [OF assms(1)],
            of C "SetPodAsOwner sec q" init now "s1\<lparr>hist := EvPodCreate ?p (Inr q) # hist s1\<rparr>"] by simp
      with Ok Inr q new show ?thesis
        apply (simp add: wp_simps client_defs Let_def)
        apply (erule wp_mono)
        apply (auto simp: wp_simps mount_effect_def split: option.splits)
        done
    qed
  qed (auto simp: wp_simps mount_effect_def none)
qed

lemma add_to_pod_any:
  assumes "retry_documented E" "api_documented init now E"
    and "pod_at init now (hist s) (Namespace C) podName = Some p"
  shows "wp (add_to_pod E C js podName sec oldPod) (\<lambda>r s'.
     mount_effect (js_TargetPath js) (Some p) (pod_at init now (hist s') (Namespace C) podName)) s"
  unfolding add_to_pod_def wp_bind
proof (rule wp_mono [OF wp_keeps_pods [OF createOrUpdateSecret_keeps [OF assms(1)], of C "SetPodAsOwner sec oldPod" init now]], goal_cases)
  case (1 r s')
  with assms(3) have p: "pod_at init now (hist s') (Namespace C) podName = Some p" by simp
  show ?case
  proof (cases r)
    case None
    show ?thesis
      unfolding None
      by (simp add: wp_simps, rule wp_mono [OF AddRefOfMount_server [OF assms(1,2) p]])
        (auto simp: mount_effect_def split: if_splits)
  qed (simp add: wp_simps p mount_effect_def)
qed

lemma createOrAddRef_any:
  assumes "retry_documented E" "finalizers_documented E" "api_documented init now E" "plain_annotations js"
  shows "wp (createOrAddRef E C js) (\<lambda>r s'. mount_effect (js_TargetPath js)
     (pod_at init now (hist s) (Namespace C) (GenerateNameByVolumeId C (js_VolumeId js)))
     (pod_at init now (hist s') (Namespace C) (GenerateNameByVolumeId C (js_VolumeId js)))) s"
proof -
  let ?n = "GenerateNameByVolumeId C (js_VolumeId js)"
  define old where "old = pod_at init now (hist s) (Namespace C) ?n"
  have plain: "plain_annotations (js\<lparr>js_SecretName := x\<rparr>)" for x using assms(4) by (simp add: plain_annotations_def)
  show ?thesis
    unfolding createOrAddRef_def Let_def wp_with_lock old_def [symmetric]
  proof (rule create.loop_wp [where I = "\<lambda>_ s. pod_at init now (hist s) (Namespace C) ?n = old"], goal_cases)
    case (1 k s)
    show ?case
    proof (cases "k_pod_get E (hist s) (Namespace C) ?n")
      case (Inl e)
      show ?thesis
      proof (cases "IsNotFound e")
        case True
        then have "e = ApiError NotFound" by (cases e rule: IsNotFound.cases) simp_all
        with Inl 1 api_get(2) [OF assms(3), of "hist s" "Namespace C" ?n] have "old = None" by simp
        with Inl 1 True show ?thesis
          by (auto simp: wp_simps client_defs intro!: wp_mono [OF create_pod_any [OF assms(1-3) plain]])
      next
        case False
        with Inl 1 show ?thesis by (auto simp: wp_simps client_defs mount_effect_def)
      qed
    next
      case (Inr p)
      with 1 api_get(4) [OF assms(3) Inr] have p: "p_deletionTimestamp p = None \<Longrightarrow>
          pod_at init now (EvPodGet (Namespace C) ?n (Inr p) # hist s) (Namespace C) ?n = Some p"
        "p_deletionTimestamp p = None \<Longrightarrow> old = Some p"
        by simp_all
      show ?thesis
        using Inr p 1
        by (auto simp: wp_simps client_defs intro!: wp_mono [OF add_to_pod_any [OF assms(1,3), where p = p]])
    qed
  qed (simp_all add: wp_simps mount_effect_def old_def)
qed

lemma JMount_any:
  assumes "retry_documented E" "finalizers_documented E" "api_documented init now E" "plain_annotations js"
  shows "wp (JMount E C js) (\<lambda>r s'. mount_effect (js_TargetPath js)
     (pod_at init now (hist s) (Namespace C) (GenerateNameByVolumeId C (js_VolumeId js)))
     (pod_at init now (hist s') (Namespace C) (GenerateNameByVolumeId C (js_VolumeId js)))) s"
  unfolding JMount_def wp_bindO
proof (rule wp_mono [OF createOrAddRef_any [OF assms]], goal_cases)
  case (1 r s')
  then show ?case
    by (cases r) (auto simp: wp_simps intro!: wp_mono [OF wp_keeps_pods [OF wait_keeps, of _ _ _ init now]])
qed

end
