(* ===== verification/Provider.thy ===== *)
theory Provider
  imports MntInterface
begin

text \<open>
  pkg/juicefs/juicefs.go: the provider the CSI services call. It reads a volume's settings,
  authenticates or formats the file system, and mounts through \<^verbatim>\<open>podMount\<close> or \<^verbatim>\<open>processMount\<close>.
  \<^verbatim>\<open>NewJfsProvider\<close> leaves \<^verbatim>\<open>podMount\<close> nil when the driver runs by process; a call through the nil
  interface is a panic.
\<close>

definition pod_mount :: "config \<Rightarrow> 'a outcome prog \<Rightarrow> 'a outcome prog" where
  "pod_mount C m =
     (if ByProcess C then State_Monad.return (Panic ''invalid memory address or nil pointer dereference'') else m)"

section \<open>Volumes of a mounted file system\<close>

definition CreateVol :: "env \<Rightarrow> string \<Rightarrow> string \<Rightarrow> (goerr + string) prog" where
  "CreateVol E mountPath subPath = do {
     let volPath = filepath_Join [mountPath, subPath];
     (exists, pe) \<leftarrow> PathExists E volPath;
     (case pe of
        Some e \<Rightarrow> State_Monad.return (Inl (StatusError Internal ''Could not check volume path %q exists: %v'' [volPath] (Some e)))
      | None \<Rightarrow>
          if exists then State_Monad.return (Inr volPath)
          else do {
            err \<leftarrow> MkdirAll E volPath 511;
            (case err of
               Some e \<Rightarrow> State_Monad.return (Inl (StatusError Internal ''Could not make directory for meta %q: %v'' [volPath] (Some e)))
             | None \<Rightarrow> do {
                 r2 \<leftarrow> Stat E volPath;
                 (case r2 of
                    Inl e \<Rightarrow> State_Monad.return (Inl (StatusError Internal ''Could not stat directory %s: %q'' [volPath] (Some e)))
                  | Inr fi \<Rightarrow>
                      if fi_perm fi \<noteq> 511 then do {
                        err2 \<leftarrow> Chmod E volPath 511;
                        State_Monad.return (case err2 of
                            Some e \<Rightarrow> Inl (StatusError Internal ''Could not chmod directory %s: %q'' [volPath] (Some e))
                          | None \<Rightarrow> Inr volPath)
                      }
                      else State_Monad.return (Inr volPath))
               })
          })
   }"

definition RmrDir :: "env \<Rightarrow> string \<Rightarrow> bool \<Rightarrow> (string \<times> goerr option) prog" where
  "RmrDir E directory isCeMount =
     (if isCeMount then Exec E CeCliPath [''rmr'', directory] [] else Exec E ''rm'' [''-rf'', directory] [])"

definition DeleteVol :: "env \<Rightarrow> string \<Rightarrow> string \<Rightarrow> gomap \<Rightarrow> goerr option prog" where
  "DeleteVol E mountPath volumeID secrets = do {
     let volPath = filepath_Join [mountPath, volumeID];
     (existed, pe) \<leftarrow> PathExists E volPath;
     (case pe of
        Some e \<Rightarrow> State_Monad.return (Some (StatusError Internal ''Could not check volume path %q exists: %v'' [volPath] (Some e)))
      | None \<Rightarrow>
          if existed then do {
            (out, err) \<leftarrow> RmrDir E volPath (mhas secrets ''metaurl'');
            State_Monad.return (case err of
                Some e \<Rightarrow> Some (StatusError Internal ''Could not delete volume path %q: %v'' [volPath] (Some e))
              | None \<Rightarrow> None)
          }
          else State_Monad.return None)
   }"

section \<open>Authentication and format\<close>

definition keysCompatible :: gomap where
  "keysCompatible = [(''access-key'', ''accesskey''), (''access-key2'', ''accesskey2''),
     (''secret-key'', ''secretkey''), (''secret-key2'', ''secretkey2'')]"

text \<open>The loop that renames the old spelling of a key.\<close>

definition compat_secrets :: "gomap \<Rightarrow> gomap" where
  "compat_secrets secrets =
     fold (\<lambda>(compatibleKey, realKey) m.
       case map_of m compatibleKey of None \<Rightarrow> m | Some v \<Rightarrow> mdel compatibleKey (mput realKey v m))
     keysCompatible secrets"

definition flag_value :: "string \<Rightarrow> string \<Rightarrow> string" where
  "flag_value k v = ''--'' @ k @ ''='' @ v"

text \<open>\<^verbatim>\<open>${name}\<close>: the shell of the container reads the value from its environment.\<close>

definition shell_var :: "string \<Rightarrow> string" where
  "shell_var k = ''${'' @ k @ ''}''"

definition flags :: "(string \<Rightarrow> bool) \<Rightarrow> (string \<Rightarrow> string) \<Rightarrow> gomap \<Rightarrow> string list \<Rightarrow> string list" where
  "flags optional value secrets keys =
     map (\<lambda>k. flag_value k (value k)) (filter (\<lambda>k. \<not> optional k \<or> mindex secrets k \<noteq> '''') keys)"

definition auth_keys :: "string list" where
  "auth_keys = [''accesskey'', ''accesskey2'', ''bucket'', ''bucket2'', ''subdir'']"

definition auth_keysStripped :: "string list" where
  "auth_keysStripped = [''token'', ''secretkey'', ''secretkey2'', ''passphrase'']"

definition auth_optional :: "string \<Rightarrow> bool" where
  "auth_optional k \<longleftrightarrow> k \<in> {''accesskey'', ''accesskey2'', ''secretkey'', ''secretkey2'', ''bucket'', ''bucket2'',
     ''passphrase'', ''subdir''}"

definition auth_no_update :: "env \<Rightarrow> bool" where
  "auth_no_update E \<longleftrightarrow> o_getenv E ''JFS_NO_UPDATE_CONFIG'' = Some ''enabled''"

definition auth_cmdArgs :: "env \<Rightarrow> gomap \<Rightarrow> string list" where
  "auth_cmdArgs E sec = [CliPath, ''auth'', mindex sec ''name'']
     @ flags auth_optional (mindex sec) sec auth_keys
     @ flags auth_optional shell_var sec auth_keysStripped
     @ (if auth_no_update E then [''--no-update''] else [])"

definition auth_args :: "env \<Rightarrow> gomap \<Rightarrow> string list" where
  "auth_args E sec = [''auth'', mindex sec ''name'']
     @ flags auth_optional (mindex sec) sec auth_keys
     @ flags auth_optional (mindex sec) sec auth_keysStripped
     @ (if auth_no_update E then [''--no-update''] else [])"

text \<open>The setting's environment variables as \<^verbatim>\<open>key=value\<close>, after the process's own.\<close>

definition setting_envs :: "env \<Rightarrow> jfs_setting \<Rightarrow> string list prog" where
  "setting_envs E js = do {
     kvs \<leftarrow> Range E (js_Envs js);
     State_Monad.return (o_environ E @ map (\<lambda>(k, v). k @ ''='' @ v) kvs)
   }"

text \<open>The file \<^verbatim>\<open>/root/.juicefs/<name>.conf\<close> written once from \<^verbatim>\<open>initconfig\<close>.\<close>

definition write_initconfig :: "env \<Rightarrow> config \<Rightarrow> gomap \<Rightarrow> goerr option prog" where
  "write_initconfig E C sec =
     (if auth_no_update E \<and> \<not> FormatInPod C \<and> mindex sec ''initconfig'' \<noteq> '''' then do {
        let confPath = filepath_Join [''/root/.juicefs'', mindex sec ''name'' @ ''.conf''];
        r \<leftarrow> Stat E confPath;
        (case r of
           Inr _ \<Rightarrow> State_Monad.return None
         | Inl e \<Rightarrow>
             if os_IsNotExist e then do {
               err \<leftarrow> WriteFile E confPath (mindex sec ''initconfig'');
               State_Monad.return (case err of
                   Some e2 \<Rightarrow> Some (StatusError Internal ''Create config file %q failed: %v'' [confPath] (Some e2))
                 | None \<Rightarrow> None)
             }
             else State_Monad.return None)
      }
      else State_Monad.return None)"

definition AuthFs :: "env \<Rightarrow> config \<Rightarrow> gomap option \<Rightarrow> jfs_setting \<Rightarrow> (goerr + string) prog" where
  "AuthFs E C secrets js =
     (case secrets of
        None \<Rightarrow> State_Monad.return (Inl (StatusError InvalidArgument ''Nil secrets'' [] None))
      | Some sec0 \<Rightarrow>
          if mindex sec0 ''name'' = '''' then State_Monad.return (Inl (StatusError InvalidArgument ''Empty name'' [] None))
          else (
            let sec = compat_secrets sec0 in
            if auth_no_update E \<and> mindex sec ''bucket'' = '''' then
              State_Monad.return (Inl (StatusError InvalidArgument
                ''bucket argument is required when --no-update option is provided'' [] None))
            else do {
              err \<leftarrow> write_initconfig E C sec;
              (case err of
                 Some e \<Rightarrow> State_Monad.return (Inl e)
               | None \<Rightarrow>
                   if FormatInPod C then State_Monad.return (Inr (Join (auth_cmdArgs E sec) '' ''))
                   else do {
                     envs \<leftarrow> setting_envs E js;
                     (res, err2) \<leftarrow> Exec E CliPath (auth_args E sec) envs;
                     State_Monad.return (case err2 of Some e \<Rightarrow> Inl e | None \<Rightarrow> Inr res)
                   })
            }))"

definition format_keys :: "string list" where
  "format_keys = [''storage'', ''bucket'', ''access-key'', ''block-size'', ''compress'', ''trash-days'', ''capacity'', ''inodes'', ''shards'']"

definition format_optional :: "string \<Rightarrow> bool" where
  "format_optional k \<longleftrightarrow> k \<in> {''block-size'', ''compress'', ''trash-days'', ''capacity'', ''inodes'', ''shards''}"

definition format_cmdArgs :: "bool \<Rightarrow> gomap \<Rightarrow> string list" where
  "format_cmdArgs noUpdate sec = [CeCliPath, ''format''] @ (if noUpdate then [''--no-update''] else [])
     @ flags format_optional (mindex sec) sec format_keys
     @ flags format_optional (\<lambda>k. shell_var ''secretkey'') sec [''secret-key'']
     @ [shell_var ''metaurl'', mindex sec ''name'']"

definition format_args :: "bool \<Rightarrow> gomap \<Rightarrow> string list" where
  "format_args noUpdate sec = [''format''] @ (if noUpdate then [''--no-update''] else [])
     @ flags format_optional (mindex sec) sec format_keys
     @ flags format_optional (mindex sec) sec [''secret-key'']
     @ [mindex sec ''metaurl'', mindex sec ''name'']"

definition ceFormat :: "env \<Rightarrow> config \<Rightarrow> gomap option \<Rightarrow> bool \<Rightarrow> jfs_setting \<Rightarrow> (goerr + string) prog" where
  "ceFormat E C secrets noUpdate js =
     (case secrets of
        None \<Rightarrow> State_Monad.return (Inl (StatusError InvalidArgument ''Nil secrets'' [] None))
      | Some sec \<Rightarrow>
          if mindex sec ''name'' = '''' then State_Monad.return (Inl (StatusError InvalidArgument ''Empty name'' [] None))
          else if mindex sec ''metaurl'' = '''' then State_Monad.return (Inl (StatusError InvalidArgument ''Empty metaurl'' [] None))
          else if FormatInPod C then State_Monad.return (Inr (Join (format_cmdArgs noUpdate sec) '' ''))
          else do {
            envs \<leftarrow> setting_envs E js;
            (res, err) \<leftarrow> Exec E CeCliPath (format_args noUpdate sec) (envs @ no_check_env (mindex sec ''storage''));
            State_Monad.return (case err of Some e \<Rightarrow> Inl e | None \<Rightarrow> Inr res)
          })"

section \<open>Settings\<close>

definition getSettings ::
  "env \<Rightarrow> config \<Rightarrow> decoders \<Rightarrow> string \<Rightarrow> string \<Rightarrow> gomap option \<Rightarrow> gomap option \<Rightarrow> string list \<Rightarrow> (goerr + jfs_setting) prog" where
  "getSettings E C Y volumeID target secrets volCtx options =
     (case ParseSetting E C Y secrets volCtx (\<not> ByProcess C) of
        Inl e \<Rightarrow> State_Monad.return (Inl e)
      | Inr js0 \<Rightarrow> (
          let js = js0\<lparr>js_VolumeId := volumeID, js_TargetPath := target, js_Options := options\<rparr>;
              sec = entries secrets;
              source = mindex sec ''metaurl''
          in if \<not> mhas sec ''metaurl'' then
               (if mindex sec ''token'' = '''' then State_Monad.return (Inr (js\<lparr>js_Source := mindex sec ''name''\<rparr>))
                else do {
                  r \<leftarrow> AuthFs E C secrets js;
                  State_Monad.return (case r of
                      Inl e \<Rightarrow> Inl (StatusError Internal ''Could not auth juicefs: %v'' [] (Some e))
                    | Inr res \<Rightarrow> Inr ((if FormatInPod C then js\<lparr>js_FormatCmd := res\<rparr> else js)\<lparr>js_Source := mindex sec ''name''\<rparr>))
                })
             else do {
               let noUpdate = (mindex sec ''storage'' = '''' \<or> mindex sec ''bucket'' = '''');
               let js1 = (if FormatInPod C \<and> (mindex sec ''storage'' = ''ceph'' \<or> mindex sec ''storage'' = ''gs'')
                          then js\<lparr>js_Envs := mput ''JFS_NO_CHECK_OBJECT_STORAGE'' ''1'' (js_Envs js)\<rparr> else js);
               r \<leftarrow> ceFormat E C secrets noUpdate js1;
               State_Monad.return (case r of
                   Inl e \<Rightarrow> Inl (StatusError Internal ''%v'' [] (Some e))
                 | Inr res \<Rightarrow> (
                     let src = (if \<not> Contains source ''://'' then ''redis://'' @ source else source);
                         js2 = js1\<lparr>js_Source := src\<rparr>
                     in Inr (if FormatInPod C then js2\<lparr>js_FormatCmd := res\<rparr> else js2)))
             }))"

section \<open>Mounting and unmounting\<close>

definition MountFs :: "env \<Rightarrow> config \<Rightarrow> jfs_setting \<Rightarrow> string outcome prog" where
  "MountFs E C js = (
     let js' = js\<lparr>js_MountPath := filepath_Join [if js_UsePod js then PodMountBase else MountBase, js_VolumeId js]\<rparr>
     in bindO (if js_UsePod js then pod_mount C (JMount E C js') else pm_JMount E js')
          (\<lambda>_. State_Monad.return (Ok (js_MountPath js'))))"

definition JfsMount ::
  "env \<Rightarrow> config \<Rightarrow> decoders \<Rightarrow> string \<Rightarrow> string \<Rightarrow> gomap option \<Rightarrow> gomap option \<Rightarrow> string list \<Rightarrow> string outcome prog" where
  "JfsMount E C Y volumeID target secrets volCtx options = do {
     r \<leftarrow> getSettings E C Y volumeID target secrets volCtx options;
     (case r of
        Inl e \<Rightarrow> State_Monad.return (Err e)
      | Inr js \<Rightarrow> do {
          m \<leftarrow> MountFs E C js;
          State_Monad.return (case m of
              Ok path \<Rightarrow> Ok path
            | Err e \<Rightarrow> Err (StatusError Internal ''%v'' [] (Some e))
            | Panic p \<Rightarrow> Panic p)
        })
   }"

text \<open>The part of \<^verbatim>\<open>JfsCreateVol\<close> and \<^verbatim>\<open>JfsDeleteVol\<close> that mounts in the process, works on the mount and unmounts.\<close>

definition with_process_mount :: "env \<Rightarrow> string \<Rightarrow> jfs_setting \<Rightarrow> (string \<Rightarrow> goerr option prog) \<Rightarrow> unit outcome prog" where
  "with_process_mount E volumeID js work = do {
     m \<leftarrow> pm_JMount E js;
     (case m of
        Panic p \<Rightarrow> State_Monad.return (Panic p)
      | Err e \<Rightarrow> State_Monad.return (Err (StatusError Internal ''Could not mount juicefs: %v'' [] (Some e)))
      | Ok _ \<Rightarrow> do {
          err \<leftarrow> work (js_MountPath js);
          (case err of
             Some e \<Rightarrow> State_Monad.return (Err e)
           | None \<Rightarrow> do {
               err2 \<leftarrow> Unmount E (js_MountPath js);
               State_Monad.return (case err2 of
                   Some e \<Rightarrow> Err (StatusError Internal ''Could not unmount volume %q: %v'' [volumeID] (Some e))
                 | None \<Rightarrow> Ok ())
             })
        })
   }"

definition JfsCreateVol :: "env \<Rightarrow> config \<Rightarrow> decoders \<Rightarrow> string \<Rightarrow> string \<Rightarrow> gomap option \<Rightarrow> unit outcome prog" where
  "JfsCreateVol E C Y volumeID subPath secrets = do {
     r \<leftarrow> getSettings E C Y volumeID '''' secrets None [];
     (case r of
        Inl e \<Rightarrow> State_Monad.return (Err e)
      | Inr js0 \<Rightarrow> (
          let js = js0\<lparr>js_SubPath := subPath, js_MountPath := filepath_Join [PodMountBase, js_VolumeId js0]\<rparr>
          in if FormatInPod C then pod_mount C (JCreateVolume E C js)
             else with_process_mount E volumeID js (\<lambda>mountPath. do {
                    v \<leftarrow> CreateVol E mountPath subPath;
                    State_Monad.return (case v of
                        Inl e \<Rightarrow> Some (StatusError Internal ''Could not create volume: %q, err: %v'' [volumeID] (Some e))
                      | Inr _ \<Rightarrow> None)
                  })))
   }"

definition JfsDeleteVol :: "env \<Rightarrow> config \<Rightarrow> decoders \<Rightarrow> string \<Rightarrow> string \<Rightarrow> gomap option \<Rightarrow> unit outcome prog" where
  "JfsDeleteVol E C Y volumeID subPath secrets = do {
     r \<leftarrow> getSettings E C Y volumeID '''' secrets None [];
     (case r of
        Inl e \<Rightarrow> State_Monad.return (Err e)
      | Inr js0 \<Rightarrow> (
          let js = js0\<lparr>js_SubPath := subPath, js_MountPath := filepath_Join [PodMountBase, js_VolumeId js0]\<rparr>
          in if FormatInPod C then pod_mount C (JDeleteVolume E C js)
             else with_process_mount E volumeID js (\<lambda>mountPath. do {
                    err \<leftarrow> DeleteVol E mountPath volumeID (entries secrets);
                    State_Monad.return (case err of
                        Some e \<Rightarrow> Some (StatusError Internal ''Could not delete volume: %q, err: %v'' [volumeID] (Some e))
                      | None \<Rightarrow> None)
                  })))
   }"

definition umount_benign :: "string \<Rightarrow> bool" where
  "umount_benign out \<longleftrightarrow>
     Contains out ''not mounted'' \<or> Contains out ''mountpoint not found'' \<or> Contains out ''no mount point specified''"

text \<open>
  The loop of \<^verbatim>\<open>JfsUnmount\<close>: unmount until it fails; \<open>None\<close> when the fuel ran out first. The loop's value
  is the error it returns with, if any.
\<close>

fun umount_loop :: "nat \<Rightarrow> env \<Rightarrow> string \<Rightarrow> goerr option option prog" where
  "umount_loop 0 E mountPath = State_Monad.return None"
| "umount_loop (Suc fuel) E mountPath = do {
     (out, err) \<leftarrow> Exec E ''umount'' [mountPath] [];
     (case err of
        None \<Rightarrow> umount_loop fuel E mountPath
      | Some _ \<Rightarrow>
          if \<not> umount_benign out then do {
            (output, err2) \<leftarrow> Exec E ''umount'' [''-l'', mountPath] [];
            State_Monad.return (Some err2)
          }
          else State_Monad.return (Some None))
   }"

definition JfsCleanupMountPoint :: "env \<Rightarrow> string \<Rightarrow> goerr option prog" where
  "JfsCleanupMountPoint E mountPath = CleanupMountPoint E mountPath"

definition JfsUnmount :: "nat \<Rightarrow> env \<Rightarrow> config \<Rightarrow> string \<Rightarrow> string \<Rightarrow> goerr option option prog" where
  "JfsUnmount fuel E C volumeId mountPath =
     (if ByProcess C then do {
        r \<leftarrow> pm_JUmount E volumeId mountPath;
        State_Monad.return (Some r)
      }
      else do {
        l \<leftarrow> umount_loop fuel E mountPath;
        (case l of
           None \<Rightarrow> State_Monad.return None
         | Some (Some e) \<Rightarrow> State_Monad.return (Some (Some e))
         | Some None \<Rightarrow> do {
             err \<leftarrow> JfsCleanupMountPoint E mountPath;
             (case err of
                Some e \<Rightarrow> State_Monad.return (Some (Some e))
              | None \<Rightarrow> do {
                  r \<leftarrow> JUmount E C volumeId mountPath;
                  State_Monad.return (Some r)
                })
           })
      })"

definition Version :: "env \<Rightarrow> (string \<times> goerr option) prog" where
  "Version E = Exec E CliPath [''version''] []"

section \<open>Secrets and the format command\<close>

text \<open>Two maps that differ only in the values of the keys \<open>K\<close>, and there not in being present or empty.\<close>

definition agree_except :: "string set \<Rightarrow> gomap \<Rightarrow> gomap \<Rightarrow> bool" where
  "agree_except K m n \<longleftrightarrow>
     (\<forall>k. k \<notin> K \<longrightarrow> map_of m k = map_of n k) \<and>
     (\<forall>k. mhas m k = mhas n k \<and> (mindex m k = '''' \<longleftrightarrow> mindex n k = ''''))"

definition auth_secrets :: "string set" where
  "auth_secrets = {''token'', ''secretkey'', ''secretkey2'', ''passphrase'', ''secret-key'', ''secret-key2''}"

lemma agree_mindex: "agree_except K m n \<Longrightarrow> k \<notin> K \<Longrightarrow> mindex m k = mindex n k"
  by (simp add: agree_except_def mindex_def)

lemma agree_empty: "agree_except K m n \<Longrightarrow> mindex m k = '''' \<longleftrightarrow> mindex n k = ''''"
  by (simp add: agree_except_def)

lemma agree_has: "agree_except K m n \<Longrightarrow> mhas m k = mhas n k"
  by (simp add: agree_except_def)

definition rename_key :: "string \<Rightarrow> string \<Rightarrow> gomap \<Rightarrow> gomap" where
  "rename_key ck rk m = (case map_of m ck of None \<Rightarrow> m | Some v \<Rightarrow> mdel ck (mput rk v m))"

lemma agree_rename:
  assumes agree: "agree_except K m n" and keys: "ck \<in> K \<longleftrightarrow> rk \<in> K"
  shows "agree_except K (rename_key ck rk m) (rename_key ck rk n)"
proof (cases "map_of m ck")
  case None
  with agree_has [OF agree, of ck] have "map_of n ck = None" by (simp add: mhas_def)
  with None agree show ?thesis by (simp add: rename_key_def)
next
  case (Some v)
  with agree_has [OF agree, of ck] obtain w where w: "map_of n ck = Some w" by (auto simp: mhas_def)
  have "v = '''' \<longleftrightarrow> w = ''''" using agree_empty [OF agree, of ck] Some w by (simp add: mindex_def)
  moreover have "ck \<notin> K \<Longrightarrow> v = w" using agree Some w by (auto simp: agree_except_def)
  ultimately show ?thesis
    using agree keys Some w by (auto simp: agree_except_def rename_key_def mhas_def mindex_def)
qed

lemma compat_secrets_rename:
  "compat_secrets m = rename_key ''secret-key2'' ''secretkey2'' (rename_key ''secret-key'' ''secretkey''
     (rename_key ''access-key2'' ''accesskey2'' (rename_key ''access-key'' ''accesskey'' m)))"
  by (simp add: compat_secrets_def keysCompatible_def rename_key_def)

lemma agree_compat: "agree_except auth_secrets m n \<Longrightarrow> agree_except auth_secrets (compat_secrets m) (compat_secrets n)"
  unfolding compat_secrets_rename by (intro agree_rename) (simp_all add: auth_secrets_def)

lemma flags_cong:
  assumes "\<And>k. k \<in> set keys \<Longrightarrow> (mindex m k = '''' \<longleftrightarrow> mindex n k = '''') \<and> f k = g k"
  shows "flags opt f m keys = flags opt g n keys"
  using assms by (auto simp: flags_def cong: filter_cong intro!: map_cong filter_cong)

lemma AuthFs_hides:
  assumes "FormatInPod C" "agree_except auth_secrets m n"
  shows "AuthFs E C (Some m) js = AuthFs E C (Some n) js"
proof -
  let ?m = "compat_secrets m" and ?n = "compat_secrets n"
  have c: "agree_except auth_secrets ?m ?n" by (rule agree_compat [OF assms(2)])
  have name: "mindex m ''name'' = mindex n ''name''" "mindex ?m ''name'' = mindex ?n ''name''"
    "mindex ?m ''bucket'' = mindex ?n ''bucket''"
    using agree_mindex [OF assms(2)] agree_mindex [OF c] by (simp_all add: auth_secrets_def)
  have "k \<notin> auth_secrets" if "k \<in> set auth_keys" for k using that by (auto simp: auth_keys_def auth_secrets_def)
  then have "flags auth_optional (mindex ?m) ?m auth_keys = flags auth_optional (mindex ?n) ?n auth_keys"
    by (intro flags_cong conjI agree_empty [OF c] agree_mindex [OF c])
  moreover have "flags auth_optional shell_var ?m auth_keysStripped = flags auth_optional shell_var ?n auth_keysStripped"
    by (intro flags_cong conjI agree_empty [OF c] refl)
  ultimately have "auth_cmdArgs E ?m = auth_cmdArgs E ?n" by (simp add: auth_cmdArgs_def name)
  with assms(1) name show ?thesis by (simp add: AuthFs_def write_initconfig_def Let_def)
qed

lemma ceFormat_hides:
  assumes "FormatInPod C" "agree_except {''metaurl'', ''secret-key''} m n"
  shows "ceFormat E C (Some m) noUpdate js = ceFormat E C (Some n) noUpdate js"
proof -
  have name: "mindex m ''name'' = mindex n ''name''" using agree_mindex [OF assms(2)] by simp
  have "k \<notin> {''metaurl'', ''secret-key''}" if "k \<in> set format_keys" for k using that by (auto simp: format_keys_def)
  then have "flags format_optional (mindex m) m format_keys = flags format_optional (mindex n) n format_keys"
    by (intro flags_cong conjI agree_empty [OF assms(2)] agree_mindex [OF assms(2)])
  moreover have "flags format_optional (\<lambda>k. shell_var ''secretkey'') m [''secret-key''] =
      flags format_optional (\<lambda>k. shell_var ''secretkey'') n [''secret-key'']"
    by (intro flags_cong conjI agree_empty [OF assms(2)] refl)
  ultimately have "format_cmdArgs noUpdate m = format_cmdArgs noUpdate n" by (simp add: format_cmdArgs_def name)
  with assms(1) name agree_empty [OF assms(2), of "''metaurl''"] show ?thesis by (simp add: ceFormat_def)
qed


section \<open>Unmounting ends\<close>

fun umount_done :: "string \<Rightarrow> event \<Rightarrow> bool" where
  "umount_done path (EvExec cmd args envs (_, err)) \<longleftrightarrow> cmd = ''umount'' \<and> args = [path] \<and> err = None"
| "umount_done path _ \<longleftrightarrow> False"

text \<open>
  \<^verbatim>\<open>umount\<close> with \<open>n\<close> mounts stacked on the path: it succeeds only while one is left, each time taking one off, and says that nothing is mounted only when
  none is left. It may fail with any other message at any time, as it does while the mount is busy.
\<close>

definition umount_documented :: "env \<Rightarrow> string \<Rightarrow> nat \<Rightarrow> bool" where
  "umount_documented E path n \<longleftrightarrow>
     (\<forall>h. case o_exec E h ''umount'' [path] [] of
        (out, None) \<Rightarrow> length (filter (umount_done path) h) < n
      | (out, Some e) \<Rightarrow> umount_benign out \<longrightarrow> n \<le> length (filter (umount_done path) h))"

text \<open>
  The events of the loop, newest first, and the error it ends with: \<open>n\<close> mounts were taken off, then none was left; or at most \<open>n\<close> were, then \<^verbatim>\<open>umount\<close>
  failed otherwise and one lazy unmount followed, whose error is the loop's.
\<close>

definition layers_off :: "string \<Rightarrow> nat \<Rightarrow> goerr option \<Rightarrow> history \<Rightarrow> bool" where
  "layers_off path n err evs \<longleftrightarrow>
     (\<exists>took out e. (\<forall>x \<in> set took. umount_done path x) \<and>
        (if umount_benign out then length took = n \<and> err = None \<and> evs = EvExec ''umount'' [path] [] (out, Some e) # took
         else length took \<le> n \<and> (\<exists>x. err = snd x \<and>
           evs = EvExec ''umount'' [''-l'', path] [] x # EvExec ''umount'' [path] [] (out, Some e) # took)))"

lemma layers_off_Suc:
  assumes "layers_off path n err evs" "umount_done path e"
  shows "layers_off path (Suc n) err (evs @ [e])"
proof -
  obtain took out x where d: "\<forall>x \<in> set took. umount_done path x"
    "if umount_benign out then length took = n \<and> err = None \<and> evs = EvExec ''umount'' [path] [] (out, Some x) # took
     else length took \<le> n \<and> (\<exists>y. err = snd y \<and> evs = EvExec ''umount'' [''-l'', path] [] y # EvExec ''umount'' [path] [] (out, Some x) # took)"
    using assms(1) unfolding layers_off_def by blast
  show ?thesis
    unfolding layers_off_def
    by (rule exI [of _ "took @ [e]"], rule exI [of _ out], rule exI [of _ x]) (use d assms(2) in \<open>auto split: if_splits\<close>)
qed

lemma umount_loop_ends:
  assumes "umount_documented E path n"
  shows "n = events_of (umount_done path) s + k \<Longrightarrow> k < fuel \<Longrightarrow>
    wp (umount_loop fuel E path) (\<lambda>r s'. \<exists>err evs. r = Some err \<and> hist s' = evs @ hist s \<and> layers_off path k err evs) s"
proof (induction fuel arbitrary: s k)
  case (Suc fuel)
  obtain out err where x: "o_exec E (hist s) ''umount'' [path] [] = (out, err)" by fastforce
  let ?e = "EvExec ''umount'' [path] [] (out, err)"
  let ?s = "s\<lparr>hist := ?e # hist s\<rparr>"
  have doc: "case err of None \<Rightarrow> events_of (umount_done path) s < n | Some e \<Rightarrow> umount_benign out \<longrightarrow> n \<le> events_of (umount_done path) s"
    using assms x unfolding umount_documented_def events_of_def by (metis (no_types, lifting) prod.case option.case_eq_if)
  show ?case
  proof (cases err)
    case None
    with doc Suc.prems(1) obtain k' where k: "k = Suc k'" by (cases k) auto
    have "n = events_of (umount_done path) ?s + k'" using Suc.prems(1) k None by (simp add: events_of_def)
    then have "wp (umount_loop fuel E path) (\<lambda>r s'. \<exists>err evs. r = Some err \<and> hist s' = evs @ hist s \<and> layers_off path k err evs) ?s"
      by (rule wp_mono [OF Suc.IH]) (use Suc.prems(2) k None in \<open>force dest: layers_off_Suc [where e = ?e]\<close>)+
    then show ?thesis using x None by (simp add: wp_simps os_defs)
  next
    case (Some e)
    have "layers_off path k None [?e]" if "umount_benign out"
      unfolding layers_off_def using that doc Some Suc.prems(1) by (intro exI [of _ "[]"] exI [of _ out] exI [of _ e]) simp
    moreover have "layers_off path k (snd y) [EvExec ''umount'' [''-l'', path] [] y, ?e]" if "\<not> umount_benign out" for y
      unfolding layers_off_def by (rule exI [of _ "[]"], rule exI [of _ out], rule exI [of _ e]) (use that Some in \<open>cases y; simp\<close>)
    ultimately show ?thesis using x Some by (auto simp: wp_simps os_defs split_beta)
  qed
qed simp

lemma JUmount_no_exec:
  assumes "retry_documented E"
  shows "emits (\<lambda>e. \<forall>c args envs r. e \<noteq> EvExec c args envs r) (JUmount E C volumeId target)"
  unfolding JUmount_def removeRef_def release_pod_def deleteMountPod_def ShouldDelay_def GetTimeAfterDelay_def Let_def
  by (intro emits_intros assms; simp add: client_defs emits_call split: option.splits)

text \<open>What follows the loop runs no command.\<close>

lemma JfsUnmount_layers:
  assumes "retry_documented E" "umount_documented E path n" "\<not> ByProcess C" "events_of (umount_done path) s = 0" "n < fuel"
  shows "wp (JfsUnmount fuel E C volumeId path) (\<lambda>r s'. \<exists>err evs rest res. r = Some res \<and> hist s' = rest @ evs @ hist s \<and>
     layers_off path n err evs \<and> (err \<noteq> None \<longrightarrow> res = err \<and> rest = []) \<and>
     (\<forall>e \<in> set rest. \<forall>c args envs x. e \<noteq> EvExec c args envs x)) s"
proof -
  have loop: "wp (umount_loop fuel E path) (\<lambda>r s'. \<exists>err evs. r = Some err \<and> hist s' = evs @ hist s \<and> layers_off path n err evs) s"
    by (rule umount_loop_ends [OF assms(2)]) (use assms(4,5) in simp_all)
  define rest where "rest = do { err \<leftarrow> JfsCleanupMountPoint E path;
     (case err of Some e \<Rightarrow> State_Monad.return (Some (Some e)) | None \<Rightarrow> do { r \<leftarrow> JUmount E C volumeId path; State_Monad.return (Some r) }) }"
  have "emits (\<lambda>e. \<forall>c args envs r. e \<noteq> EvExec c args envs r) rest"
    unfolding rest_def JfsCleanupMountPoint_def by (intro emits_intros JUmount_no_exec assms(1)) simp_all
  moreover have "wp rest (\<lambda>r s'. r \<noteq> None) t" for t
    unfolding rest_def by (auto simp: wp_simps JfsCleanupMountPoint_def os_defs intro!: wp_any split: option.splits)
  ultimately have rest: "wp rest (\<lambda>r s'. r \<noteq> None \<and>
      (\<exists>evs. hist s' = evs @ hist t \<and> (\<forall>e \<in> set evs. \<forall>c args envs x. e \<noteq> EvExec c args envs x))) t" for t
    unfolding emits_def by (intro wp_conj) simp_all
  have "wp (umount_loop fuel E path \<bind> (\<lambda>l. case l of None \<Rightarrow> State_Monad.return None | Some (Some e) \<Rightarrow> State_Monad.return (Some (Some e)) | Some None \<Rightarrow> rest))
     (\<lambda>r s'. \<exists>err evs rest res. r = Some res \<and> hist s' = rest @ evs @ hist s \<and>
       layers_off path n err evs \<and> (err \<noteq> None \<longrightarrow> res = err \<and> rest = []) \<and> (\<forall>e \<in> set rest. \<forall>c args envs x. e \<noteq> EvExec c args envs x)) s"
    unfolding wp_bind
  proof (rule wp_mono [OF loop], clarify, goal_cases)
    case (1 l t err evs)
    show ?case
    proof (cases err)
      case None
      show ?thesis
        unfolding None option.case by (rule wp_mono [OF rest]) (use 1 None in fastforce)
    next
      case (Some e)
      show ?thesis
        unfolding Some option.case wp_return
        by (rule exI [of _ err], rule exI [of _ evs], rule exI [of _ "[]"]) (use 1 Some in simp)
    qed
  qed
  then show ?thesis unfolding JfsUnmount_def rest_def using assms(3) by (simp cong: option.case_cong)
qed



text \<open>
  C27: with formatting in the mount pod, the \<^verbatim>\<open>auth\<close> command that \<^verbatim>\<open>AuthFs\<close> puts into the pod's specification does not
  depend on the values of the secrets (token, secret keys, passphrase), in either spelling, beyond their being set.
\<close>

theorem AuthFs_hides_secrets:
  assumes "FormatInPod C" "agree_except auth_secrets m n"
  shows "AuthFs E C (Some m) js = AuthFs E C (Some n) js"
  using AuthFs_hides [OF assms] .

theorem AuthFs_hides_secrets_witness:
  "AuthFs (sim_env []) (sim_config\<lparr>FormatInPod := True\<rparr>) (Some [(''name'', ''test''), (''token'', ''A''), (''secret-key'', ''B'')]) sim_setting =
   AuthFs (sim_env []) (sim_config\<lparr>FormatInPod := True\<rparr>) (Some [(''name'', ''test''), (''token'', ''X''), (''secret-key'', ''Y'')]) sim_setting"
  by (rule AuthFs_hides_secrets) (auto simp: agree_except_def auth_secrets_def mindex_def mhas_def split: if_splits)

text \<open>
  With formatting in the mount pod, the \<^verbatim>\<open>format\<close> command that \<^verbatim>\<open>ceFormat\<close> puts into the pod's specification does not
  depend on the meta URL or the secret key beyond their being set.
\<close>

theorem ceFormat_hides_secrets:
  assumes "FormatInPod C" "agree_except {''metaurl'', ''secret-key''} m n"
  shows "ceFormat E C (Some m) noUpdate js = ceFormat E C (Some n) noUpdate js"
  using ceFormat_hides [OF assms] .

theorem ceFormat_hides_secrets_witness:
  "ceFormat (sim_env []) (sim_config\<lparr>FormatInPod := True\<rparr>) (Some [(''name'', ''test''), (''metaurl'', ''redis://:p@h''), (''secret-key'', ''B'')]) True sim_setting =
   ceFormat (sim_env []) (sim_config\<lparr>FormatInPod := True\<rparr>) (Some [(''name'', ''test''), (''metaurl'', ''redis://:q@h''), (''secret-key'', ''C'')]) True sim_setting"
  by (rule ceFormat_hides_secrets) (auto simp: agree_except_def mindex_def mhas_def split: if_splits)

section \<open>What mounting a volume does\<close>

definition request_fields :: "config \<Rightarrow> string \<Rightarrow> string \<Rightarrow> gomap option \<Rightarrow> jfs_setting \<Rightarrow> bool" where
  "request_fields C volumeID target secrets js \<longleftrightarrow>
     js_VolumeId js = volumeID \<and> js_TargetPath js = target \<and>
     js_UsePod js = (secrets \<noteq> None \<and> \<not> ByProcess C)"

lemma getSettings_fields:
  "wp (getSettings E C Y volumeID target secrets volCtx options)
     (\<lambda>r _. \<forall>js. r = Inr js \<longrightarrow> request_fields C volumeID target secrets js) s"
proof (cases "ParseSetting E C Y secrets volCtx (\<not> ByProcess C)")
  case (Inr js)
  then show ?thesis
    unfolding getSettings_def Inr sum.case Let_def request_fields_def
    by (auto simp: wp_simps ParseSetting_usePod [OF Inr] intro!: wp_any split: if_splits sum.splits)
qed (simp add: getSettings_def wp_simps)

lemma getSettings_keeps: "emits keeps_pods (getSettings E C Y volumeID target secrets volCtx options)"
  unfolding getSettings_def AuthFs_def ceFormat_def write_initconfig_def setting_envs_def Let_def
  by (intro emits_intros; simp)

lemma CreateVol_keeps: "emits keeps_pods (CreateVol E mountPath subPath)"
  unfolding CreateVol_def Let_def by (intro emits_intros; simp)

lemma CreateVol_path:
  "wp (CreateVol E mountPath subPath) (\<lambda>r _. \<forall>v. r = Inr v \<longrightarrow> v = filepath_Join [mountPath, subPath]) s"
  unfolding CreateVol_def Let_def
  by (auto simp: wp_simps os_defs split_beta split: sum.splits option.splits)

definition mount_root :: "config \<Rightarrow> gomap option \<Rightarrow> string" where
  "mount_root C secrets = (if secrets \<noteq> None \<and> \<not> ByProcess C then PodMountBase else MountBase)"

lemma JfsMount_path:
  "wp (JfsMount E C Y volumeID target secrets volCtx options)
     (\<lambda>r _. \<forall>v. r = Ok v \<longrightarrow> v = filepath_Join [mount_root C secrets, volumeID]) s"
  unfolding JfsMount_def wp_bind
proof (rule wp_mono [OF getSettings_fields], goal_cases)
  case (1 r s')
  then show ?case
    apply (cases r)
     apply (simp add: wp_simps)
    apply (auto simp: MountFs_def Let_def wp_simps mount_root_def request_fields_def intro!: wp_any split: outcome.splits)
    done
qed

lemma JfsMount_server:
  assumes "retry_documented E" "finalizers_documented E" "api_documented init now E"
    and "secrets \<noteq> None" "\<not> ByProcess C"
  shows "wp (JfsMount E C Y volumeID target secrets volCtx options) (\<lambda>r s'. \<forall>v. r = Ok v \<longrightarrow>
     (\<exists>p. pod_at init now (hist s') (Namespace C) (GenerateNameByVolumeId C volumeID) = Some p \<and>
        mounted_for p target \<and> IsPodReady p)) s"
  unfolding JfsMount_def wp_bind
proof (rule wp_mono [OF getSettings_fields], goal_cases)
  case (1 r s')
  show ?case
  proof (cases r)
    case (Inr js)
    with 1 assms have js: "js_VolumeId js = volumeID" "js_TargetPath js = target" "js_UsePod js"
      by (simp_all add: request_fields_def)
    let ?js = "js\<lparr>js_MountPath := filepath_Join [PodMountBase, volumeID]\<rparr>"
    have "wp (JMount E C ?js) (\<lambda>r s'. r = Ok () \<longrightarrow>
       (\<exists>p. pod_at init now (hist s') (Namespace C) (GenerateNameByVolumeId C volumeID) = Some p \<and>
          mounted_for p target \<and> IsPodReady p)) s'"
      using JMount_server [OF assms(1-3), of C ?js s'] js by simp
    with Inr js assms(5) show ?thesis
      apply (simp add: MountFs_def pod_mount_def Let_def wp_simps)
      apply (erule wp_mono)
      apply (simp add: wp_simps split: outcome.splits)
      done
  qed (simp add: wp_simps)
qed

end
