(* ===== verification/CsiServices.thy ===== *)
theory CsiServices
  imports Provider
begin

text \<open>
  pkg/driver: the CSI services. The controller service (controller.go) keeps the capacity each volume
  was created with; the node service (node.go) publishes a volume at a target path.
\<close>

section \<open>Capabilities\<close>

datatype access_mode = UNKNOWN | SINGLE_NODE_WRITER | SINGLE_NODE_READER_ONLY | MULTI_NODE_READER_ONLY
  | MULTI_NODE_SINGLE_WRITER | MULTI_NODE_MULTI_WRITER

text \<open>A capability: the mode its access mode returns, and the mount flags when it is a mount capability.\<close>

record volume_capability =
  vc_mode :: access_mode
  vc_mountFlags :: "string list option"

definition volumeCaps :: "access_mode list" where
  "volumeCaps = [SINGLE_NODE_WRITER, MULTI_NODE_MULTI_WRITER, MULTI_NODE_READER_ONLY]"

definition isValidVolumeCapabilities :: "volume_capability list \<Rightarrow> bool" where
  "isValidVolumeCapabilities volCaps =
     fold (\<lambda>c foundAll. if \<not> list_ex (\<lambda>m. m = vc_mode c) volumeCaps then False else foundAll) volCaps True"

section \<open>Controller service\<close>

type_synonym vols = "(string \<times> int) list"

record create_request =
  cr_name :: string
  cr_capabilities :: "volume_capability list option"
  cr_requiredBytes :: int
  cr_parameters :: gomap
  cr_secrets :: "gomap option"

record csi_volume =
  cv_volumeId :: string
  cv_capacityBytes :: int
  cv_volumeContext :: gomap

definition CreateVolume ::
  "env \<Rightarrow> config \<Rightarrow> decoders \<Rightarrow> vols \<Rightarrow> create_request \<Rightarrow> (csi_volume outcome \<times> vols) prog" where
  "CreateVolume E C Y vols req =
     (if length (cr_name req) = 0 then
        State_Monad.return (Err (StatusError InvalidArgument ''Volume Name cannot be empty'' [] None), vols)
      else if cr_capabilities req = None then
        State_Monad.return (Err (StatusError InvalidArgument ''Volume Capabilities cannot be empty'' [] None), vols)
      else (
        let requiredCap = cr_requiredBytes req in
        if (case map_of vols (cr_name req) of Some capa \<Rightarrow> capa < requiredCap | None \<Rightarrow> False) then
          State_Monad.return (Err (StatusError AlreadyExistsCode ''Volume: %q, capacity bytes: %d'' [cr_name req] None), vols)
        else do {
          let vols' = mput (cr_name req) requiredCap vols;
          r \<leftarrow> JfsCreateVol E C Y (cr_name req) (cr_name req) (cr_secrets req);
          State_Monad.return (case r of
              Err e \<Rightarrow> (Err (StatusError Internal ''Could not createVol in juicefs: %v'' [] (Some e)), vols')
            | Panic p \<Rightarrow> (Panic p, vols')
            | Ok _ \<Rightarrow> (Ok \<lparr>cv_volumeId = cr_name req, cv_capacityBytes = requiredCap,
                cv_volumeContext = mput ''subPath'' (cr_name req) (mputs (cr_parameters req) [])\<rparr>, vols'))
        }))"

definition DeleteVolume ::
  "env \<Rightarrow> config \<Rightarrow> decoders \<Rightarrow> vols \<Rightarrow> string \<Rightarrow> gomap option \<Rightarrow> (unit outcome \<times> vols) prog" where
  "DeleteVolume E C Y vols volumeID secrets =
     (if length volumeID = 0 then
        State_Monad.return (Err (StatusError InvalidArgument ''Volume ID not provided'' [] None), vols)
      else do {
        r \<leftarrow> JfsDeleteVol E C Y volumeID volumeID secrets;
        State_Monad.return (case r of
            Err e \<Rightarrow> (Err (StatusError Internal ''Could not delVol in juicefs: %v'' [] (Some e)), vols)
          | Panic p \<Rightarrow> (Panic p, vols)
          | Ok _ \<Rightarrow> (Ok (), mdel volumeID vols))
      })"

definition ValidateVolumeCapabilities ::
  "vols \<Rightarrow> string \<Rightarrow> volume_capability list \<Rightarrow> goerr + volume_capability list option" where
  "ValidateVolumeCapabilities vols volumeID volCaps =
     (if length volumeID = 0 then Inl (StatusError InvalidArgument ''Volume ID not provided'' [] None)
      else if length volCaps = 0 then Inl (StatusError InvalidArgument ''Volume capabilities not provided'' [] None)
      else if \<not> mhas vols volumeID then Inl (StatusError NotFoundCode ''Could not get volume by ID %q'' [volumeID] None)
      else Inr (if isValidVolumeCapabilities volCaps then Some volCaps else None))"

datatype controller_cap = CREATE_DELETE_VOLUME

definition ControllerGetCapabilities :: "controller_cap list" where
  "ControllerGetCapabilities = [CREATE_DELETE_VOLUME]"

datatype unimplemented_rpc = GetCapacity | ListVolumes | CreateSnapshot | DeleteSnapshot | ListSnapshots
  | ControllerExpandVolume | ControllerPublishVolume | ControllerUnpublishVolume

definition controller_unimplemented :: "unimplemented_rpc \<Rightarrow> unit outcome" where
  "controller_unimplemented rpc = Err (StatusError Unimplemented '''' [] None)"

section \<open>Node service\<close>

record publish_request =
  pr_volumeId :: string
  pr_targetPath :: string
  pr_capability :: "volume_capability option"
  pr_readonly :: bool
  pr_volumeContext :: "gomap option"
  pr_secrets :: "gomap option"

text \<open>The options of the request itself: \<^verbatim>\<open>ro\<close> and the mount flags, as a map.\<close>

definition publish_options :: "publish_request \<Rightarrow> volume_capability \<Rightarrow> gomap" where
  "publish_options req volCap =
     fold (\<lambda>f m. mput f '''' m) (case vc_mountFlags volCap of None \<Rightarrow> [] | Some fs \<Rightarrow> fs)
       (if pr_readonly req \<or> vc_mode volCap = MULTI_NODE_READER_ONLY then [(''ro'', '''')] else [])"

definition render_option :: "string \<times> string \<Rightarrow> string" where
  "render_option kv = (if snd kv \<noteq> '''' then fst kv @ ''='' @ snd kv else fst kv)"

definition context_options :: "gomap option \<Rightarrow> string list" where
  "context_options volCtx =
     (case map_of (entries volCtx) ''mountOptions'' of None \<Rightarrow> [] | Some opts \<Rightarrow> Split opts '','')"

definition NodePublishVolume ::
  "env \<Rightarrow> config \<Rightarrow> decoders \<Rightarrow> publish_request \<Rightarrow> unit outcome prog" where
  "NodePublishVolume E C Y req = (
     let volumeID = pr_volumeId req; target = pr_targetPath req in
     if length target = 0 then
       State_Monad.return (Err (StatusError InvalidArgument ''Target path not provided'' [] None))
     else case pr_capability req of
       None \<Rightarrow> State_Monad.return (Err (StatusError InvalidArgument ''Volume capability not provided'' [] None))
     | Some volCap \<Rightarrow>
         if \<not> isValidVolumeCapabilities [volCap] then
           State_Monad.return (Err (StatusError InvalidArgument ''Volume capability not supported'' [] None))
         else do {
           err \<leftarrow> MkdirAll E target 493;
           (case err of
              Some e \<Rightarrow> State_Monad.return (Err (StatusError Internal ''Could not create dir %q: %v'' [target] (Some e)))
            | None \<Rightarrow> do {
                opts \<leftarrow> Range E (publish_options req volCap);
                let mountOptions = context_options (pr_volumeContext req) @ map render_option opts;
                m \<leftarrow> JfsMount E C Y volumeID target (pr_secrets req) (pr_volumeContext req) mountOptions;
                (case m of
                   Panic p \<Rightarrow> State_Monad.return (Panic p)
                 | Err e \<Rightarrow> State_Monad.return (Err (StatusError Internal ''Could not mount juicefs: %v'' [] (Some e)))
                 | Ok mountPath \<Rightarrow> do {
                     v \<leftarrow> CreateVol E mountPath (mindex (entries (pr_volumeContext req)) ''subPath'');
                     (case v of
                        Inl e \<Rightarrow> State_Monad.return (Err (StatusError Internal ''Could not create volume: %s, %v'' [volumeID] (Some e)))
                      | Inr bindSource \<Rightarrow> do {
                          b \<leftarrow> Mount E bindSource target ''none'' [''bind''];
                          (case b of
                             Some e \<Rightarrow> do {
                               _ \<leftarrow> Remove E target;
                               State_Monad.return (Err (StatusError Internal ''Could not bind %q at %q: %v'' [bindSource, target] (Some e)))
                             }
                           | None \<Rightarrow> State_Monad.return (Ok ()))
                        })
                   })
              })
         })"

text \<open>\<open>None\<close> is the fuel of the unmount loop running out, \<open>Some (Some e)\<close> the error the service returns.\<close>

definition NodeUnpublishVolume ::
  "nat \<Rightarrow> env \<Rightarrow> config \<Rightarrow> string \<Rightarrow> string \<Rightarrow> goerr option option prog" where
  "NodeUnpublishVolume fuel E C volumeId target =
     (if length target = 0 then
        State_Monad.return (Some (Some (StatusError InvalidArgument ''Target path not provided'' [] None)))
      else do {
        r \<leftarrow> JfsUnmount fuel E C volumeId target;
        State_Monad.return (case r of
            Some (Some e) \<Rightarrow> Some (Some (StatusError Internal ''Could not lazy unmount %q: %v'' [target] (Some e)))
          | _ \<Rightarrow> r)
      })"

datatype node_unimplemented_rpc = NodeStageVolume | NodeUnstageVolume | NodeExpandVolume | NodeGetVolumeStats

definition node_unimplemented :: "node_unimplemented_rpc \<Rightarrow> unit outcome" where
  "node_unimplemented rpc = Err (StatusError Unimplemented
     (case rpc of NodeGetVolumeStats \<Rightarrow> ''NodeGetVolumeStats is not implemented yet'' | _ \<Rightarrow> '''') [] None)"

section \<open>Identity service\<close>

datatype plugin_capability = CONTROLLER_SERVICE

definition GetPluginInfo :: "string \<Rightarrow> string \<times> string" where
  "GetPluginInfo driverVersion = (''csi.juicefs.com'', driverVersion)"

definition GetPluginCapabilities :: "plugin_capability list" where
  "GetPluginCapabilities = [CONTROLLER_SERVICE]"

end
