(* ===== verification/NodePublish.thy ===== *)
theory NodePublish
  imports CsiServices
begin

text \<open>
  What publishing and unpublishing a volume do: the node service of pkg/driver/node.go composed with the provider,
  the mount pods and the API server.
\<close>

section \<open>Publishing\<close>

text \<open>The part of \<^verbatim>\<open>NodePublishVolume\<close> after the checks of the request, when the volume is mounted.\<close>

lemma NodePublishVolume_wp:
  assumes mount: "\<And>opts s. P (pod_at init now (hist s)) \<Longrightarrow>
      wp (JfsMount E C Y (pr_volumeId req) (pr_targetPath req) (pr_secrets req) (pr_volumeContext req) opts)
        (\<lambda>r s'. \<forall>v. r = Ok v \<longrightarrow> v = v0 \<and> Q (pod_at init now (hist s'))) s"
    and "P (pod_at init now (hist s))"
  shows "wp (NodePublishVolume E C Y req) (\<lambda>r s'. r = Ok () \<longrightarrow>
     Q (pod_at init now (hist s')) \<and>
     (\<exists>h. hist s' = EvMount (filepath_Join [v0, mindex (entries (pr_volumeContext req)) ''subPath''])
        (pr_targetPath req) ''none'' [''bind''] None # h)) s"
proof (cases "pr_capability req")
  case (Some volCap)
  show ?thesis
  proof (cases "pr_targetPath req = '''' \<or> \<not> isValidVolumeCapabilities [volCap] \<or> o_mkdir_all E (hist s) (pr_targetPath req) 493 \<noteq> None")
    case False
    let ?sub = "mindex (entries (pr_volumeContext req)) ''subPath''"
    have create: "wp (CreateVol E v0 ?sub) (\<lambda>r t'. pod_at init now (hist t') = pod_at init now (hist t) \<and>
        (\<forall>v. r = Inr v \<longrightarrow> v = filepath_Join [v0, ?sub])) t" for t
      by (rule wp_conj [OF wp_keeps_pods [OF CreateVol_keeps] CreateVol_path])
    show ?thesis
      using False Some assms(2)
      apply (simp add: NodePublishVolume_def Let_def wp_simps os_defs)
      apply (rule wp_mono [OF mount])
       apply (simp add: pod_at_keeps)
      subgoal for m t
        apply (cases m)
          apply (simp_all add: wp_simps)
        apply (rule wp_mono [OF create])
        subgoal for v t'
          by (cases v; cases "m_mount E (hist t') (filepath_Join [v0, ?sub]) (pr_targetPath req) ''none'' [''bind'']")
            (simp_all add: wp_simps os_defs pod_at_keeps)
        done
      done
  next
    case True
    with Some show ?thesis by (auto simp: NodePublishVolume_def Let_def wp_simps os_defs)
  qed
qed (simp add: NodePublishVolume_def Let_def wp_simps)

lemma NodePublishVolume_server:
  assumes "retry_documented E" "finalizers_documented E" "api_documented init now E"
    and "pr_secrets req \<noteq> None" "\<not> ByProcess C"
  shows "wp (NodePublishVolume E C Y req) (\<lambda>r s'. r = Ok () \<longrightarrow>
     (\<exists>p. pod_at init now (hist s') (Namespace C) (GenerateNameByVolumeId C (pr_volumeId req)) = Some p \<and>
        mounted_for p (pr_targetPath req) \<and> IsPodReady p) \<and>
     (\<exists>h. hist s' = EvMount (filepath_Join [filepath_Join [PodMountBase, pr_volumeId req],
            mindex (entries (pr_volumeContext req)) ''subPath'']) (pr_targetPath req) ''none'' [''bind''] None # h)) s"
proof (rule NodePublishVolume_wp [where P = "\<lambda>_. True"])
  show "wp (JfsMount E C Y (pr_volumeId req) (pr_targetPath req) (pr_secrets req) (pr_volumeContext req) opts) (\<lambda>r t. \<forall>v. r = Ok v \<longrightarrow>
      v = filepath_Join [PodMountBase, pr_volumeId req] \<and>
     (\<exists>p. pod_at init now (hist t) (Namespace C) (GenerateNameByVolumeId C (pr_volumeId req)) = Some p \<and>
        mounted_for p (pr_targetPath req) \<and> IsPodReady p)) t0" for opts t0
    by (rule wp_mono [OF wp_conj [OF JfsMount_path JfsMount_server [OF assms]]])
      (use assms(4,5) in \<open>auto simp: mount_root_def\<close>)
qed simp

definition valid_request :: "publish_request \<Rightarrow> bool" where
  "valid_request req \<longleftrightarrow> pr_targetPath req \<noteq> '''' \<and>
     (\<exists>volCap. pr_capability req = Some volCap \<and> vc_mode volCap \<in> set volumeCaps)"

fun invalid_argument :: "'a outcome \<Rightarrow> bool" where
  "invalid_argument (Err (StatusError InvalidArgument _ _ _)) = True"
| "invalid_argument _ = False"

lemma isValidVolumeCapabilities_iff:
  "isValidVolumeCapabilities volCaps \<longleftrightarrow> (\<forall>c \<in> set volCaps. vc_mode c \<in> set volumeCaps)"
proof -
  have "fold (\<lambda>c foundAll. if \<not> list_ex (\<lambda>m. m = vc_mode c) volumeCaps then False else foundAll) cs b \<longleftrightarrow>
      b \<and> (\<forall>c \<in> set cs. vc_mode c \<in> set volumeCaps)" for cs b
    by (induction cs arbitrary: b) (auto simp: list_ex_iff)
  from this [of volCaps True] show ?thesis unfolding isValidVolumeCapabilities_def by (simp only: simp_thms)
qed

text \<open>
  \<^verbatim>\<open>NodePublishVolume\<close> answers \<^verbatim>\<open>InvalidArgument\<close> exactly to a request without a target path or without a
  supported capability, and such a request has no effect at all.
\<close>

theorem NodePublishVolume_rejects_invalid:
  "(invalid_argument (fst (run_state (NodePublishVolume E C Y req) s)) \<longleftrightarrow> \<not> valid_request req) \<and>
   (valid_request req \<or> snd (run_state (NodePublishVolume E C Y req) s) = s)"
proof (cases "valid_request req")
  case True
  then obtain volCap where "pr_capability req = Some volCap" "vc_mode volCap \<in> set volumeCaps" "pr_targetPath req \<noteq> []"
    by (auto simp: valid_request_def)
  then have "wp (NodePublishVolume E C Y req) (\<lambda>r s'. \<not> invalid_argument r) s"
    apply (cases "o_mkdir_all E (hist s) (pr_targetPath req) 493")
     apply (simp_all add: NodePublishVolume_def Let_def wp_simps os_defs isValidVolumeCapabilities_iff)
    apply (rule wp_any)
    subgoal for m t
      by (cases m) (simp_all add: wp_simps, rule wp_any, auto simp: wp_simps split: sum.split option.split)
    done
  with True show ?thesis by (simp add: wp_def split_beta)
next
  case False
  then show ?thesis
    by (auto simp: valid_request_def NodePublishVolume_def Let_def isValidVolumeCapabilities_iff split: option.splits)
qed

text \<open>
  C4: when \<^verbatim>\<open>NodePublishVolume\<close> succeeds, its last action was to bind the volume's directory below the mount path at
  the target; with mount pods and a secret, the API server then holds a ready mount pod of the volume that is not being deleted
  and carries the target's reference.
\<close>

theorem NodePublishVolume_exposes_volume:
  assumes "retry_documented E" "finalizers_documented E" "api_documented init now E"
    and "pr_secrets req \<noteq> None" "\<not> ByProcess C"
    and "run_state (NodePublishVolume E C Y req) s = (Ok (), s')"
  shows "(\<exists>h. hist s' = EvMount (filepath_Join [filepath_Join [PodMountBase, pr_volumeId req],
            mindex (entries (pr_volumeContext req)) ''subPath'']) (pr_targetPath req) ''none'' [''bind''] None # h) \<and>
     (\<exists>p. pod_at init now (hist s') (Namespace C) (GenerateNameByVolumeId C (pr_volumeId req)) = Some p \<and>
        p_deletionTimestamp p = None \<and> IsPodReady p \<and>
        mhas (entries (p_annotations p)) (GetReferenceKey (pr_targetPath req)))"
  using wp_run [OF assms(6) NodePublishVolume_server [OF assms(1-5)]] by (auto simp: mounted_for_def)

definition sim_request :: publish_request where
  "sim_request = \<lparr>pr_volumeId = ''pvc'', pr_targetPath = ''/b'',
     pr_capability = Some \<lparr>vc_mode = MULTI_NODE_MULTI_WRITER, vc_mountFlags = None\<rparr>, pr_readonly = False,
     pr_volumeContext = Some [(''subPath'', ''dir'')], pr_secrets = Some [(''name'', ''test'')]\<rparr>"

lemmas publish_defs = NodePublishVolume_def JfsMount_def MountFs_def getSettings_def ParseSetting_def parseYamlOrJson_def
  parse_volCtx_def CreateVol_def pod_mount_def isValidVolumeCapabilities_def volumeCaps_def publish_options_def context_options_def os_defs

lemma sim_publish_ok:
  "fst (run_state (NodePublishVolume (sim_env [sim_mount_pod]) sim_config sim_decoders sim_request) sim_state) = Ok ()"
  by (simp add: publish_defs pod_mount_defs sim_run_defs sim_decoders_def sim_request_def eval_nat_numeral pod_at_keeps mhas_def mindex_def)

theorem NodePublishVolume_exposes_volume_witness:
  "\<exists>p. pod_at (sim_pods [sim_mount_pod]) 0
       (hist (snd (run_state (NodePublishVolume (sim_env [sim_mount_pod]) sim_config sim_decoders sim_request) sim_state)))
       ''kube-system'' ''juicefs-node-pvc'' = Some p \<and> IsPodReady p \<and> mhas (entries (p_annotations p)) (GetReferenceKey ''/b'')"
proof -
  let ?m = "NodePublishVolume (sim_env [sim_mount_pod]) sim_config sim_decoders sim_request"
  have run: "run_state ?m sim_state = (Ok (), snd (run_state ?m sim_state))" using sim_publish_ok by (simp add: prod_eq_iff)
  have req: "pr_secrets sim_request \<noteq> None" "\<not> ByProcess sim_config" by (simp_all add: sim_request_def sim_config_def)
  have names: "Namespace sim_config = ''kube-system''" "GenerateNameByVolumeId sim_config (pr_volumeId sim_request) = ''juicefs-node-pvc''"
    "pr_targetPath sim_request = ''/b''"
    by (simp_all add: sim_config_def sim_request_def GenerateNameByVolumeId_def)
  show ?thesis
    using NodePublishVolume_exposes_volume [OF sim_retry sim_finalizers sim_api req run] unfolding names by blast
qed

section \<open>Unpublishing\<close>

lemma umount_loop_keeps: "emits keeps_pods (umount_loop fuel E path)"
  by (induction fuel) (auto intro!: emits_intros)

lemma JfsUnmount_server:
  assumes "retry_documented E" "api_documented init now E" "\<not> ByProcess C"
    and "pod_at init now (hist s) (Namespace C) (GenerateNameByVolumeId C volumeId) = Some p" "p_deletionTimestamp p = None"
  shows "wp (JfsUnmount fuel E C volumeId target) (\<lambda>r s'. r = Some None \<longrightarrow>
     released now (remove_ref target p) (pod_at init now (hist s') (Namespace C) (GenerateNameByVolumeId C volumeId))) s"
  using assms(3)
  apply (simp add: JfsUnmount_def wp_simps)
  apply (rule wp_mono [OF wp_keeps_pods [OF umount_loop_keeps, of fuel E target init now]])
  subgoal for l t
    apply (cases l; cases "the l"; cases "m_cleanup E (hist t) target")
           apply (simp_all add: wp_simps JfsCleanupMountPoint_def os_defs)
    apply (rule wp_mono [OF JUmount_server [OF assms(1,2), where p = p]])
      apply (simp_all add: pod_at_keeps assms(4,5))
    done
  done

text \<open>A pod held by the server no longer carries the reference of a target.\<close>

definition unreferenced :: "string \<Rightarrow> pod option \<Rightarrow> bool" where
  "unreferenced target q \<longleftrightarrow> (\<forall>p. q = Some p \<longrightarrow> \<not> mhas (entries (p_annotations p)) (GetReferenceKey target))"

lemma released_unreferenced: "released now (remove_ref target p) q \<Longrightarrow> unreferenced target q"
  by (auto simp: released_def unreferenced_def after_delete_def stamped_def remove_ref_def mhas_def split: if_splits)

lemma NodeUnpublishVolume_server:
  assumes "retry_documented E" "api_documented init now E" "\<not> ByProcess C"
    and "pod_at init now (hist s) (Namespace C) (GenerateNameByVolumeId C volumeId) = Some p" "p_deletionTimestamp p = None"
  shows "wp (NodeUnpublishVolume fuel E C volumeId target) (\<lambda>r s'. r = Some None \<longrightarrow>
     released now (remove_ref target p) (pod_at init now (hist s') (Namespace C) (GenerateNameByVolumeId C volumeId))) s"
  unfolding NodeUnpublishVolume_def
  by (auto simp: wp_simps intro!: wp_mono [OF JfsUnmount_server [OF assms]] split: option.splits)

text \<open>
  C5: a successful \<^verbatim>\<open>NodePublishVolume\<close> followed by a successful \<^verbatim>\<open>NodeUnpublishVolume\<close> of the same volume and target
  leaves no reference of the target on the API server, whatever pod was there before: the volume's pod is gone or
  no longer carries it.
\<close>

theorem publish_unpublish_releases:
  assumes "retry_documented E" "finalizers_documented E" "api_documented init now E"
    and "pr_secrets req \<noteq> None" "\<not> ByProcess C"
    and "run_state (NodePublishVolume E C Y req) s = (Ok (), s1)"
    and "run_state (NodeUnpublishVolume fuel E C (pr_volumeId req) (pr_targetPath req)) s1 = (Some None, s2)"
  shows "unreferenced (pr_targetPath req)
     (pod_at init now (hist s2) (Namespace C) (GenerateNameByVolumeId C (pr_volumeId req)))"
proof -
  obtain p where p: "pod_at init now (hist s1) (Namespace C) (GenerateNameByVolumeId C (pr_volumeId req)) = Some p"
    "mounted_for p (pr_targetPath req)"
    using wp_run [OF assms(6) NodePublishVolume_server [OF assms(1-5)]] by auto
  have "p_deletionTimestamp p = None" using p(2) by (simp add: mounted_for_def)
  from wp_run [OF assms(7) NodeUnpublishVolume_server [OF assms(1,3,5) p(1) this]] show ?thesis
    by (intro released_unreferenced) simp
qed

definition sim_umount_env :: env where
  "sim_umount_env = (sim_env [sim_mount_pod])\<lparr>o_exec := \<lambda>h c args envs. (''not mounted'', Some (ExtError ''exit status 32''))\<rparr>"

lemma sim_umount_doc:
  "retry_documented sim_umount_env" "finalizers_documented sim_umount_env"
  "api_documented (sim_pods [sim_mount_pod]) 0 sim_umount_env"
  using sim_retry [of "[sim_mount_pod]"] sim_finalizers [of "[sim_mount_pod]"] sim_api [of "[sim_mount_pod]"]
  by (simp_all add: sim_umount_env_def retry_documented_def finalizers_documented_def api_documented_def
      api_reads_def api_creates_def)

lemma sim_published:
  "fst (run_state (NodePublishVolume sim_umount_env sim_config sim_decoders sim_request) sim_state) = Ok ()"
  "pod_at (sim_pods [sim_mount_pod]) 0
     (hist (snd (run_state (NodePublishVolume sim_umount_env sim_config sim_decoders sim_request) sim_state)))
     ''kube-system'' ''juicefs-node-pvc'' =
   Some (sim_mount_pod\<lparr>p_annotations := Some [(GetReferenceKey ''/b'', ''/b'')]\<rparr>)"
  by (simp_all add: sim_umount_env_def publish_defs pod_mount_defs sim_run_defs sim_decoders_def sim_request_def eval_nat_numeral
      pod_at_keeps mhas_def mindex_def)

lemma sim_unpublished:
  assumes "pod_at (sim_pods [sim_mount_pod]) 0 (hist s1) ''kube-system'' ''juicefs-node-pvc'' =
      Some (sim_mount_pod\<lparr>p_annotations := Some [(GetReferenceKey ''/b'', ''/b'')]\<rparr>)"
  shows "fst (run_state (NodeUnpublishVolume 1 sim_umount_env sim_config ''pvc'' ''/b'') s1) = Some None"
  using assms
  by (simp add: NodeUnpublishVolume_def JfsUnmount_def umount_benign_def Contains_def JfsCleanupMountPoint_def os_defs
      sim_umount_env_def pod_mount_defs sim_env_def sim_config_def sim_mount_pod_def zero_defs named_def
      pod_at_keeps mhas_def HasRef_def HasPrefix_def)

theorem publish_unpublish_releases_witness:
  "let s1 = snd (run_state (NodePublishVolume sim_umount_env sim_config sim_decoders sim_request) sim_state);
       s2 = snd (run_state (NodeUnpublishVolume 1 sim_umount_env sim_config ''pvc'' ''/b'') s1)
   in unreferenced ''/b'' (pod_at (sim_pods [sim_mount_pod]) 0 (hist s2) ''kube-system'' ''juicefs-node-pvc'')"
proof -
  let ?s1 = "snd (run_state (NodePublishVolume sim_umount_env sim_config sim_decoders sim_request) sim_state)"
  let ?m2 = "NodeUnpublishVolume 1 sim_umount_env sim_config ''pvc'' ''/b''"
  have req: "pr_secrets sim_request \<noteq> None" "\<not> ByProcess sim_config" by (simp_all add: sim_request_def sim_config_def)
  have one: "run_state (NodePublishVolume sim_umount_env sim_config sim_decoders sim_request) sim_state = (Ok (), ?s1)"
    using sim_published(1) by (simp add: prod_eq_iff)
  have names: "Namespace sim_config = ''kube-system''" "GenerateNameByVolumeId sim_config ''pvc'' = ''juicefs-node-pvc''"
    "pr_targetPath sim_request = ''/b''" "pr_volumeId sim_request = ''pvc''"
    by (simp_all add: sim_config_def sim_request_def GenerateNameByVolumeId_def)
  have two: "run_state (NodeUnpublishVolume 1 sim_umount_env sim_config (pr_volumeId sim_request) (pr_targetPath sim_request)) ?s1 =
      (Some None, snd (run_state ?m2 ?s1))"
    using sim_unpublished [OF sim_published(2)] by (simp add: prod_eq_iff names)
  from publish_unpublish_releases [OF sim_umount_doc req one two] show ?thesis unfolding names Let_def .
qed

end
