(* ===== verification/NodeSessions.thy ===== *)
theory NodeSessions
  imports PodEffects NodePublish PodDriver
begin

text \<open>
  Executions of the driver on a node: requests to publish and unpublish volumes, which may fail at any point, and the steps
  of the reconciler, in any order. A target that was published keeps its mount pod until it is unpublished, its workload is
  gone, or the pod is deployed again for want of resources.
\<close>

section \<open>Published targets\<close>

text \<open>The pod of a volume on the server, when the keys \<open>K\<close> are published: alive with their references if there is one.\<close>

definition slot_ok :: "string set \<Rightarrow> pod option \<Rightarrow> bool" where
  "slot_ok K q \<longleftrightarrow> (\<forall>p. q = Some p \<longrightarrow> stored p \<and> wf_refs p) \<and>
     (K \<noteq> {} \<longrightarrow> (\<exists>p. q = Some p \<and> p_deletionTimestamp p = None \<and> K \<subseteq> ref_keys p))"

lemma mount_effect_slot: "mount_effect t old new \<Longrightarrow> slot_ok K old \<Longrightarrow> slot_ok K new"
  by (auto simp: mount_effect_def slot_ok_def new_pod_def stored_def refs.inv_add refs.refs_add)

lemma wf_refs_stamped: "wf_refs p \<Longrightarrow> wf_refs (stamped at p)"
  by (auto simp: wf_refs_def stamped_def set_mput)

lemma wf_refs_after_delete: "wf_refs p \<Longrightarrow> after_delete now p = Some q \<Longrightarrow> wf_refs q \<and> stored q"
  by (clarsimp simp: wf_refs_def after_delete_def stored_def split: if_splits)

lemma dropped_slot:
  assumes "dropped now p q" "slot_ok K (Some p)"
  shows "slot_ok K q"
proof (cases "HasRef p")
  case True
  with assms show ?thesis by (simp add: dropped_def)
next
  case False
  with assms(2) have "K = {}" by (auto simp: slot_ok_def HasRef_iff)
  with assms show ?thesis using wf_refs_stamped wf_refs_after_delete by (auto simp: dropped_def slot_ok_def)
qed

lemma umounted_slot: "umounted now t old new \<Longrightarrow> slot_ok K old \<Longrightarrow> slot_ok (K - {GetReferenceKey t}) new"
proof -
  assume um: "umounted now t old new" and ok: "slot_ok K old"
  have "slot_ok (K - {GetReferenceKey t}) old" using ok by (auto simp: slot_ok_def)
  moreover have "slot_ok (K - {GetReferenceKey t}) (Some (remove_ref t p))" if "old = Some p" for p
    using ok that by (auto simp: slot_ok_def refs.inv_del refs.refs_del)
  ultimately show ?thesis using um dropped_slot by (auto simp: umounted_def)
qed

text \<open>The published keys of every volume.\<close>

definition in_use :: "(string \<Rightarrow> string \<Rightarrow> pod option) \<Rightarrow> int \<Rightarrow> config \<Rightarrow> (string \<Rightarrow> string set) \<Rightarrow> gst \<Rightarrow> bool" where
  "in_use init now C P s \<longleftrightarrow> (\<forall>v. slot_ok (P v) (pod_at init now (hist s) (Namespace C) (GenerateNameByVolumeId C v)))"

lemma in_use_pods: "pod_at init now (hist s') = pod_at init now (hist s) \<Longrightarrow> in_use init now C P s \<Longrightarrow> in_use init now C P s'"
  by (simp add: in_use_def)

lemma JMount_in_use:
  assumes doc: "retry_documented E" "finalizers_documented E" "api_documented init now E" and "plain_annotations js"
    and "in_use init now C P s"
  shows "wp (JMount E C js) (\<lambda>r s'. in_use init now C P s' \<and>
     (r = Ok () \<longrightarrow> in_use init now C (P(js_VolumeId js := insert (GetReferenceKey (js_TargetPath js)) (P (js_VolumeId js)))) s')) s"
proof -
  let ?slot = "\<lambda>s v. pod_at init now (hist s) (Namespace C) (GenerateNameByVolumeId C v)"
  have other: "wp (JMount E C js) (\<lambda>_ s'. \<forall>v. v \<noteq> js_VolumeId js \<longrightarrow> ?slot s' v = ?slot s v) s"
    unfolding wp_def
    using wp_writes_other [OF JMount_writes [OF mnt_documentedI [OF doc]], of _ C js init now s] GenerateNameByVolumeId_inj [of C]
    by (auto simp: wp_def split_beta)
  show ?thesis
  proof (rule wp_mono [OF wp_conj [OF JMount_any [OF assms(1-4)] wp_conj [OF JMount_server [OF doc] other]]], goal_cases)
    case (1 r s')
    have slots: "slot_ok (P v) (?slot s' v)" for v
      using 1 assms(5) by (cases "v = js_VolumeId js") (auto simp: in_use_def intro: mount_effect_slot)
    moreover have "slot_ok (insert (GetReferenceKey (js_TargetPath js)) (P (js_VolumeId js))) (?slot s' (js_VolumeId js))" if ok: "r = Ok ()"
    proof -
      obtain p where p: "?slot s' (js_VolumeId js) = Some p" "mounted_for p (js_TargetPath js)" using 1 ok by auto
      with slots [of "js_VolumeId js"] show ?thesis
        by (auto simp: slot_ok_def mounted_for_def mhas_ref_key)
    qed
    ultimately show ?case by (auto simp: in_use_def)
  qed
qed

lemma JUmount_in_use:
  assumes doc: "retry_documented E" "finalizers_documented E" "api_documented init now E"
    and "in_use init now C P s"
  shows "wp (JUmount E C v t) (\<lambda>_ s'. in_use init now C (P(v := P v - {GetReferenceKey t})) s') s"
proof -
  let ?slot = "\<lambda>s v. pod_at init now (hist s) (Namespace C) (GenerateNameByVolumeId C v)"
  have other: "wp (JUmount E C v t) (\<lambda>_ s'. \<forall>w. w \<noteq> v \<longrightarrow> ?slot s' w = ?slot s w) s"
    unfolding wp_def
    using wp_writes_other [OF JUmount_writes [OF mnt_documentedI [OF doc]], of _ C v t init now s] GenerateNameByVolumeId_inj [of C]
    by (auto simp: wp_def split_beta)
  have any: "wp (JUmount E C v t) (\<lambda>_ s'. umounted now t (?slot s v) (?slot s' v)) s"
    by (rule JUmount_any [OF doc(1,3)]) (use assms(4) in \<open>auto simp: in_use_def slot_ok_def\<close>)
  show ?thesis
    by (rule wp_mono [OF wp_conj [OF any other]]) (use assms(4) in \<open>auto simp: in_use_def intro: umounted_slot\<close>)
qed

text \<open>A request whose settings have such annotations.\<close>

definition plain_request :: "env \<Rightarrow> config \<Rightarrow> decoders \<Rightarrow> publish_request \<Rightarrow> bool" where
  "plain_request E C Y req \<longleftrightarrow>
     okE plain_annotations (ParseSetting E C Y (pr_secrets req) (pr_volumeContext req) (\<not> ByProcess C))"

lemma getSettings_annotations:
  assumes "okE plain_annotations (ParseSetting E C Y secrets volCtx (\<not> ByProcess C))"
  shows "wp (getSettings E C Y volumeID target secrets volCtx options) (\<lambda>r _. \<forall>js. r = Inr js \<longrightarrow> plain_annotations js) s"
proof (cases "ParseSetting E C Y secrets volCtx (\<not> ByProcess C)")
  case (Inr js0)
  have "wp (getSettings E C Y volumeID target secrets volCtx options)
      (\<lambda>r _. \<forall>js. r = Inr js \<longrightarrow> js_MountPodAnnotations js = js_MountPodAnnotations js0) s"
    unfolding getSettings_def Inr sum.case Let_def
    by (auto simp: wp_simps intro!: wp_any split: if_splits sum.splits)
  then show ?thesis by (rule wp_mono) (use assms Inr in \<open>simp add: okE_def plain_annotations_def\<close>)
qed (simp add: getSettings_def wp_simps)

lemma JfsMount_in_use:
  assumes doc: "retry_documented E" "finalizers_documented E" "api_documented init now E" and req: "plain_request E C Y req"
    and proc: "\<not> ByProcess C" "pr_secrets req \<noteq> None" and "in_use init now C P s"
  defines "v \<equiv> pr_volumeId req" and "t \<equiv> pr_targetPath req"
  shows "wp (JfsMount E C Y v t (pr_secrets req) (pr_volumeContext req) opts) (\<lambda>r s'. in_use init now C P s' \<and>
     (\<forall>m. r = Ok m \<longrightarrow> in_use init now C (P(v := insert (GetReferenceKey t) (P v))) s')) s"
proof -
  let ?get = "getSettings E C Y v t (pr_secrets req) (pr_volumeContext req) opts"
  have "wp ?get (\<lambda>r s'. (\<forall>js. r = Inr js \<longrightarrow> plain_annotations js) \<and> (\<forall>js. r = Inr js \<longrightarrow> request_fields C v t (pr_secrets req) js) \<and>
      pod_at init now (hist s') = pod_at init now (hist s)) s"
    by (intro wp_conj getSettings_fields wp_keeps_pods getSettings_keeps getSettings_annotations)
      (use req in \<open>simp add: plain_request_def\<close>)
  then show ?thesis
    unfolding JfsMount_def wp_bind
  proof (rule wp_mono, goal_cases)
    case (1 r s1)
    then have use: "in_use init now C P s1" using assms(7) in_use_pods by blast
    show ?case
    proof (cases r)
      case (Inl e)
      with use show ?thesis by (simp add: wp_simps)
    next
      case (Inr js)
      with 1 proc have js: "js_VolumeId js = v" "js_TargetPath js = t" "js_UsePod js" "plain_annotations js"
        by (auto simp: request_fields_def)
      let ?js = "js\<lparr>js_MountPath := filepath_Join [PodMountBase, v]\<rparr>"
      have "plain_annotations ?js" using js(4) by (simp add: plain_annotations_def)
      from JMount_in_use [OF doc this use] Inr js proc(1) show ?thesis
        apply (simp add: MountFs_def pod_mount_def Let_def wp_simps)
        apply (erule wp_mono)
        apply (auto simp add: wp_simps split: outcome.splits)
        done
    qed
  qed
qed

lemma NodePublishVolume_in_use:
  assumes doc: "retry_documented E" "finalizers_documented E" "api_documented init now E" and req: "plain_request E C Y req"
    and proc: "\<not> ByProcess C" "pr_secrets req \<noteq> None" and use: "in_use init now C P s"
  defines "v \<equiv> pr_volumeId req" and "t \<equiv> pr_targetPath req"
  shows "wp (NodePublishVolume E C Y req) (\<lambda>r s'. in_use init now C P s' \<and>
     (r = Ok () \<longrightarrow> in_use init now C (P(v := insert (GetReferenceKey t) (P v))) s')) s"
proof (cases "pr_capability req")
  case (Some volCap)
  show ?thesis
  proof (cases "pr_targetPath req = '''' \<or> \<not> isValidVolumeCapabilities [volCap] \<or> o_mkdir_all E (hist s) (pr_targetPath req) 493 \<noteq> None")
    case False
    let ?sub = "mindex (entries (pr_volumeContext req)) ''subPath''"
    show ?thesis
      using False Some
      apply (simp add: NodePublishVolume_def Let_def wp_simps os_defs)
      apply (rule wp_mono [OF JfsMount_in_use [OF doc req proc, of P]])
      subgoal using use by (rule in_use_pods [rotated]) (simp add: pod_at_keeps)
      subgoal for m s1
        apply (cases m)
          apply (simp_all add: wp_simps v_def t_def)
        apply (rule wp_mono [OF wp_keeps_pods [OF CreateVol_keeps, of _ _ _ init now]])
        subgoal for path r s2
          by (cases r; cases "m_mount E (hist s2) (projr r) (pr_targetPath req) ''none'' [''bind'']")
            (auto simp: wp_simps os_defs in_use_def pod_at_keeps)
        done
      done
  next
    case True
    with Some use show ?thesis by (auto simp: NodePublishVolume_def Let_def wp_simps os_defs in_use_def pod_at_keeps)
  qed
qed (use use in \<open>simp add: NodePublishVolume_def Let_def wp_simps\<close>)

lemma in_use_less: "in_use init now C P s \<Longrightarrow> (\<And>v. Q v \<subseteq> P v) \<Longrightarrow> in_use init now C Q s"
  unfolding in_use_def slot_ok_def by (metis subset_empty subset_trans)

lemma NodeUnpublishVolume_in_use:
  assumes doc: "retry_documented E" "finalizers_documented E" "api_documented init now E"
    and "\<not> ByProcess C" "in_use init now C P s"
  shows "wp (NodeUnpublishVolume fuel E C v t) (\<lambda>_ s'. in_use init now C (P(v := P v - {GetReferenceKey t})) s') s"
proof -
  let ?Q = "P(v := P v - {GetReferenceKey t})"
  have less: "in_use init now C P s' \<Longrightarrow> in_use init now C ?Q s'" for s' by (erule in_use_less) auto
  show ?thesis
    unfolding NodeUnpublishVolume_def JfsUnmount_def using assms(4)
    apply (simp add: wp_simps)
    apply (intro conjI impI)
    subgoal using less [OF assms(5)] by simp
    apply (rule wp_mono [OF wp_keeps_pods [OF umount_loop_keeps, of fuel E t init now]])
    subgoal for l s1
      apply (drule in_use_pods [OF _ assms(5)])
      apply (cases l; cases "the l"; cases "m_cleanup E (hist s1) t")
             apply (simp_all add: wp_simps JfsCleanupMountPoint_def os_defs less)
       apply (rule JUmount_in_use [OF doc])
       apply (simp add: in_use_def pod_at_keeps)
      apply (rule less)
      apply (simp add: in_use_def pod_at_keeps)
      done
    done
qed

lemma delete_if_due_any:
  assumes "pod_at init now (hist s) ns n = Some p" "named ns n p" "stored p" "\<not> HasRef p"
  shows "wp (delete_if_due E p) (\<lambda>_ s'. dropped now p (pod_at init now (hist s') ns n)) s"
  unfolding delete_if_due_def wp_bind
  apply (rule wp_mono [OF ShouldDelay_server [OF assms(1-3)]])
  subgoal for a s'
    using assms(4)
    by (cases a; cases "fst (snd a)"; cases "fst a"; cases "k_pod_delete E (hist s') ns n")
      (auto simp: wp_simps client_defs named_def after_delete_def dropped_def)
  done

text \<open>The pod as \<^verbatim>\<open>checkAnnotations\<close> writes it.\<close>

definition checked :: "mountInfoTable \<Rightarrow> pod \<Rightarrow> pod" where
  "checked mit pod = pod\<lparr>p_annotations :=
     (let m = entries (p_annotations pod); m' = live_annotations mit m in if length m = length m' then p_annotations pod else Some m')\<rparr>"

lemma checked_annotations: "entries (p_annotations (checked mit pod)) = live_annotations mit (entries (p_annotations pod))"
  using live_annotations_same [of "entries (p_annotations pod)" mit] by (auto simp: checked_def Let_def)

lemma checked_sel [simp]:
  "p_deletionTimestamp (checked mit p) = p_deletionTimestamp p" "p_name (checked mit p) = p_name p"
  "p_namespace (checked mit p) = p_namespace p" "p_finalizers (checked mit p) = p_finalizers p" "stored (checked mit p) = stored p"
  by (simp_all add: checked_def stored_def)

lemma checked_refs: "ref_keys (checked mit p) = {k. \<exists>t. (k, t) \<in> set (entries (p_annotations p)) \<and> is_ref (k, t) \<and> \<not> dead_ref mit (k, t)}"
  by (auto simp: ref_keys_def checked_annotations live_annotations_filter kept_def is_ref_def)

lemma checked_HasRef: "live_targets mit (entries (p_annotations p)) = 0 \<longleftrightarrow> \<not> HasRef (checked mit p)"
  by (auto simp: HasRef_iff checked_refs live_targets_zero)

lemma checkAnnotations_any:
  assumes "pod_at init now (hist s) ns n = Some p" "named ns n p" "stored p"
  shows "wp (checkAnnotations E mit p) (\<lambda>_ s'. pod_at init now (hist s') ns n = Some p \<or>
     dropped now (checked mit p) (pod_at init now (hist s') ns n)) s"
proof -
  let ?m = "entries (p_annotations p)"
  let ?h = "EvLock (GetPodLock (p_name p)) # hist s"
  have same: "length ?m = length (live_annotations mit ?m) \<Longrightarrow> checked mit p = p" by (simp add: checked_def)
  have upd: "length ?m \<noteq> length (live_annotations mit ?m) \<Longrightarrow> p\<lparr>p_annotations := Some (live_annotations mit ?m)\<rparr> = checked mit p"
    by (simp add: checked_def)
  have del: "pod_at init now (hist s') ns n = Some (checked mit p) \<Longrightarrow> live_targets mit ?m = 0 \<Longrightarrow>
      wp (delete_if_due E (checked mit p)) (\<lambda>_ s'. dropped now (checked mit p) (pod_at init now (hist s') ns n)) s'" for s'
    using assms by (intro delete_if_due_any) (simp_all add: named_def checked_HasRef)
  show ?thesis
    unfolding checkAnnotations_def Let_def wp_with_lock
    using assms
    apply (cases "length ?m = length (live_annotations mit ?m)")
    subgoal
      using same del by (auto simp: wp_simps dropped_def intro!: wp_mono [OF del])
    subgoal
      using upd
      apply (cases "k_pod_update E ?h (checked mit p)")
       apply (auto simp: wp_simps client_defs named_def stored_def dropped_def intro!: wp_mono [OF del])
      done
    done
qed

text \<open>The references that \<^verbatim>\<open>checkAnnotations\<close> takes for dead.\<close>

definition dead_keys :: "mountInfoTable \<Rightarrow> pod \<Rightarrow> string set" where
  "dead_keys mit p = {k. \<exists>t. (k, t) \<in> set (entries (p_annotations p)) \<and> dead_ref mit (k, t)}"

lemma checked_slot:
  assumes "slot_ok K (Some p)"
  shows "slot_ok (K - dead_keys mit p) (Some (checked mit p))"
proof -
  from assms have p: "stored p" "wf_refs p" by (simp_all add: slot_ok_def)
  have "wf_refs (checked mit p)"
    using p(2) by (auto simp: wf_refs_def checked_annotations live_annotations_filter)
  moreover have "k \<in> ref_keys (checked mit p)" if "k \<in> ref_keys p" "k \<notin> dead_keys mit p" for k
    using that unfolding checked_refs by (auto simp: ref_keys_def dead_keys_def is_ref_def)
  ultimately show ?thesis using assms p by (auto simp: slot_ok_def)
qed

lemma delete_if_due_writes: "named ns n p \<Longrightarrow> emits (writes_pod ns n) (delete_if_due E p)"
  unfolding delete_if_due_def
  by (rule emits_bind_wp [OF ShouldDelay_writes ShouldDelay_named])
    (auto intro!: emits_intros simp: named_def split: prod.splits)

lemma checkAnnotations_writes: "named ns n p \<Longrightarrow> emits (writes_pod ns n) (checkAnnotations E mit p)"
  unfolding checkAnnotations_def Let_def
  by (intro emits_with_lock emits_bind_wp [where R = "\<lambda>(err, p1). named ns n p1"])
    (auto intro!: emits_intros delete_if_due_writes simp: named_def wp_simps client_defs)

lemma checkAnnotations_in_use:
  assumes "pod_at init now (hist s) (Namespace C) (GenerateNameByVolumeId C v) = Some p" "named (Namespace C) (GenerateNameByVolumeId C v) p"
    and "in_use init now C P s"
  shows "wp (checkAnnotations E mit p) (\<lambda>_ s'. in_use init now C (P(v := P v - dead_keys mit p)) s') s"
proof -
  let ?slot = "\<lambda>s v. pod_at init now (hist s) (Namespace C) (GenerateNameByVolumeId C v)"
  have ok: "slot_ok (P v) (Some p)" using assms(1,3) by (metis in_use_def)
  then have stored: "stored p" by (simp add: slot_ok_def)
  have less: "slot_ok (P v - dead_keys mit p) (Some p)" using ok by (auto simp: slot_ok_def)
  have other: "wp (checkAnnotations E mit p) (\<lambda>_ s'. \<forall>w. w \<noteq> v \<longrightarrow> ?slot s' w = ?slot s w) s"
    unfolding wp_def
    using wp_writes_other [OF checkAnnotations_writes [OF assms(2)], of _ E mit init now s] GenerateNameByVolumeId_inj [of C]
    by (auto simp: wp_def split_beta)
  show ?thesis
    by (rule wp_mono [OF wp_conj [OF checkAnnotations_any [OF assms(1,2) stored] other]])
      (use assms(3) less dropped_slot [OF _ checked_slot [OF ok]] in \<open>auto simp: in_use_def\<close>)
qed

section \<open>The handlers of deleted and failed pods\<close>

text \<open>Events that write only the pod \<open>n\<close>, and leave its references in order.\<close>

fun tidy_write :: "string \<Rightarrow> string \<Rightarrow> event \<Rightarrow> bool" where
  "tidy_write ns n (EvPodCreate q (Inr p)) \<longleftrightarrow> writes_pod ns n (EvPodCreate q (Inr p)) \<and> wf_refs p \<and> p_deletionTimestamp p = None"
| "tidy_write ns n (EvPodUpdate p r) \<longleftrightarrow> named ns n p \<and> wf_refs p"
| "tidy_write ns n e \<longleftrightarrow> writes_pod ns n e"

text \<open>What has changed since \<open>h0\<close>: at most the pod \<open>n\<close>, and it is in order.\<close>

definition confined :: "(string \<Rightarrow> string \<Rightarrow> pod option) \<Rightarrow> int \<Rightarrow> string \<Rightarrow> string \<Rightarrow> history \<Rightarrow> history \<Rightarrow> bool" where
  "confined init now ns n h0 h \<longleftrightarrow> slot_ok {} (pod_at init now h ns n) \<and>
     (\<forall>n'. n' \<noteq> n \<longrightarrow> pod_at init now h ns n' = pod_at init now h0 ns n')"

lemma tidy_writes_pod: "tidy_write ns n e \<Longrightarrow> writes_pod ns n e"
  by (cases "(ns, n, e)" rule: tidy_write.cases) auto

lemma confined_event:
  assumes "confined init now ns n h0 h" "tidy_write ns n e"
  shows "confined init now ns n h0 (e # h)"
proof -
  have "slot_ok {} (pod_at init now (e # h) ns n)"
  proof (cases "keeps_pods e")
    case True
    with assms(1) show ?thesis by (simp add: confined_def pod_at_keeps)
  next
    case False
    with assms show ?thesis
      by (cases e rule: keeps_pods.cases)
        (auto simp: confined_def slot_ok_def stored_def wf_refs_def split: option.splits)
  qed
  with assms writes_other_pods [OF _ , of "[e]" ns n] tidy_writes_pod show ?thesis by (auto simp: confined_def)
qed

lemma confined_events: "confined init now ns n h0 h \<Longrightarrow> \<forall>e \<in> set evs. tidy_write ns n e \<Longrightarrow> confined init now ns n h0 (evs @ h)"
  by (induction evs) (auto intro: confined_event)

lemma wp_confined:
  assumes "emits (tidy_write ns n) m" "confined init now ns n h0 (hist s)"
  shows "wp m (\<lambda>_ s'. confined init now ns n h0 (hist s')) s"
proof -
  have "wp m (\<lambda>_ s'. \<exists>evs. hist s' = evs @ hist s \<and> (\<forall>e \<in> set evs. tidy_write ns n e)) s" using assms(1) by (simp add: emits_def)
  then show ?thesis by (rule wp_mono) (use assms(2) in \<open>auto intro: confined_events\<close>)
qed

lemma emits_CreatePod_tidy:
  assumes "api_documented init now E" "named ns n p" "wf_refs p"
  shows "emits (tidy_write ns n) (CreatePod E (Some p))"
proof -
  have "tidy_write ns n (EvPodCreate p (k_pod_create E h p))" for h
    using assms by (cases "k_pod_create E h p") (auto simp: api_documented_def api_creates_def named_def wf_refs_def)
  then show ?thesis by (simp add: emits_def CreatePod_def wp_simps)
qed

lemma recreate_of_tidy:
  assumes "finalizers_documented E"
  shows "named ns n pod \<Longrightarrow> named ns n (recreate_of E pod)" "wf_refs pod \<Longrightarrow> wf_refs (recreate_of E pod)"
    "named ns n (DeleteResourceOfPod pod) = named ns n pod" "wf_refs (DeleteResourceOfPod pod) = wf_refs pod"
  by (auto simp: recreate_of_def named_def wf_refs_def add_finalizer_sel [OF assms] DeleteResourceOfPod_def)

lemma podErrorHandler_tidy:
  assumes "finalizers_documented E" "api_documented init now E" "named ns n pod" "wf_refs pod"
  shows "emits (tidy_write ns n) (podErrorHandler E C (Some pod))"
proof -
  have wait: "emits (tidy_write ns n) (wait_deleted k E m ns')" for k m ns'
    by (induction k) (auto simp: client_defs intro!: emits_intros split: sum.splits)
  let ?p = "x_remove_finalizer E pod Finalizer"
  have p: "named ns n ?p" "wf_refs ?p" "p_name ?p = n" "p_namespace ?p = ns"
    using assms(3,4) by (simp_all add: remove_finalizer_eq [OF assms(1)] named_def wf_refs_def)
  note tidy = recreate_of_tidy(1,2) [OF assms(1)]
  define create where "create = CreatePod E (Some (DeleteResourceOfPod (recreate_of E ?p)))"
  have "emits (tidy_write ns n) create"
    unfolding create_def by (rule emits_CreatePod_tidy [OF assms(2)]) (simp_all add: recreate_of_tidy(3,4) [OF assms(1)] tidy p)
  then show ?thesis
    unfolding podErrorHandler_def Let_def option.case create_def [symmetric] using p(1,2)
    by (intro emits_intros wait) (simp_all add: p(3,4))
qed

lemma wf_refs_mputs:
  assumes "wf_refs p" "list_all is_ref ts"
  shows "wf_refs (p\<lparr>p_annotations := Some (mputs ts (entries (p_annotations p)))\<rparr>)"
proof -
  have step: "wf_map (mputs ts m) \<and> (\<forall>(k, v) \<in> set (mputs ts m). k \<in> range GetReferenceKey \<longrightarrow> k = GetReferenceKey v)"
    if "wf_map m" "\<forall>(k, v) \<in> set m. k \<in> range GetReferenceKey \<longrightarrow> k = GetReferenceKey v" for m
    using that assms(2)
  proof (induction ts arbitrary: m)
    case (Cons t ts)
    obtain v where v: "t = (GetReferenceKey v, v)" using Cons.prems(3) by (cases t) (simp add: is_ref_def)
    have "\<forall>(k, v) \<in> set (mput (GetReferenceKey v) v m). k \<in> range GetReferenceKey \<longrightarrow> k = GetReferenceKey v"
      using Cons.prems(1,2) by (auto simp: set_mput)
    from Cons.IH [OF _ this] Cons.prems(1,3) show ?case by (simp add: mputs_def v)
  qed (simp add: mputs_def)
  have "entries (p_annotations (p\<lparr>p_annotations := Some (mputs ts (entries (p_annotations p)))\<rparr>)) = mputs ts (entries (p_annotations p))"
    by simp
  with step [of "entries (p_annotations p)"] assms(1) show ?thesis unfolding wf_refs_def by presburger
qed

lemma recreate_loop_confined:
  assumes "finalizers_documented E" "api_documented init now E" "named ns n pod" "wf_refs pod" "list_all is_ref targets"
  shows "confined init now ns n h0 (hist s) \<Longrightarrow> wp (recreate_loop k E C pod path targets) (\<lambda>_ s'. confined init now ns n h0 (hist s')) s"
proof (induction k arbitrary: s)
  case (Suc k)
  have src: "emits (tidy_write ns n) (umount_source E path)"
    unfolding umount_source_def doWithinTime_def doWithinTime_cmd_def by (auto intro!: emits_intros split: option.splits)
  have create: "emits (tidy_write ns n) (do { umount_source E path; _ \<leftarrow> CreatePod E (Some (recreate_of E pod)); State_Monad.return None })"
    by (intro emits_intros src emits_CreatePod_tidy [OF assms(2)] recreate_of_tidy [OF assms(1)] assms)
  have id: "p_name pod = n" "p_namespace pod = ns" using assms(3) by (simp_all add: named_def)
  let ?s = "s\<lparr>hist := EvPodGet ns n (k_pod_get E (hist s) ns n) # hist s\<rparr>"
  have read: "confined init now ns n h0 (hist ?s)" using Suc.prems by (auto intro: confined_event)
  show ?case
  proof (cases "k_pod_get E (hist s) ns n")
    case (Inl e)
    then show ?thesis using read wp_confined [OF create, of init now h0 ?s] by (auto simp: wp_simps GetPod_def id)
  next
    case (Inr po)
    show ?thesis
    proof (cases "p_deletionTimestamp po")
      case None
      with api_get(4) [OF assms(2) Inr] Suc.prems have po: "named ns n po" "wf_refs po" by (auto simp: confined_def slot_ok_def)
      let ?po = "po\<lparr>p_annotations := Some (mputs targets (entries (p_annotations po)))\<rparr>"
      have "named ns n ?po" "wf_refs ?po" using po assms(5) wf_refs_mputs by (simp_all add: named_def)
      then have "tidy_write ns n (EvPodUpdate ?po r)" for r by simp
      then show ?thesis using Inr None read by (auto simp: wp_simps client_defs id intro: confined_event)
    next
      case (Some t)
      then show ?thesis using Inr read by (auto simp: wp_simps client_defs id intro!: Suc.IH confined_event)
    qed
  qed
qed (simp add: wp_simps)

lemma podDeletedHandler_confined:
  assumes "finalizers_documented E" "api_documented init now E" "named ns n pod" "wf_refs pod" "confined init now ns n h0 (hist s)"
  shows "wp (podDeletedHandler E C (Some pod)) (\<lambda>_ s'. confined init now ns n h0 (hist s')) s"
proof -
  let ?p = "x_remove_finalizer E pod Finalizer"
  have p: "named ns n ?p" "wf_refs ?p" "p_name ?p = n" "p_namespace ?p = ns"
    using assms(3,4) by (simp_all add: remove_finalizer_eq [OF assms(1)] named_def wf_refs_def)
  let ?s = "s\<lparr>hist := EvPodUpdate ?p (k_pod_update E (hist s) ?p) # hist s\<rparr>"
  have upd: "confined init now ns n h0 (hist ?s)" using p assms(5) by (auto intro: confined_event)
  have clean: "emits (tidy_write ns n) (doWithinTime E (CleanupMountPoint E path))" for path
    unfolding doWithinTime_def by (intro emits_intros; simp)
  have lock: "confined init now ns n h0 (EvLock i # h) = confined init now ns n h0 h"
    "confined init now ns n h0 (EvUnlock i # h) = confined init now ns n h0 h" for i h by (simp_all add: confined_def)
  note loop = recreate_loop_confined [OF assms(1,2) p(1,2)]
  show ?thesis
    unfolding podDeletedHandler_def option.case Let_def
    using assms(5) upd
    by (auto simp: wp_simps client_defs lock list_all_iff p(3,4) intro!: wp_confined [OF clean] loop split: option.splits sum.splits prod.splits)
qed

lemma confined_in_use:
  assumes "confined init now (Namespace C) (GenerateNameByVolumeId C v) h0 h"
    and "\<forall>w. slot_ok (P w) (pod_at init now h0 (Namespace C) (GenerateNameByVolumeId C w))" "P v = {}"
  shows "\<forall>w. slot_ok (P w) (pod_at init now h (Namespace C) (GenerateNameByVolumeId C w))"
proof
  fix w
  show "slot_ok (P w) (pod_at init now h (Namespace C) (GenerateNameByVolumeId C w))"
  proof (cases "w = v")
    case False
    then have "GenerateNameByVolumeId C w \<noteq> GenerateNameByVolumeId C v" using GenerateNameByVolumeId_inj by blast
    with assms show ?thesis by (simp add: confined_def)
  qed (use assms in \<open>simp add: confined_def\<close>)
qed

lemma podDeletedHandler_in_use:
  assumes "finalizers_documented E" "api_documented init now E"
    and "pod_at init now (hist s) (Namespace C) (GenerateNameByVolumeId C v) = Some pod" "named (Namespace C) (GenerateNameByVolumeId C v) pod"
    and "p_deletionTimestamp pod \<noteq> None" "in_use init now C P s"
  shows "wp (podDeletedHandler E C (Some pod)) (\<lambda>_ s'. in_use init now C P s') s"
proof -
  have ok: "slot_ok (P v) (Some pod)" using assms(3,6) by (metis in_use_def)
  with assms(5) have none: "P v = {}" and wf: "wf_refs pod" by (auto simp: slot_ok_def)
  have "confined init now (Namespace C) (GenerateNameByVolumeId C v) (hist s) (hist s)"
    using ok none assms(3) by (simp add: confined_def)
  from podDeletedHandler_confined [OF assms(1,2,4) wf this] show ?thesis
    by (rule wp_mono) (use assms(6) none in \<open>simp add: in_use_def confined_in_use\<close>)
qed

lemma podErrorHandler_in_use:
  assumes "finalizers_documented E" "api_documented init now E"
    and "pod_at init now (hist s) (Namespace C) (GenerateNameByVolumeId C v) = Some pod" "named (Namespace C) (GenerateNameByVolumeId C v) pod"
    and "in_use init now C P s"
  shows "wp (podErrorHandler E C (Some pod)) (\<lambda>_ s'. in_use init now C
     (if IsPodResourceError pod \<and> IsPodHasResource pod then P(v := {}) else P) s') s"
proof (cases "IsPodResourceError pod \<and> IsPodHasResource pod")
  case True
  have ok: "slot_ok (P v) (Some pod)" using assms(3,5) by (metis in_use_def)
  then have wf: "wf_refs pod" and "slot_ok {} (Some pod)" by (auto simp: slot_ok_def)
  then have "confined init now (Namespace C) (GenerateNameByVolumeId C v) (hist s) (hist s)" using assms(3) by (simp add: confined_def)
  from wp_confined [OF podErrorHandler_tidy [OF assms(1,2,4) wf] this] show ?thesis
  proof (rule wp_mono, goal_cases)
    case (1 r s')
    have "in_use init now C (P(v := {})) s" by (rule in_use_less [OF assms(5)]) auto
    with confined_in_use [OF 1, of "P(v := {})"] True show ?case by (simp add: in_use_def)
  qed
qed (use assms(5) in \<open>auto simp: podErrorHandler_def wp_simps in_use_def\<close>)

text \<open>The references on a pod whose workload pod is not running on the node, after the kubelet's list of pods.\<close>

definition gone_keys :: "pod list \<Rightarrow> pod \<Rightarrow> string set" where
  "gone_keys pods p = {k. \<exists>t. (k, t) \<in> set (entries (p_annotations p)) \<and> k = GetReferenceKey t \<and>
     \<not> (\<exists>w \<in> set pods. p_uid w = getPodUid t \<and> p_deletionTimestamp w = None)}"

lemma dead_keys_listing:
  assumes "distinct (map p_uid pods)"
  shows "dead_keys (setPodsStatus mit (Some pods)) p = gone_keys pods p"
proof -
  have "dead_ref m (k, t) \<Longrightarrow> k = GetReferenceKey t" for m k t by (simp add: dead_ref_def)
  then show ?thesis unfolding dead_keys_def gone_keys_def using dead_ref_after_listing [OF assms, of mit] by blast
qed

section \<open>Executions\<close>

text \<open>
  A session: \<open>P\<close> maps a volume to the reference keys of its targets that were published with success and are still to be served.
  A key leaves it when its target is unpublished, when a check finds no running workload pod of its target in the kubelet's list,
  and when the volume's pod failed for want of resources, so that it is deployed again. Requests that fail are part of
  the session, at whatever call they failed. The steps of the reconciler are \<^verbatim>\<open>checkAnnotations\<close>, \<^verbatim>\<open>podDeletedHandler\<close> and \<^verbatim>\<open>podErrorHandler\<close>,
  which are all it does to pods, each on the pod as the server holds it.
\<close>

inductive node_session ::
  "env \<Rightarrow> config \<Rightarrow> decoders \<Rightarrow> (string \<Rightarrow> string \<Rightarrow> pod option) \<Rightarrow> int \<Rightarrow> (string \<Rightarrow> string set) \<Rightarrow> gst \<Rightarrow> bool"
  for E C Y init now where
  start: "\<forall>v p. pod_at init now (hist s) (Namespace C) (GenerateNameByVolumeId C v) = Some p \<longrightarrow> stored p \<and> wf_refs p \<Longrightarrow>
    node_session E C Y init now (\<lambda>_. {}) s"
| published: "node_session E C Y init now P s \<Longrightarrow> plain_request E C Y req \<Longrightarrow> pr_secrets req \<noteq> None \<Longrightarrow>
    run_state (NodePublishVolume E C Y req) s = (Ok (), s') \<Longrightarrow>
    node_session E C Y init now (P(pr_volumeId req := insert (GetReferenceKey (pr_targetPath req)) (P (pr_volumeId req)))) s'"
| not_published: "node_session E C Y init now P s \<Longrightarrow> plain_request E C Y req \<Longrightarrow> pr_secrets req \<noteq> None \<Longrightarrow>
    run_state (NodePublishVolume E C Y req) s = (r, s') \<Longrightarrow> node_session E C Y init now P s'"
| unpublish: "node_session E C Y init now P s \<Longrightarrow> run_state (NodeUnpublishVolume fuel E C v target) s = (r, s') \<Longrightarrow>
    node_session E C Y init now (P(v := P v - {GetReferenceKey target})) s'"
| check: "node_session E C Y init now P s \<Longrightarrow>
    pod_at init now (hist s) (Namespace C) (GenerateNameByVolumeId C v) = Some pod \<Longrightarrow> named (Namespace C) (GenerateNameByVolumeId C v) pod \<Longrightarrow>
    distinct (map p_uid pods) \<Longrightarrow> run_state (checkAnnotations E (setPodsStatus mit (Some pods)) pod) s = (r, s') \<Longrightarrow>
    node_session E C Y init now (P(v := P v - gone_keys pods pod)) s'"
| deleted: "node_session E C Y init now P s \<Longrightarrow>
    pod_at init now (hist s) (Namespace C) (GenerateNameByVolumeId C v) = Some pod \<Longrightarrow> named (Namespace C) (GenerateNameByVolumeId C v) pod \<Longrightarrow>
    p_deletionTimestamp pod \<noteq> None \<Longrightarrow> run_state (podDeletedHandler E C (Some pod)) s = (err, s') \<Longrightarrow> node_session E C Y init now P s'"
| failed: "node_session E C Y init now P s \<Longrightarrow>
    pod_at init now (hist s) (Namespace C) (GenerateNameByVolumeId C v) = Some pod \<Longrightarrow> named (Namespace C) (GenerateNameByVolumeId C v) pod \<Longrightarrow>
    run_state (podErrorHandler E C (Some pod)) s = (err, s') \<Longrightarrow>
    node_session E C Y init now (if IsPodResourceError pod \<and> IsPodHasResource pod then P(v := {}) else P) s'"

lemma node_session_in_use:
  assumes "retry_documented E" "finalizers_documented E" "api_documented init now E" "\<not> ByProcess C"
  shows "node_session E C Y init now P s \<Longrightarrow> in_use init now C P s"
proof (induction rule: node_session.induct)
  case (start s)
  then show ?case by (simp add: in_use_def slot_ok_def)
next
  case (published P s req s')
  show ?case using wp_run [OF published.hyps(4) NodePublishVolume_in_use [OF assms(1-3) published.hyps(2) assms(4) published.hyps(3) published.IH]] by (simp add: fun_upd_def)
next
  case (not_published P s req r s')
  show ?case using wp_run [OF not_published.hyps(4) NodePublishVolume_in_use [OF assms(1-3) not_published.hyps(2) assms(4) not_published.hyps(3) not_published.IH]] by simp
next
  case (unpublish P s fuel v target r s')
  show ?case using wp_run [OF unpublish.hyps(2) NodeUnpublishVolume_in_use [OF assms unpublish.IH]] by (simp add: fun_upd_def)
next
  case (check P s v pod pods mit r s')
  show ?case using wp_run [OF check.hyps(5) checkAnnotations_in_use [OF check.hyps(2,3) check.IH]]
    by (simp add: dead_keys_listing [OF check.hyps(4)] fun_upd_def)
next
  case (deleted P s v pod err s')
  show ?case using wp_run [OF deleted.hyps(5) podDeletedHandler_in_use [OF assms(2,3) deleted.hyps(2-4) deleted.IH]] by simp
next
  case (failed P s v pod err s')
  show ?case using wp_run [OF failed.hyps(4) podErrorHandler_in_use [OF assms(2,3) failed.hyps(2,3) failed.IH]] by simp
qed


lemma sim_plain_request: "plain_request (sim_env ps) sim_config sim_decoders sim_request"
  by (simp add: plain_request_def okE_def ParseSetting_def sim_request_def sim_decoders_def parseYamlOrJson_def parse_volCtx_def
      mindex_def sim_config_def zero_setting_def plain_annotations_def Let_def)




end
