(* ===== verification/Collect.thy ===== *)
theory Collect
  imports NodeSessions
begin

text \<open>
  The collection of mount pods that no workload uses any more: two rounds of the reconciler (\<^verbatim>\<open>Run\<close> of pkg/controller/pod_driver.go),
  each on a fresh copy of the pod.
\<close>

section \<open>Marking the pod\<close>

text \<open>A mount pod whose references are all dead and whose deletion is not to be delayed.\<close>

definition orphan :: "mountInfoTable \<Rightarrow> string \<Rightarrow> string \<Rightarrow> pod_status \<Rightarrow> pod \<Rightarrow> bool" where
  "orphan mit ns n st p \<longleftrightarrow> named ns n p \<and> p_deletionTimestamp p = None \<and> p_finalizers p = [Finalizer] \<and> p_status p = st \<and>
     live_targets mit (entries (p_annotations p)) = 0 \<and> \<not> mhas (entries (p_annotations p)) DeleteDelayTimeKey"

text \<open>The pod as the server holds it after its deletion was requested.\<close>

definition doomed :: "string \<Rightarrow> string \<Rightarrow> pod_status \<Rightarrow> pod \<Rightarrow> bool" where
  "doomed ns n st q \<longleftrightarrow> named ns n q \<and> p_deletionTimestamp q \<noteq> None \<and> p_finalizers q = [Finalizer] \<and> p_status q = st \<and> \<not> HasRef q"

lemma checked_orphan: "orphan mit ns n st p \<Longrightarrow> orphan mit ns n st (checked mit p)"
  unfolding orphan_def named_def checked_annotations live_annotations_filter live_targets_zero mhas_iff
  by (auto simp: checked_def)

lemma delete_orphan:
  assumes "pod_at init now (hist s) ns n = Some p" "orphan mit ns n st p" "\<not> HasRef p"
  shows "wp (delete_if_due E p) (\<lambda>(err, p1) s'. p1 = p \<and>
     (err = None \<longrightarrow> (\<exists>q. pod_at init now (hist s') ns n = Some q \<and> doomed ns n st q)) \<and>
     (err \<noteq> None \<longrightarrow> pod_at init now (hist s') ns n = Some p)) s"
proof -
  have p: "\<not> mhas (entries (p_annotations p)) DeleteDelayTimeKey" "p_name p = n" "p_namespace p = ns" "p_finalizers p = [Finalizer]" "p_status p = st"
    using assms(2) by (simp_all add: orphan_def named_def)
  show ?thesis
    using assms(1,3) p
    by (cases "k_pod_delete E (hist s) ns n")
      (auto simp: delete_if_due_def ShouldDelay_no_delay [OF p(1)] wp_simps client_defs doomed_def named_def HasRef_def)
qed

lemma check_orphan:
  assumes "pod_at init now (hist s) ns n = Some p" "orphan mit ns n st p"
  shows "wp (checkAnnotations E mit p) (\<lambda>(err, p1) s'.
     (err = None \<longrightarrow> p_deletionTimestamp p1 = None \<and> p_status p1 = st \<and> (\<exists>q. pod_at init now (hist s') ns n = Some q \<and> doomed ns n st q)) \<and>
     (err \<noteq> None \<longrightarrow> p_name p1 = n \<and> p_namespace p1 = ns \<and> (\<exists>q. pod_at init now (hist s') ns n = Some q \<and> orphan mit ns n st q))) s"
proof -
  let ?m = "entries (p_annotations p)"
  let ?h = "EvLock (GetPodLock (p_name p)) # hist s"
  have same: "length ?m = length (live_annotations mit ?m) \<Longrightarrow> checked mit p = p" by (simp add: checked_def)
  have upd: "length ?m \<noteq> length (live_annotations mit ?m) \<Longrightarrow> p\<lparr>p_annotations := Some (live_annotations mit ?m)\<rparr> = checked mit p"
    by (simp add: checked_def)
  have zero: "live_targets mit ?m = 0" using assms(2) by (simp add: orphan_def)
  note orph = checked_orphan [OF assms(2)]
  have c: "p_deletionTimestamp (checked mit p) = None" "p_status (checked mit p) = st" "p_name (checked mit p) = n" "p_namespace (checked mit p) = ns"
    using orph by (simp_all add: orphan_def named_def)
  have del: "wp (delete_if_due E (checked mit p)) (\<lambda>(err, p1) s'.
     (err = None \<longrightarrow> p_deletionTimestamp p1 = None \<and> p_status p1 = st \<and> (\<exists>q. pod_at init now (hist s') ns n = Some q \<and> doomed ns n st q)) \<and>
     (err \<noteq> None \<longrightarrow> p_name p1 = n \<and> p_namespace p1 = ns \<and> (\<exists>q. pod_at init now (hist s') ns n = Some q \<and> orphan mit ns n st q))) s'"
    if "pod_at init now (hist s') ns n = Some (checked mit p)" for s'
    by (rule wp_mono [OF delete_orphan [OF that orph]]) (use zero orph c in \<open>auto simp: checked_HasRef\<close>)
  show ?thesis
  proof (cases "length ?m = length (live_annotations mit ?m)")
    case True
    note cp = same [OF True]
    from True zero c assms(1) show ?thesis
      unfolding checkAnnotations_def Let_def wp_with_lock cp
      by (auto simp: wp_simps intro!: wp_mono [OF del [unfolded cp]])
  next
    case False
    note u = upd [OF False]
    from False zero c assms u show ?thesis
      unfolding checkAnnotations_def Let_def wp_with_lock
      by (cases "k_pod_update E ?h (checked mit p)")
        (auto simp: wp_simps client_defs named_def intro!: wp_mono [OF del])
  qed
qed

section \<open>The handlers of a pod that is not deleted leave the API server alone\<close>

text \<open>What recovering targets does: mounts, looks and pauses on the node.\<close>

fun node_local :: "event \<Rightarrow> bool" where
  "node_local (EvMount src t fs opts r) \<longleftrightarrow> True"
| "node_local (EvUnmount p r) \<longleftrightarrow> True"
| "node_local (EvIsLikelyNotMnt p r) \<longleftrightarrow> True"
| "node_local (EvPathExists p r) \<longleftrightarrow> True"
| "node_local (EvStat p r) \<longleftrightarrow> True"
| "node_local (EvTimeout b) \<longleftrightarrow> True"
| "node_local (EvRange m r) \<longleftrightarrow> True"
| "node_local e \<longleftrightarrow> False"

lemma node_local_keeps: "node_local e \<Longrightarrow> keeps_pods e"
  by (cases e) simp_all

lemma recoverTarget_local: "emits node_local (recoverTarget E sourcePath ti mi)"
proof -
  have "emits node_local (umountTarget_n E target k)" for target k
    by (induction k) (auto intro!: emits_intros)
  then show ?thesis
    unfolding recoverTarget_def umountTarget_def Let_def
    by (auto intro!: emits_intros split: target_status.splits)
qed

lemma resolveTarget_local: "emits node_local (resolveTarget E mit target)"
proof -
  have check: "emits node_local (ti_check E b ti)" for b ti
    unfolding ti_check_def Let_def by (auto intro!: emits_intros split: sum.splits if_splits prod.splits option.splits)
  have "emits node_local (check_all E tis)" for tis
    by (induction tis) (auto intro!: emits_intros check)
  then have "emits node_local (resolveTargetItem E mit path isPrefix)" for path isPrefix
    unfolding resolveTargetItem_def Let_def by (intro emits_intros) simp_all
  then show ?thesis
    unfolding resolveTarget_def Let_def by (auto intro!: emits_intros check split: list.splits)
qed

lemma podReadyHandler_local: "emits node_local (podReadyHandler E mit p)"
proof -
  have all: "emits node_local (recover_all E mntPath tis mi)" for mntPath tis mi
    by (induction tis) (auto intro!: emits_intros recoverTarget_local)
  have refs: "emits node_local (recover_refs E mit mntPath m)" for mntPath m
    by (induction m) (auto intro!: emits_intros all resolveTarget_local)
  show ?thesis unfolding podReadyHandler_def doWithinTime_def by (auto intro!: emits_intros refs split: option.splits sum.splits prod.splits)
qed

lemmas podReadyHandler_keeps = emits_mono [OF podReadyHandler_local node_local_keeps]

section \<open>Two rounds\<close>

lemma getPodStatus_same:
  "p_deletionTimestamp p = None \<Longrightarrow> p_deletionTimestamp q = None \<Longrightarrow> p_status p = p_status q \<Longrightarrow> getPodStatus (Some p) = getPodStatus (Some q)"
  by (simp add: getPodStatus_def IsPodError_def IsPodReady_def)

text \<open>The check, and the second one after a conflict.\<close>

definition check_twice :: "env \<Rightarrow> mountInfoTable \<Rightarrow> pod \<Rightarrow> (goerr option \<times> pod) prog" where
  "check_twice E mit current = do {
     (err0, current0) \<leftarrow> checkAnnotations E mit current;
     (if err0 = Some (ApiError Conflict) then do {
        r \<leftarrow> GetPod E (p_name current0) (p_namespace current0);
        (case r of
           Inl e \<Rightarrow> State_Monad.return (Some e, current0)
         | Inr cur \<Rightarrow> checkAnnotations E mit cur)
      }
      else State_Monad.return (err0, current0))
   }"

lemma Run_check_twice:
  "Run E C mit current = do {
     (err, current1) \<leftarrow> check_twice E mit current;
     (case err of
        Some e \<Rightarrow> State_Monad.return (Some e, mit)
      | None \<Rightarrow> (
          let st = getPodStatus (Some current1) in
          if st \<noteq> podError \<and> st \<noteq> podDeleted then do {
            r \<leftarrow> handlers E C mit st current1;
            State_Monad.return (r, mit)
          }
          else do {
            r \<leftarrow> GetPod E (p_name current1) (p_namespace current1);
            (case r of
               Inl e \<Rightarrow> State_Monad.return (Some e, mit)
             | Inr pod \<Rightarrow> do {
                 let mit' = setPodStatus mit pod;
                 r2 \<leftarrow> handlers E C mit' (getPodStatus (Some pod)) pod;
                 State_Monad.return (r2, mit')
               })
          }))
   }"
  unfolding Run_def check_twice_def
  by (simp only: State_Monad.bind_assoc) (rule arg_cong2 [where f = State_Monad.bind, OF refl], simp add: fun_eq_iff)

lemma check_twice_orphan:
  assumes "api_documented init now E" "pod_at init now (hist s) ns n = Some p" "orphan mit ns n st p"
  shows "wp (check_twice E mit p) (\<lambda>(err, p1) s'. err = None \<longrightarrow>
     p_deletionTimestamp p1 = None \<and> p_status p1 = st \<and> (\<exists>q. pod_at init now (hist s') ns n = Some q \<and> doomed ns n st q)) s"
  unfolding check_twice_def wp_bind
proof (rule wp_mono [OF check_orphan [OF assms(2,3)]], clarify, goal_cases)
  case (1 err0 p1 s')
  show ?case
  proof (cases "err0 = Some (ApiError Conflict)")
    case True
    with 1 obtain q where q: "p_name p1 = n" "p_namespace p1 = ns" "pod_at init now (hist s') ns n = Some q" "orphan mit ns n st q" by auto
    show ?thesis
    proof (cases "k_pod_get E (hist s') ns n")
      case (Inr cur)
      from api_get(1) [OF assms(1) Inr q(3)] have cur: "cur = q" by simp
      let ?s = "s'\<lparr>hist := EvPodGet ns n (Inr q) # hist s'\<rparr>"
      have "pod_at init now (hist ?s) ns n = Some q" using q(3) by simp
      then have "wp (checkAnnotations E mit q) (\<lambda>(err, p1) s'. err = None \<longrightarrow> p_deletionTimestamp p1 = None \<and> p_status p1 = st \<and>
          (\<exists>q. pod_at init now (hist s') ns n = Some q \<and> doomed ns n st q)) ?s"
        by (rule wp_mono [OF check_orphan [OF _ q(4)]]) auto
      then show ?thesis using True q(1,2) Inr cur by (simp add: wp_simps GetPod_def)
    qed (use True q in \<open>simp add: wp_simps GetPod_def\<close>)
  qed (use 1 in \<open>simp add: wp_simps\<close>)
qed

lemma Run_orphan:
  assumes "api_documented init now E" "pod_at init now (hist s) ns n = Some p" "orphan mit ns n (p_status p) p"
    and "getPodStatus (Some p) \<in> {podReady, podPending}"
  shows "wp (Run E C mit p) (\<lambda>(err, _) s'. err = None \<longrightarrow> (\<exists>q. pod_at init now (hist s') ns n = Some q \<and> doomed ns n (p_status p) q)) s"
  unfolding Run_check_twice wp_bind
proof (rule wp_mono [OF check_twice_orphan [OF assms(1-3)]], clarify, goal_cases)
  case (1 err p1 s')
  show ?case
  proof (cases err)
    case None
    with 1 have p1: "p_deletionTimestamp p1 = None" "p_status p1 = p_status p"
      and q: "\<exists>q. pod_at init now (hist s') ns n = Some q \<and> doomed ns n (p_status p) q" by auto
    have "getPodStatus (Some p1) = getPodStatus (Some p)"
      by (rule getPodStatus_same) (use p1 assms(3) in \<open>simp_all add: orphan_def\<close>)
    moreover have "emits keeps_pods (handlers E C mit st p1)" if "st \<in> {podReady, podPending}" for st
      using that podReadyHandler_keeps by (auto simp: handlers_def podPendingHandler_def intro: emits_intros)
    ultimately show ?thesis
      using None q assms(4) wp_keeps_pods [of "handlers E C mit (getPodStatus (Some p1)) p1" init now s']
      by (auto simp: wp_simps Let_def elim!: wp_mono)
  qed (simp add: wp_simps)
qed

lemma doomed_no_ref: "doomed ns n st q \<Longrightarrow> kv \<in> set (entries (p_annotations q)) \<Longrightarrow> \<not> is_ref kv"
  by (auto simp: doomed_def HasRef_def is_ref_def list_ex_iff split: prod.splits)

lemma check_doomed:
  assumes "doomed ns n st q"
  shows "checkAnnotations E mit q = with_lock (GetPodLock n) (State_Monad.return (None, q))"
proof -
  have "live_annotations mit (entries (p_annotations q)) = entries (p_annotations q)"
    unfolding live_annotations_filter using doomed_no_ref [OF assms]
    by (auto simp: filter_id_conv kept_def dead_ref_def is_ref_def split: prod.splits)
  moreover have "p_name q = n" "p_deletionTimestamp q \<noteq> None" using assms by (simp_all add: doomed_def named_def)
  ultimately show ?thesis by (auto simp: checkAnnotations_def)
qed

lemma podDeletedHandler_doomed:
  assumes "finalizers_documented E" "doomed ns n st q" "pod_at init now (hist s) ns n = Some q"
  shows "wp (podDeletedHandler E C (Some q)) (\<lambda>r s'. r = None \<longrightarrow>
     pod_at init now (hist s') ns n = (if IsPodResourceError q then Some q else None)) s"
proof -
  have q: "p_finalizers q = [Finalizer]" "p_deletionTimestamp q \<noteq> None" "p_name q = n" "p_namespace q = ns"
    using assms(2) by (simp_all add: doomed_def named_def)
  have refs: "filter is_ref a = []" if "p_annotations q = Some a" for a
    using doomed_no_ref [OF assms(2)] that by (auto simp: filter_empty_conv)
  have rm: "x_remove_finalizer E q Finalizer = q\<lparr>p_finalizers := []\<rparr>" using assms(1) q(1) by (simp add: remove_finalizer_eq)
  let ?q = "q\<lparr>p_finalizers := []\<rparr>"
  show ?thesis
  proof (cases "IsPodResourceError q \<or> k_pod_update E (hist s) ?q \<noteq> None")
    case True
    then show ?thesis using q rm assms(3) by (auto simp: podDeletedHandler_def wp_simps client_defs ContainsString_def Let_def)
  next
    case False
    let ?s = "s\<lparr>hist := EvPodUpdate ?q None # hist s\<rparr>"
    have gone: "pod_at init now (hist ?s) ns n = None" using q by (simp add: named_def)
    have "wp (doWithinTime E (CleanupMountPoint E path)) (\<lambda>_ s'. pod_at init now (hist s') ns n = None) ?s" for path
    proof (rule wp_mono [OF wp_keeps_pods [where init = init and now = now]])
      show "emits keeps_pods (doWithinTime E (CleanupMountPoint E path))" unfolding doWithinTime_def by (intro emits_intros; simp)
    qed (simp only: gone)
    then show ?thesis using False q rm refs gone
      by (auto simp: podDeletedHandler_def wp_simps client_defs ContainsString_def Let_def split: option.splits sum.splits)
  qed
qed

lemma Run_doomed:
  assumes "finalizers_documented E" "api_documented init now E" "doomed ns n st q" "pod_at init now (hist s) ns n = Some q"
  shows "wp (Run E C mit q) (\<lambda>(err, _) s'. err = None \<longrightarrow>
     pod_at init now (hist s') ns n = (if IsPodResourceError q then Some q else None)) s"
proof -
  have q: "p_deletionTimestamp q \<noteq> None" "p_name q = n" "p_namespace q = ns" using assms(3) by (simp_all add: doomed_def named_def)
  have st: "getPodStatus (Some q) = podDeleted" using q(1) by (simp add: getPodStatus_def)
  let ?t = "s\<lparr>hist := EvUnlock (GetPodLock n) # EvLock (GetPodLock n) # hist s\<rparr>"
  have cur: "k_pod_get E (hist ?t) ns n = Inr p \<Longrightarrow> p = q" for p
    using api_get(1) [OF assms(2), where h = "hist ?t" and ns = ns and n = n] assms(4) by simp
  have del: "wp (podDeletedHandler E C (Some q)) (\<lambda>r s'. r = None \<longrightarrow>
     pod_at init now (hist s') ns n = (if IsPodResourceError q then Some q else None)) (?t\<lparr>hist := EvPodGet ns n (Inr q) # hist ?t\<rparr>)"
    by (rule podDeletedHandler_doomed [OF assms(1,3)]) (use assms(4) in simp)
  show ?thesis
    unfolding Run_def check_doomed [OF assms(3)]
    using q st cur del
    by (cases "k_pod_get E (hist ?t) ns n") (auto simp: wp_simps with_lock_def GetPod_def handlers_def Let_def elim!: wp_mono)
qed

lemma podDeletedHandler_untags:
  assumes "finalizers_documented E" "doomed ns n st q"
  shows "does (podDeletedHandler E C (Some q)) (\<lambda>r evs. r = None \<longrightarrow>
     (EvPodUpdate (q\<lparr>p_finalizers := []\<rparr>) None \<in> set evs \<longleftrightarrow> \<not> IsPodResourceError q))"
proof -
  let ?q = "q\<lparr>p_finalizers := []\<rparr>"
  have q: "p_finalizers q = [Finalizer]" using assms(2) by (simp add: doomed_def)
  have rm: "x_remove_finalizer E q Finalizer = ?q" using assms(1) q(1) by (simp add: remove_finalizer_eq)
  have refs: "filter is_ref a = []" if "p_annotations q = Some a" for a
    using doomed_no_ref [OF assms(2)] that by (auto simp: filter_empty_conv)
  have clean: "does (doWithinTime E (CleanupMountPoint E path)) (\<lambda>_ _. True)" for path
    by (rule does_mono [OF does_emits [where P = "\<lambda>_. True"]]) (auto simp: doWithinTime_def intro!: emits_intros)
  show ?thesis
  proof (cases "IsPodResourceError q")
    case False
    with q refs show ?thesis
      by (auto simp: podDeletedHandler_def Let_def rm ContainsString_def intro!: does_bind [OF does_UpdatePod] does_bind [OF clean]
          split: option.splits sum.splits)
  qed (simp add: podDeletedHandler_def q ContainsString_def)
qed

lemma Run_untags:
  assumes "finalizers_documented E" "api_documented init now E" "doomed ns n st q" "pod_at init now (hist s) ns n = Some q"
  shows "wp (Run E C mit q) (\<lambda>(err, _) s'. err = None \<longrightarrow>
     (\<exists>evs. hist s' = evs @ hist s \<and> (EvPodUpdate (q\<lparr>p_finalizers := []\<rparr>) None \<in> set evs \<longleftrightarrow> \<not> IsPodResourceError q))) s"
proof -
  have q: "p_deletionTimestamp q \<noteq> None" "p_name q = n" "p_namespace q = ns" using assms(3) by (simp_all add: doomed_def named_def)
  have st: "getPodStatus (Some q) = podDeleted" using q(1) by (simp add: getPodStatus_def)
  let ?t = "s\<lparr>hist := EvUnlock (GetPodLock n) # EvLock (GetPodLock n) # hist s\<rparr>"
  let ?u = "?t\<lparr>hist := EvPodGet ns n (Inr q) # hist ?t\<rparr>"
  have cur: "k_pod_get E (hist ?t) ns n = Inr p \<Longrightarrow> p = q" for p
    using api_get(1) [OF assms(2), where h = "hist ?t" and ns = ns and n = n] assms(4) by simp
  have "wp (podDeletedHandler E C (Some q)) (\<lambda>r s'. r = None \<longrightarrow>
     (\<exists>evs. hist s' = evs @ hist s \<and> (EvPodUpdate (q\<lparr>p_finalizers := []\<rparr>) None \<in> set evs \<longleftrightarrow> \<not> IsPodResourceError q))) ?u"
    using podDeletedHandler_untags [OF assms(1,3), of C, unfolded does_def, rule_format, of ?u]
    by (rule wp_mono) auto
  then show ?thesis
    unfolding Run_def check_doomed [OF assms(3)]
    using q st cur
    by (cases "k_pod_get E (hist ?t) ns n") (auto simp: wp_simps with_lock_def GetPod_def handlers_def Let_def elim!: wp_mono)
qed

definition sim_orphan :: pod where
  "sim_orphan = sim_mount_pod\<lparr>p_annotations := Some [(GetReferenceKey ''/a'', ''/a'')]\<rparr>"

lemmas sim_round_defs = Run_def checkAnnotations_def live_annotations_def live_targets_def dead_ref_def is_ref_def newMountInfoTable_def
  delete_if_due_def ShouldDelay_def getPodStatus_def IsPodError_def IsPodReady_def containError_def sim_ready_def handlers_def
  podReadyHandler_def podDeletedHandler_def IsPodResourceError_def GetMountPathOfPod_def ContainsString_def with_lock_def
  sim_orphan_def sim_mount_pod_def client_defs zero_defs Let_def

lemma sim_round_1:
  "fst (run_state (Run (sim_env [sim_orphan]) sim_config newMountInfoTable sim_orphan) sim_state) = (None, newMountInfoTable)"
  "pod_at (sim_pods [sim_orphan]) 0 (hist (snd (run_state (Run (sim_env [sim_orphan]) sim_config newMountInfoTable sim_orphan) sim_state)))
     ''kube-system'' ''juicefs-node-pvc'' = Some (sim_orphan\<lparr>p_annotations := Some [], p_deletionTimestamp := Some 0\<rparr>)"
  by (simp_all add: sim_round_defs sim_run_defs)

lemma sim_round_2:
  assumes "pod_at (sim_pods [sim_orphan]) 0 (hist s) ''kube-system'' ''juicefs-node-pvc'' = Some (sim_orphan\<lparr>p_annotations := Some [], p_deletionTimestamp := Some 0\<rparr>)"
  shows "fst (fst (run_state (Run (sim_env [sim_orphan]) sim_config newMountInfoTable (sim_orphan\<lparr>p_annotations := Some [], p_deletionTimestamp := Some 0\<rparr>)) s)) = None"
  using assms by (simp add: sim_round_defs sim_run_defs setPodStatus_def pod_at_keeps)


end
