(* ===== verification/MountPodSpec.thy ===== *)
theory MountPodSpec
  imports Builder "HOL-Library.Multiset"
begin

text \<open>
  The volumes of the pods and jobs the driver submits: what Kubernetes requires of the volumes of a pod, and which mount pods satisfy it.
\<close>

section \<open>What Kubernetes requires\<close>

text \<open>Every mounted volume is declared.\<close>

definition mounts_declared :: "pod_spec \<Rightarrow> bool" where
  "mounts_declared sp \<longleftrightarrow> (\<forall>c \<in> set (ps_initContainers sp @ ps_containers sp). \<forall>m \<in> set (c_volumeMounts c).
     vm_name m \<in> vol_name ` set (ps_volumes sp))"

text \<open>A DNS label (RFC 1123), as the name of a volume must be.\<close>

definition dns_label :: "string \<Rightarrow> bool" where
  "dns_label s \<longleftrightarrow> (let alnum = (\<lambda>c. is_digit c \<or> (let n = of_char c :: nat in 97 \<le> n \<and> n \<le> 122)) in
     s \<noteq> '''' \<and> length s \<le> 63 \<and> alnum (hd s) \<and> alnum (last s) \<and> list_all (\<lambda>c. alnum c \<or> c = CHR ''-'') s)"

text \<open>The validation of volumes and their mounts: names are distinct labels, and no container mounts twice at one path.\<close>

definition volumes_admissible :: "pod_spec \<Rightarrow> bool" where
  "volumes_admissible sp \<longleftrightarrow> mounts_declared sp \<and> distinct (map vol_name (ps_volumes sp)) \<and>
     list_all dns_label (map vol_name (ps_volumes sp)) \<and>
     (\<forall>c \<in> set (ps_initContainers sp @ ps_containers sp). distinct (map vm_mountPath (c_volumeMounts c)))"

section \<open>The pods of the driver\<close>

lemma config_volumes_names: "map vol_name (config_volumes i m) = map vm_name (config_mounts i m)"
  by (induction i m rule: config_volumes.induct) simp_all

lemma getCacheDirVolumes_names: "map vol_name (fst (getCacheDirVolumes cmd)) = map vm_name (snd (getCacheDirVolumes cmd))"
  by (simp add: getCacheDirVolumes_def Let_def cache_volume_def cache_mount_def comp_def)

lemma getVolumeMounts_declared: "vm_name ` set (getVolumeMounts js) \<subseteq> vol_name ` set (getVolumes C js)"
  by (auto simp: getVolumeMounts_def getVolumes_def)

lemma init_mounts_declared: "vm_name ` set (c_volumeMounts (getInitContainer C js)) \<subseteq> vol_name ` set (getVolumes C js)"
  by (auto simp: getInitContainer_def getVolumes_def Let_def)

text \<open>The volumes and containers of a pod as \<^verbatim>\<open>generateJuicePod\<close> leaves them, with further cache volumes and mounts.\<close>

definition juice_spec :: "config \<Rightarrow> jfs_setting \<Rightarrow> gomap \<Rightarrow> volume list \<Rightarrow> volume_mount list \<Rightarrow> pod_spec \<Rightarrow> bool" where
  "juice_spec C js configs cvs cms sp \<longleftrightarrow>
     (let mounts = getVolumeMounts js @ config_mounts 1 configs in
      ps_volumes sp = getVolumes C js @ config_volumes 1 configs @ cvs \<and>
      map c_volumeMounts (ps_containers sp) = [mounts @ cms] \<and>
      map c_volumeMounts (ps_initContainers sp) =
        (if js_FormatCmd js \<noteq> '''' then [c_volumeMounts (getInitContainer C js) @ mounts] else []))"

lemma juice_specD:
  assumes "juice_spec C js configs cvs cms sp"
  shows "ps_volumes sp = getVolumes C js @ config_volumes 1 configs @ cvs"
    and "map c_volumeMounts (ps_initContainers sp @ ps_containers sp) =
      (if js_FormatCmd js \<noteq> '''' then [c_volumeMounts (getInitContainer C js) @ getVolumeMounts js @ config_mounts 1 configs] else [])
      @ [getVolumeMounts js @ config_mounts 1 configs @ cms]"
  using assms unfolding juice_spec_def Let_def map_append by (simp_all only: append_assoc)

text \<open>A property of the mounts of every container, in terms of the lists of mounts.\<close>

lemma juice_spec_mounts:
  assumes "juice_spec C js configs cvs cms sp"
  shows "(\<forall>c \<in> set (ps_initContainers sp @ ps_containers sp). P (c_volumeMounts c)) \<longleftrightarrow>
     P (getVolumeMounts js @ config_mounts 1 configs @ cms) \<and>
     (js_FormatCmd js \<noteq> '''' \<longrightarrow> P (c_volumeMounts (getInitContainer C js) @ getVolumeMounts js @ config_mounts 1 configs))"
proof -
  have "(\<forall>c \<in> set (ps_initContainers sp @ ps_containers sp). P (c_volumeMounts c)) \<longleftrightarrow>
      list_all P (map c_volumeMounts (ps_initContainers sp @ ps_containers sp))" by (simp only: list_all_iff set_map ball_simps)
  then show ?thesis unfolding juice_specD(2) [OF assms] by (auto split: if_splits)
qed

lemmas juice_spec_paths = juice_spec_mounts [where P = "\<lambda>ms. distinct (map vm_mountPath ms)" and configs = "[]",
    unfolded config_mounts.simps append_Nil append_Nil2]

lemma juice_spec_declared:
  assumes "juice_spec C js configs cvs cms sp" "vm_name ` set cms \<subseteq> vol_name ` set cvs"
  shows "mounts_declared sp"
proof -
  have "vm_name ` set (config_mounts 1 configs) = vol_name ` set (config_volumes 1 configs)"
    using config_volumes_names [of 1 configs] by (metis list.set_map)
  then have "\<forall>c \<in> set (ps_initContainers sp @ ps_containers sp). vm_name ` set (c_volumeMounts c) \<subseteq> vol_name ` set (ps_volumes sp)"
    using getVolumeMounts_declared [of js C] init_mounts_declared [of C js] assms(2)
    by (intro juice_spec_mounts [OF assms(1), THEN iffD2])
      (simp add: juice_specD(1) [OF assms(1)] image_Un le_supI1 le_supI2)
  then show ?thesis unfolding mounts_declared_def by blast
qed

lemma generateJuicePod_spec:
  "wp (generateJuicePod E C js) (\<lambda>p _. \<exists>h. juice_spec C js (g_range E h (js_Configs js)) [] [] (p_spec p)) s"
  by (auto simp: generateJuicePod_def wp_simps os_defs Let_def GeneratePodTemplate_def upd_container0_def juice_spec_def zero_spec_def)

lemma NewMountPod_spec:
  assumes "finalizers_documented E"
  shows "wp (NewMountPod E C js podName) (\<lambda>r _. \<forall>p. r = Ok p \<longrightarrow> (\<exists>cmd h. getCommand js = Ok cmd \<and>
     juice_spec C js (g_range E h (js_Configs js)) (fst (getCacheDirVolumes cmd)) (snd (getCacheDirVolumes cmd)) (p_spec p))) s"
  unfolding NewMountPod_def wp_bindO
  apply (rule wp_any)
  subgoal for r s'
    apply (cases r)
      apply (simp_all add: wp_simps)
    apply (cases "getCommand js")
      apply (auto simp: wp_simps generateJuicePod_def os_defs Let_def split_beta
        add_finalizer_sel [OF assms] GeneratePodTemplate_def upd_container0_def juice_spec_def zero_spec_def)
    done
  done

lemma newJob_spec:
  "wp (newJob E C js jobName) (\<lambda>(j, js') _. \<exists>h. juice_spec C js' (g_range E h (js_Configs js)) [] [] (job_podSpec j)) s"
  by (auto simp: newJob_def generateJuicePod_def wp_simps os_defs Let_def GeneratePodTemplate_def upd_container0_def juice_spec_def zero_spec_def)

lemma juice_spec_command: "juice_spec C js configs cvs cms (job_podSpec (set_job_command cmd j)) = juice_spec C js configs cvs cms (job_podSpec j)"
  by (auto simp: set_job_command_def upd_container0_def juice_spec_def Let_def split: list.splits)

lemma job_declared:
  "wp (NewJobForCreateVolume E C js) (\<lambda>(j, _) _. mounts_declared (job_podSpec j)) s"
  "wp (NewJobForDeleteVolume E C js) (\<lambda>(j, _) _. mounts_declared (job_podSpec j)) s"
  unfolding NewJobForCreateVolume_def NewJobForDeleteVolume_def wp_bind
  by (rule wp_mono [OF newJob_spec], clarsimp simp: wp_simps, rule juice_spec_declared,
      erule juice_spec_command [THEN iffD2], simp)+

section \<open>Properties\<close>

text \<open>
  C32: every volume that a container or init container of a mount pod mounts is a volume the pod declares, and likewise for the
  pods of the jobs that create and delete a volume: the API server does not refuse them for an undeclared volume.
\<close>

theorem mount_pod_volumes_declared:
  assumes "finalizers_documented E" "run_state (NewMountPod E C js podName) s = (Ok pod, s')"
    and "run_state (NewJobForCreateVolume E C js) s = ((job, js1), s1)"
    and "run_state (NewJobForDeleteVolume E C js) s = ((job', js2), s2)"
  shows "mounts_declared (p_spec pod) \<and> mounts_declared (job_podSpec job) \<and> mounts_declared (job_podSpec job')"
proof -
  from wp_run [OF assms(2) NewMountPod_spec [OF assms(1)]] obtain cmd h where
    "juice_spec C js (g_range E h (js_Configs js)) (fst (getCacheDirVolumes cmd)) (snd (getCacheDirVolumes cmd)) (p_spec pod)" by auto
  then have "mounts_declared (p_spec pod)"
    by (rule juice_spec_declared) (metis getCacheDirVolumes_names list.set_map order_refl)
  then show ?thesis using wp_run [OF assms(3) job_declared(1)] wp_run [OF assms(4) job_declared(2)] by simp
qed

text \<open>\<^verbatim>\<open>range\<close> visits every entry of a map once.\<close>

definition range_documented :: "env \<Rightarrow> bool" where
  "range_documented E \<longleftrightarrow> (\<forall>h m. mset (g_range E h m) = mset m)"

text \<open>The cache directories of a mount command give volumes Kubernetes accepts beside the volumes of every mount pod.\<close>

definition cache_admissible :: "string \<Rightarrow> bool" where
  "cache_admissible cmd \<longleftrightarrow> (let names = map vol_name (fst (getCacheDirVolumes cmd)); paths = map vm_mountPath (snd (getCacheDirVolumes cmd)) in
     distinct names \<and> list_all dns_label names \<and> set names \<inter> {''jfs-dir'', ''jfs-root-dir'', ''rsa-key''} = {} \<and>
     distinct paths \<and> set paths \<inter> {PodMountBase, ''/root/.juicefs'', ''/root/.rsa''} = {})"

lemma fixed_labels: "dns_label ''jfs-dir''" "dns_label ''jfs-root-dir''" "dns_label ''rsa-key''" "\<not> dns_label ''init_config''"
  "distinct [PodMountBase, ''/root/.juicefs'', ''/root/.rsa'']"
  by code_simp+

lemma mount_pod_admissible_iff:
  assumes "juice_spec C js [] (fst (getCacheDirVolumes cmd)) (snd (getCacheDirVolumes cmd)) sp" "cache_admissible cmd"
  shows "volumes_admissible sp \<longleftrightarrow> js_InitConfig js = ''''"
proof (cases "js_InitConfig js = ''''")
  case True
  let ?cvs = "fst (getCacheDirVolumes cmd)" and ?cms = "snd (getCacheDirVolumes cmd)"
  have names: "vol_name ` set ?cvs \<inter> {''jfs-dir'', ''jfs-root-dir'', ''rsa-key''} = {}" "distinct (map vol_name ?cvs)"
      "list_all dns_label (map vol_name ?cvs)"
    and paths: "vm_mountPath ` set ?cms \<inter> {PodMountBase, ''/root/.juicefs'', ''/root/.rsa''} = {}" "distinct (map vm_mountPath ?cms)"
    using assms(2) by (simp_all add: cache_admissible_def Let_def)
  have vols: "ps_volumes sp = getVolumes C js @ ?cvs" using assms(1) by (simp add: juice_spec_def Let_def)
  have "mounts_declared sp"
    by (rule juice_spec_declared [OF assms(1)]) (metis getCacheDirVolumes_names list.set_map order_refl)
  moreover have "distinct (map vol_name (ps_volumes sp)) \<and> list_all dns_label (map vol_name (ps_volumes sp))"
    using names fixed_labels True unfolding vols getVolumes_def by auto
  moreover have "distinct (map vm_mountPath (getVolumeMounts js @ ?cms))"
    using paths fixed_labels(5) True unfolding getVolumeMounts_def by auto
  moreover have "distinct (map vm_mountPath (c_volumeMounts (getInitContainer C js) @ getVolumeMounts js))"
    using fixed_labels(5) True unfolding getVolumeMounts_def getInitContainer_def Let_def by auto
  ultimately show ?thesis using True unfolding volumes_admissible_def juice_spec_paths [OF assms(1)] by simp
next
  case False
  then have "\<not> distinct (map vm_mountPath (getVolumeMounts js @ snd (getCacheDirVolumes cmd)))"
    by (simp add: getVolumeMounts_def)
  with False show ?thesis unfolding volumes_admissible_def juice_spec_paths [OF assms(1)] by blast
qed


lemma sim_range: "range_documented (sim_env ps)"
  by (simp add: range_documented_def)

lemma sim_pod_ok:
  assumes "js_IsCe js = False" "js_MountPodCpuLimit js = ''''" "js_MountPodMemLimit js = ''''"
    "js_MountPodCpuRequest js = ''''" "js_MountPodMemRequest js = ''''"
  shows "\<exists>p s'. run_state (NewMountPod (sim_env []) sim_config js ''juicefs-node-pvc'') sim_state = (Ok p, s')"
  using assms
  by (auto simp: NewMountPod_def parsePodResources_def put_limit_def put_request_def bindO_def getCommand_def
      generateJuicePod_def os_defs Let_def split_beta)

theorem mount_pod_volumes_declared_witness:
  "\<exists>p s'. run_state (NewMountPod (sim_env []) sim_config sim_setting ''juicefs-node-pvc'') sim_state = (Ok p, s') \<and>
     mounts_declared (p_spec p)"
proof -
  obtain p s' where run: "run_state (NewMountPod (sim_env []) sim_config sim_setting ''juicefs-node-pvc'') sim_state = (Ok p, s')"
    using sim_pod_ok [of sim_setting] by (auto simp: sim_setting_def zero_setting_def)
  obtain j js1 s1 j' js2 s2 where "run_state (NewJobForCreateVolume (sim_env []) sim_config sim_setting) sim_state = ((j, js1), s1)"
    "run_state (NewJobForDeleteVolume (sim_env []) sim_config sim_setting) sim_state = ((j', js2), s2)"
    by (metis prod.exhaust)
  from mount_pod_volumes_declared [OF sim_finalizers run this] run show ?thesis by blast
qed


end
