(* ===== verification/VolumeTable.thy ===== *)
theory VolumeTable
  imports NodePublish
begin

text \<open>
  The controller service's table of volumes (pkg/driver/controller.go) under sequences of requests.
\<close>

section \<open>The controller's volume table\<close>

text \<open>The codes with which \<^verbatim>\<open>CreateVolume\<close> refuses a request before it does anything.\<close>

fun refused :: "'a outcome \<Rightarrow> bool" where
  "refused (Err (StatusError c _ _ _)) \<longleftrightarrow> c = InvalidArgument \<or> c = AlreadyExistsCode"
| "refused _ \<longleftrightarrow> False"

definition conflicting :: "vols \<Rightarrow> create_request \<Rightarrow> bool" where
  "conflicting vols req \<longleftrightarrow> (\<exists>capa. map_of vols (cr_name req) = Some capa \<and> capa < cr_requiredBytes req)"

definition malformed :: "create_request \<Rightarrow> bool" where
  "malformed req \<longleftrightarrow> cr_name req = '''' \<or> cr_capabilities req = None"

lemma CreateVolume_refuses:
  assumes "malformed req \<or> conflicting vols req"
  shows "\<exists>r. run_state (CreateVolume E C Y vols req) s = ((r, vols), s) \<and> refused r"
  using assms by (auto simp: CreateVolume_def malformed_def conflicting_def Let_def)

lemma CreateVolume_accepts:
  assumes "\<not> malformed req" "\<not> conflicting vols req"
  shows "wp (CreateVolume E C Y vols req)
    (\<lambda>(r, vols') s'. vols' = mput (cr_name req) (cr_requiredBytes req) vols \<and> \<not> refused r) s"
proof -
  have "(case map_of vols (cr_name req) of Some capa \<Rightarrow> capa < cr_requiredBytes req | None \<Rightarrow> False) = False"
    using assms(2) by (auto simp: conflicting_def split: option.splits)
  then show ?thesis
    using assms(1) by (auto simp: CreateVolume_def malformed_def Let_def wp_simps intro!: wp_any split: outcome.splits)
qed

text \<open>
  C21: \<^verbatim>\<open>CreateVolume\<close> refuses exactly the requests without a name or capabilities and those for more bytes than the volume
  is recorded with, without any effect; every other request sets the recorded capacity, even when
  creating the volume fails afterwards.
\<close>

theorem CreateVolume_table:
  "refused (fst (fst (run_state (CreateVolume E C Y vols req) s))) = (malformed req \<or> conflicting vols req) \<and>
   snd (fst (run_state (CreateVolume E C Y vols req) s)) =
     (if malformed req \<or> conflicting vols req then vols else mput (cr_name req) (cr_requiredBytes req) vols) \<and>
   (if malformed req \<or> conflicting vols req then snd (run_state (CreateVolume E C Y vols req) s) = s else True)"
proof (cases "malformed req \<or> conflicting vols req")
  case True
  then obtain r where "run_state (CreateVolume E C Y vols req) s = ((r, vols), s)" "refused r"
    using CreateVolume_refuses by blast
  with True show ?thesis by simp
next
  case False
  then show ?thesis using CreateVolume_accepts [of req vols E C Y s] by (auto simp: wp_def split_beta)
qed

text \<open>
  The capacity recorded last counts, not the greatest: when a volume is created with some capacity and the
  request is repeated with a smaller one, the first request is refused from then on although the volume was created with it.
\<close>

theorem smaller_repeat_blocks_first_request:
  assumes "\<not> malformed req" "\<not> conflicting vols req" "cr_requiredBytes req' < cr_requiredBytes req"
    and "cr_name req' = cr_name req" "\<not> malformed req'"
    and "run_state (CreateVolume E C Y vols req) s = ((r1, vols1), s1)"
    and "run_state (CreateVolume E C Y vols1 req') s1 = ((r2, vols2), s2)"
  shows "\<not> refused r2 \<and> (\<exists>r3. run_state (CreateVolume E C Y vols2 req) s2 = ((r3, vols2), s2) \<and> refused r3)"
proof -
  have one: "vols1 = mput (cr_name req) (cr_requiredBytes req) vols"
    using wp_run [OF assms(6) CreateVolume_accepts [OF assms(1,2)]] by simp
  then have "\<not> conflicting vols1 req'" using assms(3,4) by (simp add: conflicting_def)
  with wp_run [OF assms(7) CreateVolume_accepts [OF assms(5)]] assms(4)
  have two: "vols2 = mput (cr_name req) (cr_requiredBytes req') vols1" "\<not> refused r2" by simp_all
  then have "conflicting vols2 req" using assms(3) by (simp add: conflicting_def)
  with two(2) CreateVolume_refuses show ?thesis by blast
qed

text \<open>The requests a controller serves one after the other, with what it answered.\<close>

datatype ctrl_event = Created create_request "csi_volume outcome" | Deleted string "unit outcome"

inductive ctrl_steps :: "env \<Rightarrow> config \<Rightarrow> decoders \<Rightarrow> ctrl_event list \<Rightarrow> vols \<Rightarrow> gst \<Rightarrow> bool"
  for E C Y where
  start: "ctrl_steps E C Y [] [] s"
| create: "ctrl_steps E C Y tr vols s \<Longrightarrow> run_state (CreateVolume E C Y vols req) s = ((r, vols'), s') \<Longrightarrow>
    ctrl_steps E C Y (Created req r # tr) vols' s'"
| delete: "ctrl_steps E C Y tr vols s \<Longrightarrow> run_state (DeleteVolume E C Y vols volumeID secrets) s = ((r, vols'), s') \<Longrightarrow>
    ctrl_steps E C Y (Deleted volumeID r # tr) vols' s'"

text \<open>What the answers alone say of a volume: the capacity of the last request that was not refused, unless it was deleted since.\<close>

fun promised :: "ctrl_event list \<Rightarrow> string \<Rightarrow> int option" where
  "promised [] v = None"
| "promised (Created req r # tr) v = (if cr_name req = v \<and> \<not> refused r then Some (cr_requiredBytes req) else promised tr v)"
| "promised (Deleted volumeID r # tr) v = (if volumeID = v \<and> r = Ok () then None else promised tr v)"

lemma CreateVolume_wp:
  "wp (CreateVolume E C Y vols req) (\<lambda>(r, vols') _.
     vols' = (if refused r then vols else mput (cr_name req) (cr_requiredBytes req) vols)) s"
proof (cases "malformed req \<or> conflicting vols req")
  case True
  with CreateVolume_refuses [OF True, of E C Y s] show ?thesis by (auto simp: wp_def)
next
  case False
  then show ?thesis by (intro wp_mono [OF CreateVolume_accepts]) auto
qed

lemma DeleteVolume_wp:
  "wp (DeleteVolume E C Y vols volumeID secrets) (\<lambda>(r, vols') _. vols' = (if r = Ok () then mdel volumeID vols else vols)) s"
  unfolding DeleteVolume_def by (auto simp: wp_simps intro!: wp_any split: outcome.splits)

lemma ctrl_steps_table: "ctrl_steps E C Y tr vols s \<Longrightarrow> wf_map vols \<and> (\<forall>v. map_of vols v = promised tr v)"
proof (induction rule: ctrl_steps.induct)
  case (create tr vols s req r vols' s')
  then show ?case using wp_run [OF create.hyps(2) CreateVolume_wp] by auto
next
  case (delete tr vols s volumeID secrets r vols' s')
  then show ?case using wp_run [OF delete.hyps(2) DeleteVolume_wp] by auto
qed simp

text \<open>
  After any sequence of creations and deletions, the table holds for each volume exactly the capacity of the last
  creation that was not refused, and nothing after a successful deletion; \<^verbatim>\<open>ValidateVolumeCapabilities\<close> says
  \<^verbatim>\<open>NotFound\<close> exactly for the other volumes and confirms exactly supported capabilities.
\<close>

theorem controller_table_refines_answers:
  assumes "ctrl_steps E C Y tr vols s" "volumeID \<noteq> ''''" "volCaps \<noteq> []"
  shows "map_of vols volumeID = promised tr volumeID \<and>
    ValidateVolumeCapabilities vols volumeID volCaps =
     (if promised tr volumeID = None then Inl (StatusError NotFoundCode ''Could not get volume by ID %q'' [volumeID] None)
      else Inr (if \<forall>c \<in> set volCaps. vc_mode c \<in> set volumeCaps then Some volCaps else None))"
  using ctrl_steps_table [OF assms(1)] assms(2,3)
  by (auto simp: ValidateVolumeCapabilities_def isValidVolumeCapabilities_iff mhas_def)

definition sim_create :: "int \<Rightarrow> create_request" where
  "sim_create bytes = \<lparr>cr_name = ''pvc'', cr_capabilities = Some [\<lparr>vc_mode = SINGLE_NODE_WRITER, vc_mountFlags = None\<rparr>],
     cr_requiredBytes = bytes, cr_parameters = [], cr_secrets = None\<rparr>"

lemma sim_create_sel [simp]: "cr_name (sim_create b) = ''pvc''" "cr_requiredBytes (sim_create b) = b" "\<not> malformed (sim_create b)"
  "\<not> conflicting [] req"
  by (simp_all add: sim_create_def malformed_def conflicting_def)

theorem smaller_repeat_blocks_first_request_witness:
  "let run = (\<lambda>vols b s. run_state (CreateVolume (sim_env []) sim_config sim_decoders vols (sim_create b)) s);
       ((r1, vols1), s1) = run [] 10 sim_state;
       ((r2, vols2), s2) = run vols1 5 s1
   in refused (fst (fst (run vols2 10 s2)))"
proof -
  let ?run = "\<lambda>vols b s. run_state (CreateVolume (sim_env []) sim_config sim_decoders vols (sim_create b)) s"
  obtain r1 vols1 s1 where one: "?run [] 10 sim_state = ((r1, vols1), s1)" by (metis prod.exhaust)
  obtain r2 vols2 s2 where two: "?run vols1 5 s1 = ((r2, vols2), s2)" by (metis prod.exhaust)
  have "\<exists>r3. ?run vols2 10 s2 = ((r3, vols2), s2) \<and> refused r3"
    using smaller_repeat_blocks_first_request [OF _ _ _ _ _ one two] by simp
  then show ?thesis by (auto simp: one two)
qed

theorem controller_table_refines_answers_witness:
  "\<exists>tr vols s. ctrl_steps (sim_env []) sim_config sim_decoders tr vols s \<and> promised tr ''pvc'' = Some 10 \<and>
     (let caps = [\<lparr>vc_mode = SINGLE_NODE_WRITER, vc_mountFlags = None\<rparr>]
      in ValidateVolumeCapabilities vols ''pvc'' caps = Inr (Some caps))"
proof -
  obtain r vols s where one: "run_state (CreateVolume (sim_env []) sim_config sim_decoders [] (sim_create 10)) sim_state = ((r, vols), s)"
    by (metis prod.exhaust)
  have ok: "\<not> refused r" using wp_run [OF one CreateVolume_accepts] by simp
  have steps: "ctrl_steps (sim_env []) sim_config sim_decoders [Created (sim_create 10) r] vols s"
    by (rule ctrl_steps.create [OF ctrl_steps.start one])
  show ?thesis
    using controller_table_refines_answers [OF steps, of "''pvc''" "[\<lparr>vc_mode = SINGLE_NODE_WRITER, vc_mountFlags = None\<rparr>]"] steps ok
    by (intro exI [of _ "[Created (sim_create 10) r]"] exI [of _ vols] exI [of _ s])
      (simp add: volumeCaps_def)
qed

end
