(* ===== verification/VolumePaths.thy ===== *)
theory VolumePaths
  imports VolumeTable NodePublish
begin

text \<open>
  Which directories the services change. What \<^verbatim>\<open>DeleteVolume\<close> (pkg/driver/controller.go) removes when the driver mounts the file
  system in its own process, when, and what is left behind; and what \<^verbatim>\<open>NodePublishVolume\<close> (pkg/driver/node.go) mounts, creates
  and takes off.
\<close>

section \<open>Mounts and removals in a history\<close>

text \<open>The directory a command removes: \<^verbatim>\<open>rm -rf\<close>, or \<^verbatim>\<open>rmr\<close> of the community edition's client.\<close>

fun removes :: "event \<Rightarrow> string option" where
  "removes (EvExec cmd [a, d] envs r) =
     (if cmd = ''rm'' \<and> a = ''-rf'' \<or> cmd = CeCliPath \<and> a = ''rmr'' then Some d else None)"
| "removes _ = None"

text \<open>
  With this event the driver knows that a file system is mounted at \<open>mp\<close>: its own mount succeeded, or the path is the root
  (inode 1) of a file system after the driver started the mount command for it.
\<close>

fun mount_command :: "string \<Rightarrow> event \<Rightarrow> bool" where
  "mount_command mp (EvSpawn cmd (src # t # opts) envs) \<longleftrightarrow> cmd = CeMountPath \<and> t = mp"
| "mount_command mp _ \<longleftrightarrow> False"

fun mount_seen :: "string \<Rightarrow> event \<Rightarrow> history \<Rightarrow> bool" where
  "mount_seen mp (EvMount src t fs opts None) h \<longleftrightarrow> t = mp"
| "mount_seen mp (EvStat p (Inr fi)) h \<longleftrightarrow> p = mp \<and> fi_ino fi = 1 \<and> (\<exists>e \<in> set h. mount_command mp e)"
| "mount_seen mp _ h \<longleftrightarrow> False"

text \<open>The mount was seen, and seen and not taken off since; the newest event comes first.\<close>

fun ever_mounted :: "string \<Rightarrow> history \<Rightarrow> bool" where
  "ever_mounted mp [] \<longleftrightarrow> False"
| "ever_mounted mp (e # h) \<longleftrightarrow> mount_seen mp e h \<or> ever_mounted mp h"

fun mount_live :: "string \<Rightarrow> history \<Rightarrow> bool" where
  "mount_live mp [] \<longleftrightarrow> False"
| "mount_live mp (e # h) \<longleftrightarrow> mount_seen mp e h \<or> e \<noteq> EvUnmount mp None \<and> mount_live mp h"

text \<open>Every removal is of \<open>d\<close> and happens while the mount at \<open>mp\<close> is live.\<close>

fun removals_guarded :: "string \<Rightarrow> string \<Rightarrow> history \<Rightarrow> bool" where
  "removals_guarded mp d [] \<longleftrightarrow> True"
| "removals_guarded mp d (e # h) \<longleftrightarrow>
     (case removes e of None \<Rightarrow> True | Some x \<Rightarrow> x = d \<and> mount_live mp h) \<and> removals_guarded mp d h"

text \<open>Events that neither mount nor remove.\<close>

fun calm :: "event \<Rightarrow> bool" where
  "calm (EvMount src t fs opts r) \<longleftrightarrow> False"
| "calm (EvSpawn cmd args envs) \<longleftrightarrow> False"
| "calm e \<longleftrightarrow> removes e = None"

lemma calm_removes: "calm e \<Longrightarrow> removes e = None"
  by (cases e rule: calm.cases) simp_all

lemma calm_mount_command: "calm e \<Longrightarrow> \<not> mount_command mp e"
  by (cases e) simp_all

lemma calm_mount_seen: "calm e \<Longrightarrow> \<forall>x \<in> set h. calm x \<Longrightarrow> \<not> mount_seen mp e h"
  by (auto elim!: mount_seen.elims simp: calm_mount_command)

lemma mount_seen_append: "mount_seen mp e evs \<Longrightarrow> mount_seen mp e (evs @ h)"
  by (auto elim!: mount_seen.elims)

lemma mount_seen_calm: "\<forall>x \<in> set h. calm x \<Longrightarrow> mount_seen mp e (evs @ h) = mount_seen mp e evs"
  by (rule mount_seen.cases [of "(mp, e, h)"]) (auto simp: calm_mount_command)

lemma removes_none_guarded: "\<forall>e \<in> set evs. removes e = None \<Longrightarrow> removals_guarded mp d evs"
  by (induction evs) auto

lemma mount_live_append: "mount_live mp evs \<Longrightarrow> mount_live mp (evs @ h)"
  by (induction evs) (auto simp: mount_seen_append)

lemma calm_never_mounted: "\<forall>e \<in> set h. calm e \<Longrightarrow> \<not> ever_mounted mp h"
  by (induction h) (auto simp: calm_mount_seen)

lemma calm_ever_mounted: "\<forall>e \<in> set h. calm e \<Longrightarrow> ever_mounted mp (evs @ h) = ever_mounted mp evs"
  by (induction evs) (auto simp: mount_seen_calm calm_never_mounted)

lemma removes_fresh: "a \<notin> {''-rf'', ''rmr''} \<Longrightarrow> removes (EvExec cmd (a # args) envs r) = None"
  by (cases args; cases "tl args"; simp)

lemma getSettings_calm: "emits calm (getSettings E C Y volumeID target secrets volCtx options)"
  unfolding getSettings_def AuthFs_def ceFormat_def write_initconfig_def setting_envs_def Let_def auth_args_def format_args_def
  by (intro emits_intros; simp add: removes_fresh)

section \<open>The mount in the process\<close>

lemma pm_prepare_calm: "emits calm (pm_prepare E js)"
  unfolding pm_prepare_def by (intro emits_intros; simp)

text \<open>No removal, and the mount is live or was never seen.\<close>

definition settled :: "string \<Rightarrow> bool \<Rightarrow> history \<Rightarrow> bool" where
  "settled mp ok evs \<longleftrightarrow> (\<forall>e \<in> set evs. removes e = None) \<and> (if ok then mount_live mp evs else \<not> ever_mounted mp evs)"

lemma settled_append: "settled mp ok evs \<Longrightarrow> \<forall>e \<in> set h. calm e \<Longrightarrow> settled mp ok (evs @ h)"
  unfolding settled_def by (auto simp: mount_live_append calm_ever_mounted calm_removes)

lemma settled_calm: "\<forall>e \<in> set h. calm e \<Longrightarrow> settled mp False h"
  by (auto simp: settled_def calm_never_mounted calm_removes)

lemma pm_wait_does:
  assumes "settled (js_MountPath js) False h" "\<exists>e \<in> set h. mount_command (js_MountPath js) e"
  shows "does (pm_wait n E js) (\<lambda>r evs. settled (js_MountPath js) (r = None) (evs @ h))"
  using assms
proof (induction n arbitrary: h)
  case (Suc n)
  have stat: "does (Stat E (js_MountPath js)) (\<lambda>r evs. evs = [EvStat (js_MountPath js) r])"
    unfolding Stat_def by (rule does_call) simp
  have sleep: "does (Sleep 1000000000) (\<lambda>r evs. evs = [EvSleep 1000000000])"
    unfolding Sleep_def emit_def by (rule does_call) simp
  show ?case
    unfolding pm_wait.simps
  proof (rule does_bind [OF stat], clarify, goal_cases)
    case (1 r)
    show ?case
    proof (cases "\<exists>fi. r = Inr fi \<and> fi_ino fi \<noteq> 1")
      case True
      then obtain fi where fi: "r = Inr fi" "fi_ino fi \<noteq> 1" by blast
      show ?thesis unfolding fi(1) sum.case if_not_P [OF fi(2)]
      proof (rule does_bind [OF sleep], clarify, goal_cases)
        case 1
        have "does (pm_wait n E js) (\<lambda>r evs. settled (js_MountPath js) (r = None) (evs @ EvSleep 1000000000 # EvStat (js_MountPath js) (Inr fi) # h))"
          by (rule Suc.IH) (use Suc.prems fi(2) in \<open>auto simp: settled_def\<close>)
        then show ?case by simp
      qed
    qed (use Suc.prems in \<open>auto simp: settled_def split: sum.splits\<close>)
  qed
qed (simp add: settled_def)

lemma pm_JMount_does: "does (pm_JMount E js) (\<lambda>r evs. settled (js_MountPath js) (r = Ok ()) evs)"
proof (cases "Contains (js_Source js) ''://''")
  case True
  have spawn: "does (emit (spawns_mount E js)) (\<lambda>_ evs. evs = [spawns_mount E js])"
    unfolding emit_def by (rule does_call) simp
  show ?thesis unfolding pm_JMount_ce [OF True]
  proof (rule does_bind [OF does_emits [OF pm_prepare_calm]], goal_cases)
    case (1 err evs)
    show ?case
    proof (cases err)
      case None
      have "settled (js_MountPath js) False (spawns_mount E js # evs)"
        using 1 by (auto simp: settled_def spawns_mount_def calm_removes calm_never_mounted)
      then have "does (pm_wait 30 E js) (\<lambda>r evs'. settled (js_MountPath js) (r = None) (evs' @ spawns_mount E js # evs))"
        by (rule pm_wait_does) (simp add: spawns_mount_def)
      then have "does (pm_wait 30 E js \<bind> (\<lambda>err2. State_Monad.return (of_err err2)))
          (\<lambda>r evs'. settled (js_MountPath js) (r = Ok ()) (evs' @ spawns_mount E js # evs))"
        by (rule does_bind) (case_tac a; simp)
      then show ?thesis unfolding None option.case by (intro does_bind [OF spawn]) simp
    qed (simp add: 1 settled_calm)
  qed
next
  case False
  have "does (Mount E (js_Source js) (js_MountPath js) FsType (js_Options js))
      (\<lambda>r evs. evs = [EvMount (js_Source js) (js_MountPath js) FsType (js_Options js) r])"
    unfolding Mount_def by (rule does_call) simp
  with False show ?thesis unfolding pm_JMount_def
    by (auto elim!: does_bind simp: settled_def split: option.splits)
qed

section \<open>The removal\<close>

lemma RmrDir_does:
  "does (RmrDir E d ce) (\<lambda>r evs. \<exists>cmd args. evs = [EvExec cmd args [] r] \<and> removes (EvExec cmd args [] r) = Some d)"
  unfolding RmrDir_def Exec_def by (auto intro!: does_call)

text \<open>The directory was found missing, or a removal command for it ended without an error.\<close>

definition removed :: "string \<Rightarrow> history \<Rightarrow> bool" where
  "removed d evs \<longleftrightarrow> EvPathExists d (False, None) \<in> set evs \<or>
     (\<exists>cmd args envs out. removes (EvExec cmd args envs (out, None)) = Some d \<and> EvExec cmd args envs (out, None) \<in> set evs)"

lemma removed_exec: "removes (EvExec cmd args envs (out, None)) = Some d \<Longrightarrow> removed d (EvExec cmd args envs (out, None) # h)"
  by (metis list.set_intros(1) removed_def)

lemma DeleteVol_does:
  assumes "settled mp True h"
  shows "does (DeleteVol E mp volumeID secrets) (\<lambda>r evs.
     removals_guarded mp (filepath_Join [mp, volumeID]) (evs @ h) \<and> mount_live mp (evs @ h) \<and>
     (r = None \<longrightarrow> removed (filepath_Join [mp, volumeID]) (evs @ h)))"
proof -
  let ?d = "filepath_Join [mp, volumeID]"
  have ex: "does (PathExists E ?d) (\<lambda>r evs. evs = [EvPathExists ?d r])"
    unfolding PathExists_def by (rule does_call) simp
  have h: "mount_live mp h" "removals_guarded mp ?d h" using assms by (simp_all add: settled_def removes_none_guarded)
  show ?thesis
    unfolding DeleteVol_def Let_def
  proof (rule does_bind [OF ex], clarify, goal_cases)
    case (1 existed pe)
    show ?case
    proof (cases "pe = None \<and> existed")
      case True
      show ?thesis using h True
        by (simp, intro does_bind [OF RmrDir_does]) (auto simp: removed_exec split: option.splits)
    qed (use h in \<open>cases pe; simp add: removed_def\<close>)
  qed
qed

text \<open>What \<^verbatim>\<open>JfsDeleteVol\<close> and \<^verbatim>\<open>DeleteVolume\<close> do with their mount \<open>mp\<close> and the directory \<open>d\<close>.\<close>

definition delete_effect :: "string \<Rightarrow> string \<Rightarrow> bool \<Rightarrow> history \<Rightarrow> bool" where
  "delete_effect mp d ok evs \<longleftrightarrow> removals_guarded mp d evs \<and>
     (if ok then removed d evs \<and> (\<exists>h. evs = EvUnmount mp None # h) else ever_mounted mp evs \<longrightarrow> mount_live mp evs)"

lemma settled_effect: "settled mp False evs \<Longrightarrow> delete_effect mp d False evs"
  by (simp add: settled_def delete_effect_def removes_none_guarded)

lemma with_process_mount_does:
  assumes "\<forall>e \<in> set h. calm e" "\<And>h. settled (js_MountPath js) True h \<Longrightarrow> does (work (js_MountPath js)) (\<lambda>r evs.
     removals_guarded (js_MountPath js) d (evs @ h) \<and> mount_live (js_MountPath js) (evs @ h) \<and> (r = None \<longrightarrow> removed d (evs @ h)))"
  shows "does (with_process_mount E volumeID js work) (\<lambda>r evs. delete_effect (js_MountPath js) d (r = Ok ()) (evs @ h))"
proof -
  let ?mp = "js_MountPath js"
  have um: "does (Unmount E ?mp) (\<lambda>r evs. evs = [EvUnmount ?mp r])" unfolding Unmount_def by (rule does_call) simp
  have tail: "does (case err of
        Some e \<Rightarrow> State_Monad.return (Err e)
      | None \<Rightarrow> do {
          err2 \<leftarrow> Unmount E ?mp;
          State_Monad.return (case err2 of
              Some e \<Rightarrow> Err (StatusError Internal ''Could not unmount volume %q: %v'' [volumeID] (Some e))
            | None \<Rightarrow> Ok ())
        }) (\<lambda>r evs. delete_effect ?mp d (r = Ok ()) (evs @ t))"
    if "removals_guarded ?mp d t" "mount_live ?mp t" "err = None \<longrightarrow> removed d t" for err t
  proof (cases err)
    case None
    with that show ?thesis
      by (simp, intro does_bind [OF um]) (auto simp: delete_effect_def removed_def split: option.splits)
  qed (use that in \<open>simp add: delete_effect_def\<close>)
  show ?thesis
    unfolding with_process_mount_def
  proof (rule does_bind [OF pm_JMount_does], goal_cases)
    case (1 m evs)
    have s: "settled ?mp (m = Ok ()) (evs @ h)" by (rule settled_append [OF 1 assms(1)])
    show ?case
    proof (cases m)
      case (Ok u)
      with s have "settled ?mp True (evs @ h)" by simp
      note work = assms(2) [OF this]
      show ?thesis unfolding Ok outcome.case append_assoc
        by (rule does_bind [OF work]) (use tail in \<open>simp\<close>)
    qed (use s in \<open>simp_all add: settled_effect\<close>)
  qed
qed

lemma JfsDeleteVol_does:
  assumes "\<not> FormatInPod C"
  shows "does (JfsDeleteVol E C Y volumeID subPath secrets) (\<lambda>r evs.
     delete_effect (filepath_Join [PodMountBase, volumeID]) (filepath_Join [filepath_Join [PodMountBase, volumeID], volumeID]) (r = Ok ()) evs)"
proof -
  let ?mp = "filepath_Join [PodMountBase, volumeID]"
  let ?d = "filepath_Join [?mp, volumeID]"
  show ?thesis
    unfolding JfsDeleteVol_def
  proof (rule does_bind [OF does_result [OF getSettings_fields does_emits [OF getSettings_calm]]], goal_cases)
    case (1 r evs)
    show ?case
    proof (cases r)
      case (Inr js0)
      let ?js = "js0\<lparr>js_SubPath := subPath, js_MountPath := ?mp\<rparr>"
      have id: "js_VolumeId js0 = volumeID" using 1 Inr by (simp add: request_fields_def)
      have "does (with_process_mount E volumeID ?js (\<lambda>mountPath. do {
                err \<leftarrow> DeleteVol E mountPath volumeID (entries secrets);
                State_Monad.return (case err of
                    Some e \<Rightarrow> Some (StatusError Internal ''Could not delete volume: %q, err: %v'' [volumeID] (Some e))
                  | None \<Rightarrow> None)
              })) (\<lambda>r evs'. delete_effect (js_MountPath ?js) ?d (r = Ok ()) (evs' @ evs))"
        by (rule with_process_mount_does) (use 1 in \<open>auto intro!: does_bind [OF DeleteVol_does] split: option.splits\<close>)
      then show ?thesis using Inr assms id by simp
    qed (use 1 in \<open>simp add: settled_effect settled_calm\<close>)
  qed
qed

lemma volume_directory:
  assumes "plain_comp v"
  shows "filepath_Join [PodMountBase, v] = ''/jfs/'' @ v" "filepath_Join [''/jfs/'' @ v, v] = ''/jfs/'' @ v @ ''/'' @ v"
proof -
  have v: "Split v ''/'' = [v]" "v \<noteq> ''''" using assms by (simp_all add: plain_comp_def Split_char_none)
  have jfs: "plain_comp ''jfs''" by (simp add: plain_comp_def)
  show "filepath_Join [PodMountBase, v] = ''/jfs/'' @ v"
    using filepath_Join_abs [OF jfs assms] by (simp add: PodMountBase_def)
  show "filepath_Join [''/jfs/'' @ v, v] = ''/jfs/'' @ v @ ''/'' @ v"
    using filepath_Join_inside [of "[''jfs'', v]" v] assms jfs v by (auto simp: plain_comp_def Join_Cons)
qed

text \<open>Without that, the directory may be the root of the file system.\<close>

lemma dotted_volume_directory: "filepath_Join [PodMountBase, ''a/..''] = PodMountBase" "filepath_Join [filepath_Join [PodMountBase, ''a/..''], ''a/..''] = PodMountBase"
  by code_simp+

text \<open>
  C7: for a volume whose ID is a single path component, and whatever the operating system answers, the only directory that
  \<^verbatim>\<open>DeleteVolume\<close> removes in process mode is the volume's own, and only while the driver has seen the file system mounted
  in the same request and has not taken it off. When it succeeds, the directory was missing or its removal succeeded, and the file
  system was unmounted last; when it fails after the mount was seen, the mount is left behind.
\<close>

theorem DeleteVolume_removes_volume_only:
  assumes "\<not> FormatInPod C" "plain_comp volumeID"
    and "run_state (DeleteVolume E C Y vols volumeID secrets) s = ((r, vols'), s')"
  shows "\<exists>evs. hist s' = evs @ hist s \<and>
     removals_guarded (''/jfs/'' @ volumeID) (''/jfs/'' @ volumeID @ ''/'' @ volumeID) evs \<and>
     (if r = Ok () then removed (''/jfs/'' @ volumeID @ ''/'' @ volumeID) evs \<and> (\<exists>h. evs = EvUnmount (''/jfs/'' @ volumeID) None # h)
      else ever_mounted (''/jfs/'' @ volumeID) evs \<longrightarrow> mount_live (''/jfs/'' @ volumeID) evs)"
proof -
  let ?mp = "''/jfs/'' @ volumeID" and ?d = "''/jfs/'' @ volumeID @ ''/'' @ volumeID"
  have inner: "does (JfsDeleteVol E C Y volumeID volumeID secrets) (\<lambda>r evs. delete_effect ?mp ?d (r = Ok ()) evs)"
    using JfsDeleteVol_does [OF assms(1), of E Y volumeID volumeID secrets] unfolding volume_directory [OF assms(2)] .
  have "does (DeleteVolume E C Y vols volumeID secrets) (\<lambda>(r, _) evs. delete_effect ?mp ?d (r = Ok ()) evs)"
    unfolding DeleteVolume_def
    using assms(2) by (auto simp: plain_comp_def intro!: does_bind [OF inner] split: outcome.splits)
  then have "wp (DeleteVolume E C Y vols volumeID secrets) (\<lambda>(r, _) s'. \<exists>evs. hist s' = evs @ hist s \<and> delete_effect ?mp ?d (r = Ok ()) evs) s"
    unfolding does_def by (auto intro: wp_mono)
  from wp_run [OF assms(3) this] show ?thesis by (auto simp: delete_effect_def)
qed

lemma sim_delete_ok:
  "fst (run_state (DeleteVolume (sim_env []) sim_config sim_decoders [(''pvc'', 10)] ''pvc'' (Some [(''name'', ''test'')])) sim_state) = (Ok (), [])"
  by (simp add: DeleteVolume_def JfsDeleteVol_def with_process_mount_def DeleteVol_def RmrDir_def pm_JMount_def publish_defs sim_run_defs
      sim_decoders_def mhas_def mindex_def Contains_def HasPrefix_def Let_def)

theorem DeleteVolume_removes_volume_only_witness:
  "removed ''/jfs/pvc/pvc''
     (hist (snd (run_state (DeleteVolume (sim_env []) sim_config sim_decoders [(''pvc'', 10)] ''pvc'' (Some [(''name'', ''test'')])) sim_state)))"
proof -
  let ?m = "DeleteVolume (sim_env []) sim_config sim_decoders [(''pvc'', 10)] ''pvc'' (Some [(''name'', ''test'')])"
  have run: "run_state ?m sim_state = ((Ok (), []), snd (run_state ?m sim_state))" using sim_delete_ok by (simp add: prod_eq_iff)
  have "\<not> FormatInPod sim_config" "plain_comp ''pvc''" by (simp_all add: sim_config_def plain_comp_def)
  from DeleteVolume_removes_volume_only [OF this run] show ?thesis by (auto simp: sim_state_def)
qed

section \<open>What a publication touches\<close>

text \<open>The file system operations on the target, on the volume's mount path and on the volume's directory that publishing may do.\<close>

fun within :: "string \<Rightarrow> string \<Rightarrow> string \<Rightarrow> event \<Rightarrow> bool" where
  "within target mp dir (EvMount src t fs opts r) \<longleftrightarrow> fs = ''none'' \<and> src = dir \<and> t = target \<or> fs = FsType \<and> t = mp"
| "within target mp dir (EvMkdirAll p perm r) \<longleftrightarrow> p \<in> {target, mp, dir}"
| "within target mp dir (EvChmod p perm r) \<longleftrightarrow> p = dir"
| "within target mp dir (EvRemove p r) \<longleftrightarrow> p = target"
| "within target mp dir (EvUnmount p r) \<longleftrightarrow> p = mp"
| "within target mp dir (EvCleanup p r) \<longleftrightarrow> False"
| "within target mp dir e \<longleftrightarrow> removes e = None"

lemma getSettings_within: "emits (within tg mp dir) (getSettings E C Y volumeID target secrets volCtx options)"
  unfolding getSettings_def AuthFs_def ceFormat_def write_initconfig_def setting_envs_def Let_def auth_args_def format_args_def
  by (intro emits_intros; simp add: removes_fresh)

lemma pm_JMount_within: "emits (within tg (js_MountPath js) dir) (pm_JMount E js)"
proof -
  have "emits (within tg (js_MountPath js) dir) (pm_wait n E js)" for n
    by (induction n) (auto intro!: emits_intros)
  then show ?thesis
    unfolding pm_JMount_def pm_prepare_def Let_def by (intro emits_intros; simp)
qed

lemma JMount_within:
  assumes "retry_documented E"
  shows "emits (within tg mp dir) (JMount E C js)"
proof -
  have sec: "emits (within tg mp dir) (createOrUpdateSecret E C sec)" for sec
    unfolding createOrUpdateSecret_def using assms by (auto simp: client_defs intro!: emits_intros split: sum.splits)
  have ref: "emits (within tg mp dir) (AddRefOfMount E C target n)" for target n
    unfolding AddRefOfMount_def Let_def using assms by (auto simp: client_defs intro!: emits_retry emits_intros split: sum.splits)
  have add: "emits (within tg mp dir) (add_to_pod E C js n sec oldPod)" for js n sec oldPod
    unfolding add_to_pod_def by (intro emits_intros sec ref)
  have create: "emits (within tg mp dir) (create_pod E C js n sec)" for js n sec
    unfolding create_pod_def by (intro emits_intros sec; simp)
  have "emits (within tg mp dir) (createOrAddRef_loop n E C js' podName sec)" for n podName sec js'
    by (rule create.loop_emits) (auto intro!: emits_intros add create split: sum.splits if_splits)
  moreover have "emits (within tg mp dir) (waitUtilPodReady E C podName)" for podName
    unfolding waitUtilPodReady_def by (rule emits_mono [OF waitUtilPodReady_reads]) auto
  ultimately show ?thesis
    unfolding JMount_def createOrAddRef_def Let_def by (intro emits_intros) simp_all
qed

lemma MountFs_within:
  assumes "retry_documented E" "filepath_Join [if js_UsePod js then PodMountBase else MountBase, js_VolumeId js] = mp"
  shows "emits (within tg mp dir) (MountFs E C js)"
proof -
  have "emits (within tg mp dir) (pm_JMount E (js\<lparr>js_MountPath := mp\<rparr>))"
    using pm_JMount_within [of tg "js\<lparr>js_MountPath := mp\<rparr>" dir E] by simp
  then show ?thesis
    unfolding MountFs_def Let_def assms(2) pod_mount_def by (intro emits_intros JMount_within [OF assms(1)]; simp)
qed

lemma JfsMount_within:
  assumes "retry_documented E"
  shows "emits (within tg (filepath_Join [mount_root C secrets, volumeID]) dir) (JfsMount E C Y volumeID target secrets volCtx options)"
  unfolding JfsMount_def
proof (rule emits_bind_wp [OF getSettings_within getSettings_fields], goal_cases)
  case (1 r)
  show ?case
  proof (cases r)
    case (Inr js)
    with 1 have "filepath_Join [if js_UsePod js then PodMountBase else MountBase, js_VolumeId js] = filepath_Join [mount_root C secrets, volumeID]"
      by (simp add: request_fields_def mount_root_def)
    with Inr show ?thesis by (auto intro!: emits_intros MountFs_within [OF assms] split: outcome.splits)
  qed (auto intro: emits_intros)
qed

lemma CreateVol_within: "emits (within tg mp (filepath_Join [p, sub])) (CreateVol E p sub)"
  unfolding CreateVol_def Let_def by (intro emits_intros; simp)

lemma publish_within:
  assumes "retry_documented E"
  defines "mp \<equiv> \<lambda>C req. filepath_Join [mount_root C (pr_secrets req), pr_volumeId req]"
  shows "emits (within (pr_targetPath req) (mp C req) (filepath_Join [mp C req, mindex (entries (pr_volumeContext req)) ''subPath'']))
    (NodePublishVolume E C Y req)"
proof -
  let ?sub = "mindex (entries (pr_volumeContext req)) ''subPath''"
  let ?W = "within (pr_targetPath req) (mp C req) (filepath_Join [mp C req, ?sub])"
  have vol: "emits ?W (do {
       v \<leftarrow> CreateVol E (mp C req) ?sub;
       (case v of
          Inl e \<Rightarrow> State_Monad.return (Err (StatusError Internal ''Could not create volume: %s, %v'' [pr_volumeId req] (Some e)))
        | Inr bindSource \<Rightarrow> do {
            b \<leftarrow> Mount E bindSource (pr_targetPath req) ''none'' [''bind''];
            (case b of
               Some e \<Rightarrow> do {
                 _ \<leftarrow> Remove E (pr_targetPath req);
                 State_Monad.return (Err (StatusError Internal ''Could not bind %q at %q: %v'' [bindSource, pr_targetPath req] (Some e)))
               }
             | None \<Rightarrow> State_Monad.return (Ok ()))
          })
     })"
    by (rule emits_bind_wp [OF CreateVol_within CreateVol_path]) (intro emits_intros; simp)
  have mnt: "emits ?W (JfsMount E C Y (pr_volumeId req) (pr_targetPath req) (pr_secrets req) (pr_volumeContext req) options)" for options
    unfolding mp_def by (rule JfsMount_within [OF assms(1)])
  have rest: "emits ?W (do {
       m \<leftarrow> JfsMount E C Y (pr_volumeId req) (pr_targetPath req) (pr_secrets req) (pr_volumeContext req) options;
       (case m of
          Panic p \<Rightarrow> State_Monad.return (Panic p)
        | Err e \<Rightarrow> State_Monad.return (Err (StatusError Internal ''Could not mount juicefs: %v'' [] (Some e)))
        | Ok mountPath \<Rightarrow> f mountPath)
     })" if "emits ?W (f (mp C req))" for options and f :: "string \<Rightarrow> unit outcome prog"
    by (rule emits_bind_wp [OF mnt JfsMount_path]) (use that in \<open>auto simp: mp_def intro!: emits_intros split: outcome.splits\<close>)
  show ?thesis
    unfolding NodePublishVolume_def Let_def
    by (intro vol rest emits_intros; simp)
qed

text \<open>The directory of a volume, below its mount path.\<close>

definition volume_dir :: "config \<Rightarrow> publish_request \<Rightarrow> string" where
  "volume_dir C req = mount_root C (pr_secrets req) @ ''/'' @ Join (pr_volumeId req #
     filter (\<lambda>w. w \<noteq> '''' \<and> w \<noteq> ''.'') (Split (mindex (entries (pr_volumeContext req)) ''subPath'') ''/'')) ''/''"

lemma volume_dir_join:
  assumes "plain_comp (pr_volumeId req)" "''..'' \<notin> set (Split (mindex (entries (pr_volumeContext req)) ''subPath'') ''/'')"
  shows "filepath_Join [mount_root C (pr_secrets req), pr_volumeId req] = mount_root C (pr_secrets req) @ ''/'' @ pr_volumeId req"
    "filepath_Join [mount_root C (pr_secrets req) @ ''/'' @ pr_volumeId req, mindex (entries (pr_volumeContext req)) ''subPath''] = volume_dir C req"
proof -
  define cs where "cs = (if pr_secrets req \<noteq> None \<and> \<not> ByProcess C then [''jfs''] else [''var'', ''lib'', ''jfs''])"
  have cs: "list_all plain_comp cs" "cs \<noteq> []" "mount_root C (pr_secrets req) = ''/'' @ Join cs ''/''"
    by (simp_all add: cs_def mount_root_def PodMountBase_def MountBase_def plain_comp_def Join_Cons)
  have v: "Split (pr_volumeId req) ''/'' = [pr_volumeId req]" using assms(1) by (simp add: plain_comp_def Split_char_none)
  have join: "Join (cs @ ws) ''/'' = Join cs ''/'' @ ''/'' @ Join ws ''/''" if "ws \<noteq> []" for ws
    using that by (simp add: cs_def Join_Cons)
  show "filepath_Join [mount_root C (pr_secrets req), pr_volumeId req] = mount_root C (pr_secrets req) @ ''/'' @ pr_volumeId req"
    using filepath_Join_inside [OF cs(1,2), of "pr_volumeId req"] assms(1) v unfolding cs(3) by (auto simp: plain_comp_def join)
  show "filepath_Join [mount_root C (pr_secrets req) @ ''/'' @ pr_volumeId req, mindex (entries (pr_volumeContext req)) ''subPath''] = volume_dir C req"
    using filepath_Join_inside [of "cs @ [pr_volumeId req]" "mindex (entries (pr_volumeContext req)) ''subPath''"] cs(1,2) assms
    unfolding cs(3) volume_dir_def by (simp add: join)
qed



end
