(* ===== verification/Reconciler.thy ===== *)
theory Reconciler
  imports PodDriver
begin

text \<open>
  pkg/controller/reconciler.go: the loop that lists the node's pods, reads the mount table and runs
  the pod driver on every mount pod of the driver's namespace.
\<close>

fun run_pods :: "env \<Rightarrow> config \<Rightarrow> mountInfoTable \<Rightarrow> pod list \<Rightarrow> mountInfoTable prog" where
  "run_pods E C mit [] = State_Monad.return mit"
| "run_pods E C mit (pod # pods) =
     (if p_namespace pod \<noteq> Namespace C then run_pods E C mit pods
      else if map_of (entries (p_labels pod)) PodTypeKey \<noteq> Some PodTypeValue then run_pods E C mit pods
      else do {
        (_, mit') \<leftarrow> Run E C mit pod;
        run_pods E C mit' pods
      })"

section \<open>The kubelet's list of pods\<close>

text \<open>The client of kubelet_client.go; its transport and timeout are part of what \<^verbatim>\<open>client.Get\<close> answers.\<close>

record kubeletClient =
  kl_host :: string
  kl_port :: int

text \<open>
  The answer to a request is an error, or a body that is read with an error or to its end; its status code is not looked at. The decoding of the
  body as a \<^verbatim>\<open>PodList\<close> is \<open>x_pod_list\<close>: the JSON value \<^verbatim>\<open>null\<close> makes the pointer nil (\<open>Inr None\<close>).
\<close>

definition GetNodeRunningPods :: "env \<Rightarrow> kubeletClient \<Rightarrow> (goerr + pod list option) prog" where
  "GetNodeRunningPods E kl = do {
     let url = ''https://'' @ kl_host kl @ '':'' @ Itoa (kl_port kl) @ ''/pods/'';
     resp \<leftarrow> call (\<lambda>h. o_http_get E h url) (EvHttpGet url);
     State_Monad.return (case resp of
         Inl err \<Rightarrow> Inl err
       | Inr (Inl err) \<Rightarrow> Inl err
       | Inr (Inr body) \<Rightarrow> (case x_pod_list E body of Inl err \<Rightarrow> Inl err | Inr podLists \<Rightarrow> Inr podLists))
   }"

section \<open>The loop\<close>

text \<open>One round of the loop of \<^verbatim>\<open>doReconcile\<close>. Ranging over the items of a nil list panics, which ends the process.\<close>

definition reconcile_round :: "env \<Rightarrow> config \<Rightarrow> kubeletClient \<Rightarrow> mountInfoTable \<Rightarrow> mountInfoTable outcome prog" where
  "reconcile_round E C kl mit = do {
     r \<leftarrow> GetNodeRunningPods E kl;
     mit' \<leftarrow> (case r of
         Inl _ \<Rightarrow> State_Monad.return (Ok mit)
       | Inr podList \<Rightarrow> do {
           (err, mit1) \<leftarrow> parse_mountinfo E mit;
           (case err of
              Some _ \<Rightarrow> State_Monad.return (Ok mit1)
            | None \<Rightarrow> (
                let mit2 = setPodsStatus mit1 podList in
                case podList of
                  None \<Rightarrow> State_Monad.return (Panic ''invalid memory address or nil pointer dereference'')
                | Some items \<Rightarrow> do { mit3 \<leftarrow> run_pods E C mit2 items; State_Monad.return (Ok mit3) }))
         });
     (case mit' of
        Ok m \<Rightarrow> do { Sleep (i64 (ReconcilerInterval C * 1000000000)); State_Monad.return (Ok m) }
      | Err e \<Rightarrow> State_Monad.return (Err e)
      | Panic p \<Rightarrow> State_Monad.return (Panic p))
   }"

text \<open>The first \<open>n\<close> rounds of the loop, which never ends by itself.\<close>

fun doReconcile :: "nat \<Rightarrow> env \<Rightarrow> config \<Rightarrow> kubeletClient \<Rightarrow> mountInfoTable \<Rightarrow> mountInfoTable outcome prog" where
  "doReconcile 0 E C kl mit = State_Monad.return (Ok mit)"
| "doReconcile (Suc n) E C kl mit = bindO (reconcile_round E C kl mit) (doReconcile n E C kl)"

definition mount_pod :: "config \<Rightarrow> pod \<Rightarrow> bool" where
  "mount_pod C pod \<longleftrightarrow>
     p_namespace pod = Namespace C \<and> map_of (entries (p_labels pod)) PodTypeKey = Some PodTypeValue"

text \<open>
  A round of the reconciler treats the kubelet's list as if it held only the driver's mount pods:
  pods of other namespaces or without the label have no influence on what it does.
\<close>

theorem run_pods_ignores_other_pods:
  "run_pods E C mit pods = run_pods E C mit (filter (mount_pod C) pods)"
  by (induction pods arbitrary: mit) (auto simp: mount_pod_def intro!: arg_cong2 [where f = State_Monad.bind])

end
