(* ===== verification/GoUrl.thy ===== *)
theory GoUrl
  imports GoStrings
begin

text \<open>
  \<^verbatim>\<open>url.Parse\<close> of Go's \<^verbatim>\<open>net/url\<close> (Go 1.16), for the scheme, host and path of an endpoint; user, query and fragment are checked as
  \<^verbatim>\<open>Parse\<close> checks them, and not kept.
\<close>

section \<open>Characters and escapes\<close>

datatype encoding = encodePath | encodeHost | encodeZone | encodeUserPassword | encodeFragment

definition is_alpha :: "char \<Rightarrow> bool" where
  "is_alpha c \<longleftrightarrow> (let n = of_char c :: nat in 97 \<le> n \<and> n \<le> 122 \<or> 65 \<le> n \<and> n \<le> 90)"

definition to_lower :: "string \<Rightarrow> string" where
  "to_lower s = map (\<lambda>c. let n = of_char c :: nat in if 65 \<le> n \<and> n \<le> 90 then char_of (n + 32) else c) s"

text \<open>\<^verbatim>\<open>unhex\<close>, \<open>None\<close> where \<^verbatim>\<open>ishex\<close> is false.\<close>

definition unhex :: "char \<Rightarrow> nat option" where
  "unhex c =
     (let n = of_char c :: nat in
      if 48 \<le> n \<and> n \<le> 57 then Some (n - 48)
      else if 97 \<le> n \<and> n \<le> 102 then Some (n - 87)
      else if 65 \<le> n \<and> n \<le> 70 then Some (n - 55)
      else None)"

text \<open>\<^verbatim>\<open>shouldEscape\<close> in a host or a zone.\<close>

definition shouldEscape_host :: "char \<Rightarrow> bool" where
  "shouldEscape_host c \<longleftrightarrow> \<not> (is_alpha c \<or> is_digit c \<or> c \<in> set ''!$&()*+,;=:[]<>-_.~'' \<or> c = CHR 0x27 \<or> c = CHR 0x22)"

text \<open>Whether \<^verbatim>\<open>unescape\<close> refuses the escape of the two hexadecimal digits, which is the byte \<open>v\<close>.\<close>

definition refused_escape :: "encoding \<Rightarrow> nat \<Rightarrow> bool" where
  "refused_escape mode v \<longleftrightarrow>
     (case mode of
        encodeHost \<Rightarrow> v div 16 < 8 \<and> v \<noteq> 37
      | encodeZone \<Rightarrow> v \<noteq> 37 \<and> v \<noteq> 32 \<and> shouldEscape_host (char_of v)
      | _ \<Rightarrow> False)"

fun unescape :: "encoding \<Rightarrow> string \<Rightarrow> goerr + string" where
  "unescape mode [] = Inr []"
| "unescape mode (c # s) =
     (if c = CHR ''%'' then
        (case s of
           a # b # r \<Rightarrow>
             (case (unhex a, unhex b) of
                (Some x, Some y) \<Rightarrow>
                  if refused_escape mode (16 * x + y) then Inl (Errorf ''invalid URL escape %q'' [[c, a, b]] None)
                  else bindE (unescape mode r) (\<lambda>t. Inr (char_of (16 * x + y) # t))
              | _ \<Rightarrow> Inl (Errorf ''invalid URL escape %q'' [[c, a, b]] None))
         | _ \<Rightarrow> Inl (Errorf ''invalid URL escape %q'' [c # s] None))
      else if (mode = encodeHost \<or> mode = encodeZone) \<and> of_char c < (128::nat) \<and> shouldEscape_host c then
        Inl (Errorf ''invalid character %q in host name'' [[c]] None)
      else bindE (unescape mode s) (\<lambda>t. Inr (c # t)))"

section \<open>The parts of a URL\<close>

text \<open>\<^verbatim>\<open>split(s, sep, cutc)\<close>: what is before the first separator and after it, with the separator unless \<^verbatim>\<open>cutc\<close>.\<close>

definition url_split :: "string \<Rightarrow> char \<Rightarrow> bool \<Rightarrow> string \<times> string" where
  "url_split s sep cutc =
     (let rest = dropWhile (\<lambda>c. c \<noteq> sep) s in
      (takeWhile (\<lambda>c. c \<noteq> sep) s, if cutc then drop 1 rest else rest))"

text \<open>\<^verbatim>\<open>getScheme\<close>; \<open>seen\<close> holds the characters before, the last first.\<close>

fun getScheme_from :: "string \<Rightarrow> string \<Rightarrow> string \<Rightarrow> goerr + string \<times> string" where
  "getScheme_from rawURL seen [] = Inr ('''', rawURL)"
| "getScheme_from rawURL seen (c # s) =
     (if is_alpha c then getScheme_from rawURL (c # seen) s
      else if is_digit c \<or> c = CHR ''+'' \<or> c = CHR ''-'' \<or> c = CHR ''.'' then
        if seen = [] then Inr ('''', rawURL) else getScheme_from rawURL (c # seen) s
      else if c = CHR '':'' then
        if seen = [] then Inl (ExtError ''missing protocol scheme'') else Inr (rev seen, s)
      else Inr ('''', rawURL))"

definition getScheme :: "string \<Rightarrow> goerr + string \<times> string" where
  "getScheme rawURL = getScheme_from rawURL [] rawURL"

definition validOptionalPort :: "string \<Rightarrow> bool" where
  "validOptionalPort port = (case port of [] \<Rightarrow> True | c # ds \<Rightarrow> c = CHR '':'' \<and> list_all is_digit ds)"

definition parseHost :: "string \<Rightarrow> goerr + string" where
  "parseHost host =
     (if HasPrefix host ''['' then (
        let i = LastIndex_char host (CHR '']'') in
        if i < 0 then Inl (ExtError ''missing ] in host'')
        else if \<not> validOptionalPort (drop (nat (i + 1)) host) then
          Inl (Errorf ''invalid port %q after host'' [drop (nat (i + 1)) host] None)
        else (case Index_nat (take (nat i) host) ''%25'' of
            Some zone \<Rightarrow>
              bindE (unescape encodeHost (take zone host)) (\<lambda>host1.
              bindE (unescape encodeZone (drop zone (take (nat i) host))) (\<lambda>host2.
              bindE (unescape encodeHost (drop (nat i) host)) (\<lambda>host3. Inr (host1 @ host2 @ host3))))
          | None \<Rightarrow> unescape encodeHost host))
      else (
        let i = LastIndex_char host (CHR '':'') in
        if i \<noteq> -1 \<and> \<not> validOptionalPort (drop (nat i) host) then
          Inl (Errorf ''invalid port %q after host'' [drop (nat i) host] None)
        else unescape encodeHost host))"

definition validUserinfo :: "string \<Rightarrow> bool" where
  "validUserinfo s = list_all (\<lambda>c. is_alpha c \<or> is_digit c \<or> c \<in> set ''-._:~!$&()*+,;=%@'' \<or> c = CHR 0x27) s"

text \<open>\<^verbatim>\<open>parseAuthority\<close>, the host of its result.\<close>

definition parseAuthority :: "string \<Rightarrow> goerr + string" where
  "parseAuthority authority =
     (let i = LastIndex_char authority (CHR ''@'') in
      if i < 0 then parseHost authority
      else bindE (parseHost (drop (nat (i + 1)) authority)) (\<lambda>host.
        let userinfo = take (nat i) authority in
        if \<not> validUserinfo userinfo then Inl (ExtError ''net/url: invalid userinfo'')
        else if \<not> Contains userinfo '':'' then bindE (unescape encodeUserPassword userinfo) (\<lambda>_. Inr host)
        else (let (username, password) = url_split userinfo (CHR '':'') True in
          bindE (unescape encodeUserPassword username) (\<lambda>_.
          bindE (unescape encodeUserPassword password) (\<lambda>_. Inr host)))))"

section \<open>Parse\<close>

record url =
  url_Scheme :: string
  url_Host :: string
  url_Path :: string

definition stringContainsCTLByte :: "string \<Rightarrow> bool" where
  "stringContainsCTLByte s = list_ex (\<lambda>c. of_char c < (32::nat) \<or> of_char c = (127::nat)) s"

text \<open>The query is cut off before the rest is read.\<close>

definition cut_query :: "string \<Rightarrow> string" where
  "cut_query rest = fst (url_split rest (CHR ''?'') True)"

definition colon_in_first_segment :: "string \<Rightarrow> bool" where
  "colon_in_first_segment rest \<longleftrightarrow>
     (let colon = Index rest '':''; slash = Index rest ''/'' in colon \<ge> 0 \<and> (slash < 0 \<or> colon < slash))"

definition url_parse :: "string \<Rightarrow> goerr + url" where
  "url_parse rawURL =
     (if stringContainsCTLByte rawURL then Inl (ExtError ''net/url: invalid control character in URL'')
      else if rawURL = ''*'' then Inr \<lparr>url_Scheme = '''', url_Host = '''', url_Path = ''*''\<rparr>
      else bindE (getScheme rawURL) (\<lambda>(sch, rest0).
        let scheme = to_lower sch; rest = cut_query rest0 in
        if \<not> HasPrefix rest ''/'' \<and> scheme \<noteq> '''' then Inr \<lparr>url_Scheme = scheme, url_Host = '''', url_Path = ''''\<rparr>
        else if \<not> HasPrefix rest ''/'' \<and> colon_in_first_segment rest then
          Inl (ExtError ''first path segment in URL cannot contain colon'')
        else if (scheme \<noteq> '''' \<or> \<not> HasPrefix rest ''///'') \<and> HasPrefix rest ''//'' then
          (let (authority, path) = url_split (drop 2 rest) (CHR ''/'') False in
           bindE (parseAuthority authority) (\<lambda>host.
           bindE (unescape encodePath path) (\<lambda>p. Inr \<lparr>url_Scheme = scheme, url_Host = host, url_Path = p\<rparr>)))
        else bindE (unescape encodePath rest) (\<lambda>p. Inr \<lparr>url_Scheme = scheme, url_Host = '''', url_Path = p\<rparr>)))"

definition Parse :: "string \<Rightarrow> goerr + url" where
  "Parse rawURL =
     (let (u, frag) = url_split rawURL (CHR ''#'') True in
      case url_parse u of
        Inl e \<Rightarrow> Inl (Errorf ''parse %q: %v'' [u] (Some e))
      | Inr url \<Rightarrow>
          (case unescape encodeFragment frag of
             Inl e \<Rightarrow> Inl (Errorf ''parse %q: %v'' [rawURL] (Some e))
           | Inr _ \<Rightarrow> Inr url))"

end
