(* ===== verification/Endpoint.thy ===== *)
theory Endpoint
  imports GoUrl GoPath OsCalls SimEnv
begin

text \<open>
  \<^verbatim>\<open>ParseEndpoint\<close> of pkg/util/util.go: where the driver listens, and the stale socket it removes there.
\<close>

definition ParseEndpoint :: "env \<Rightarrow> string \<Rightarrow> (goerr + string \<times> string) prog" where
  "ParseEndpoint E endpoint =
     (case Parse endpoint of
        Inl e \<Rightarrow> State_Monad.return (Inl (Errorf ''could not parse endpoint: %v'' [] (Some e)))
      | Inr u \<Rightarrow> (
          let addr = filepath_Join [url_Host u, url_Path u];
              scheme = to_lower (url_Scheme u)
          in if scheme = ''tcp'' then State_Monad.return (Inr (scheme, addr))
             else if scheme = ''unix'' then do {
               let addr' = filepath_Join [''/'', addr];
               err \<leftarrow> Remove E addr';
               State_Monad.return (case err of
                   Some e \<Rightarrow> if \<not> os_IsNotExist e then Inl (Errorf ''could not remove unix domain socket %q: %v'' [addr'] (Some e))
                            else Inr (scheme, addr')
                 | None \<Rightarrow> Inr (scheme, addr'))
             }
             else State_Monad.return (Inl (Errorf ''unsupported protocol: %s'' [scheme] None))))"

text \<open>
  C40: an endpoint that is accepted has the protocol \<^verbatim>\<open>tcp\<close> or \<^verbatim>\<open>unix\<close>. For \<^verbatim>\<open>tcp\<close> nothing is done; for \<^verbatim>\<open>unix\<close> the address is an absolute path without
  \<^verbatim>\<open>..\<close>, and the one file that was removed, or was missing already, is at this very address.
\<close>

theorem ParseEndpoint_removes_socket_only:
  assumes "run_state (ParseEndpoint E endpoint) s = (Inr (scheme, addr), s')"
  shows "(scheme = ''tcp'' \<and> s' = s) \<or>
     (scheme = ''unix'' \<and> is_rooted addr \<and> ''..'' \<notin> set (Split addr ''/'') \<and>
      (\<exists>r. hist s' = EvRemove addr r # hist s \<and> (r = None \<or> r = Some (OsError ENOENT))))"
proof -
  have rooted: "is_rooted (''//'' @ p)" for p by (simp add: is_rooted_def HasPrefix_char)
  have missing: "os_IsNotExist e \<Longrightarrow> e = OsError ENOENT" for e by (cases e rule: os_IsNotExist.cases) simp_all
  show ?thesis
    using assms Clean_rooted [OF rooted] missing
    by (auto simp: ParseEndpoint_def Let_def Remove_def call_def filepath_Join_root simp del: append_Cons
        split: sum.splits if_splits option.splits)
qed

theorem ParseEndpoint_removes_socket_only_witness:
  "run_state (ParseEndpoint (sim_env []) ''unix://tmp/csi.sock'') sim_state =
     (Inr (''unix'', ''/tmp/csi.sock''), sim_state\<lparr>hist := EvRemove ''/tmp/csi.sock'' None # hist sim_state\<rparr>) \<and>
   is_rooted ''/tmp/csi.sock'' \<and> ''..'' \<notin> set (Split ''/tmp/csi.sock'' ''/'')"
proof -
  have parse: "Parse ''unix://tmp/csi.sock'' = Inr \<lparr>url_Scheme = ''unix'', url_Host = ''tmp'', url_Path = ''/csi.sock''\<rparr>" by code_simp
  have join: "filepath_Join [''tmp'', ''/csi.sock''] = ''tmp/csi.sock''" "filepath_Join [''/'', ''tmp/csi.sock''] = ''/tmp/csi.sock''"
    "to_lower ''unix'' = ''unix''" by code_simp+
  have run: "run_state (ParseEndpoint (sim_env []) ''unix://tmp/csi.sock'') sim_state =
     (Inr (''unix'', ''/tmp/csi.sock''), sim_state\<lparr>hist := EvRemove ''/tmp/csi.sock'' None # hist sim_state\<rparr>)"
    by (simp add: ParseEndpoint_def parse join Let_def Remove_def call_def sim_env_def)
  from ParseEndpoint_removes_socket_only [OF run] run show ?thesis by simp
qed

end
