(* ===== verification/Startup.thy ===== *)
theory Startup
  imports Reconciler VolumeTable Endpoint
begin

text \<open>
  How the process starts: the flags and variables of cmd/main.go, the kubelet's client (kubelet_client.go), the reconciler's start, and the
  construction of the services (pkg/driver). What client-go answers is the record \<open>cluster\<close>; the requests
  that are served are in theory Server.
\<close>

section \<open>Configuration\<close>

definition Getenv :: "env \<Rightarrow> string \<Rightarrow> string" where
  "Getenv E k = (case o_getenv E k of None \<Rightarrow> '''' | Some v \<Rightarrow> v)"

text \<open>The variables of config.go before \<^verbatim>\<open>init\<close> runs.\<close>

definition default_config :: config where
  "default_config = \<lparr>ByProcess = False, EnableManager = False, FormatInPod = False, NodeName = '''', Namespace = '''',
     PodName = '''', MountImage = '''', MountLabels = '''', HostIp = '''', KubeletPort = '''', CSIPod = zero_pod,
     MountPointPath = ''/var/lib/juicefs/volume'', JFSConfigPath = ''/var/lib/juicefs/config'',
     JFSMountPriorityName = ''system-node-critical'', ReconcilerInterval = 5\<rparr>"

record cmd_flags =
  fl_endpoint :: string
  fl_version :: bool
  fl_nodeID :: string
  fl_enableManager :: bool
  fl_reconcilerInterval :: int
  fl_formatInPod :: bool
  fl_process :: bool

text \<open>
  What client-go answers when the driver builds its clients: \<^verbatim>\<open>rest.InClusterConfig\<close> (an error, a nil or a proper
  configuration), \<^verbatim>\<open>kubernetes.NewForConfig\<close>, and for the kubelet's client \<^verbatim>\<open>TLSConfigFor\<close> and
  \<^verbatim>\<open>HTTPWrappersForConfig\<close>.
\<close>

record transport_config =
  tc_CAFile :: string
  tc_CAData :: string
  tc_CertFile :: string
  tc_CertData :: string
  tc_KeyFile :: string
  tc_KeyData :: string
  tc_Insecure :: bool
  tc_BearerToken :: string

record cluster =
  cl_config :: "goerr + unit option"
  cl_clientset :: "goerr option"
  cl_tls :: "transport_config \<Rightarrow> goerr + bool"
  cl_wrappers :: "transport_config \<Rightarrow> bool \<Rightarrow> goerr option"

definition NewClient :: "cluster \<Rightarrow> goerr option" where
  "NewClient K =
     (case cl_config K of
        Inl e \<Rightarrow> Some e
      | Inr None \<Rightarrow> Some (StatusError NotFoundCode ''Can't get kube InClusterConfig'' [] None)
      | Inr (Some _) \<Rightarrow> cl_clientset K)"

text \<open>How the process goes on: with a value, or it exits (\<^verbatim>\<open>klog.Fatalln\<close> exits with 255), or it panics.\<close>

datatype 'a startup = Started 'a | Exited nat | Crashed goerr

definition env_config :: "env \<Rightarrow> cmd_flags \<Rightarrow> config" where
  "env_config E fl =
     default_config\<lparr>EnableManager := fl_enableManager fl, FormatInPod := fl_formatInPod fl,
       NodeName := Getenv E ''NODE_NAME'', Namespace := Getenv E ''JUICEFS_MOUNT_NAMESPACE'',
       PodName := Getenv E ''POD_NAME'', MountPointPath := Getenv E ''JUICEFS_MOUNT_PATH'',
       JFSConfigPath := Getenv E ''JUICEFS_CONFIG_PATH'', MountLabels := Getenv E ''JUICEFS_MOUNT_LABELS'',
       HostIp := Getenv E ''HOST_IP'', KubeletPort := Getenv E ''KUBELET_PORT'',
       JFSMountPriorityName := (let n = Getenv E ''JUICEFS_MOUNT_PRIORITY_NAME'' in
         if n \<noteq> '''' then n else JFSMountPriorityName default_config)\<rparr>"

definition set_resources :: "resources \<Rightarrow> unit prog" where
  "set_resources r = State (\<lambda>s. ((), s\<lparr>cr_limits := res_limits r, cr_requests := res_requests r\<rparr>))"

definition init_config :: "env \<Rightarrow> cluster \<Rightarrow> cmd_flags \<Rightarrow> config startup prog" where
  "init_config E K fl =
     (if fl_process fl then
        State_Monad.return (Started (default_config\<lparr>ByProcess := True, EnableManager := False, FormatInPod := False\<rparr>))
      else (
        let C = env_config E fl in
        if PodName C = '''' \<or> Namespace C = '''' then State_Monad.return (Exited 255)
        else (
          let C1 = C\<lparr>ReconcilerInterval := (if fl_reconcilerInterval fl < 5 then 5 else fl_reconcilerInterval fl)\<rparr>
          in case NewClient K of
               Some _ \<Rightarrow> State_Monad.return (Exited 0)
             | None \<Rightarrow> do {
                 r \<leftarrow> GetPod E (PodName C1) (Namespace C1);
                 (case r of
                    Inl _ \<Rightarrow> State_Monad.return (Exited 0)
                  | Inr pod \<Rightarrow>
                      (case find (\<lambda>c. c_name c = ''juicefs-plugin'') (ps_containers (p_spec pod)) of
                         None \<Rightarrow> State_Monad.return (Exited 0)
                       | Some c \<Rightarrow> do {
                           set_resources (c_resources c);
                           State_Monad.return (Started (C1\<lparr>CSIPod := pod, MountImage := c_image c\<rparr>))
                         }))
               })))"

section \<open>The kubelet's client\<close>

record kubelet_config =
  kc_Address :: string
  kc_Port :: int
  kc_Insecure :: bool
  kc_CAFile :: string
  kc_CAData :: string
  kc_CertFile :: string
  kc_CertData :: string
  kc_KeyFile :: string
  kc_KeyData :: string
  kc_BearerToken :: string
  kc_HTTPTimeout :: int

definition HasCA :: "transport_config \<Rightarrow> bool" where
  "HasCA c \<longleftrightarrow> length (tc_CAData c) > 0 \<or> length (tc_CAFile c) > 0"

definition transportConfig :: "kubelet_config \<Rightarrow> transport_config" where
  "transportConfig c =
     (let cfg = \<lparr>tc_CAFile = kc_CAFile c, tc_CAData = kc_CAData c, tc_CertFile = kc_CertFile c, tc_CertData = kc_CertData c,
                 tc_KeyFile = kc_KeyFile c, tc_KeyData = kc_KeyData c, tc_Insecure = False, tc_BearerToken = kc_BearerToken c\<rparr>
      in if \<not> HasCA cfg then cfg\<lparr>tc_Insecure := True\<rparr> else cfg)"

definition makeTransport :: "cluster \<Rightarrow> kubelet_config \<Rightarrow> bool \<Rightarrow> goerr option" where
  "makeTransport K c insecureSkipTLSVerify =
     (let pre = (if insecureSkipTLSVerify then (transportConfig c)\<lparr>tc_Insecure := True, tc_CAData := '''', tc_CAFile := ''''\<rparr>
                 else transportConfig c)
      in case cl_tls K pre of
           Inl e \<Rightarrow> Some e
         | Inr has_tls \<Rightarrow> cl_wrappers K (transportConfig c) has_tls)"

definition defaultKubeletTimeout :: int where "defaultKubeletTimeout = 10"

definition serviceAccountTokenFile :: string where
  "serviceAccountTokenFile = ''/var/run/secrets/kubernetes.io/serviceaccount/token''"

definition newKubeletClient :: "env \<Rightarrow> cluster \<Rightarrow> string \<Rightarrow> int \<Rightarrow> (goerr + kubelet_config) prog" where
  "newKubeletClient E K host port = do {
     let cert = Getenv E ''KUBELET_CLIENT_CERT'';
     let key = Getenv E ''KUBELET_CLIENT_KEY'';
     tokenByte \<leftarrow> (if cert = '''' \<and> key = '''' then ReadFile E serviceAccountTokenFile else State_Monad.return (Inr ''''));
     State_Monad.return (case tokenByte of
         Inl e \<Rightarrow> Inl (Errorf ''in cluster mode, find token failed: %v'' [] (Some e))
       | Inr token \<Rightarrow>
           (case (if Getenv E ''KUBELET_TIMEOUT'' \<noteq> '''' then Atoi (Getenv E ''KUBELET_TIMEOUT'') else Inr defaultKubeletTimeout) of
              Inl e \<Rightarrow> Inl (Errorf ''got error when parsing kubelet timeout: %v'' [] (Some e))
            | Inr kubeletTimeout \<Rightarrow> (
                let c = \<lparr>kc_Address = host, kc_Port = port, kc_Insecure = True, kc_CAFile = '''', kc_CAData = '''',
                         kc_CertFile = cert, kc_CertData = '''', kc_KeyFile = key, kc_KeyData = '''',
                         kc_BearerToken = token, kc_HTTPTimeout = i64 (kubeletTimeout * 1000000000)\<rparr>
                in case makeTransport K c (kc_Insecure c) of Some e \<Rightarrow> Inl e | None \<Rightarrow> Inr c)))
   }"

text \<open>The client that \<^verbatim>\<open>newKubeletClient\<close> returns, with the address of its configuration.\<close>

definition kubelet_client :: "kubelet_config \<Rightarrow> kubeletClient" where
  "kubelet_client c = \<lparr>kl_host = kc_Address c, kl_port = kc_Port c\<rparr>"

text \<open>The clients the reconciler's goroutine starts with, or the error for which it does not start.\<close>

definition StartReconciler :: "env \<Rightarrow> cluster \<Rightarrow> config \<Rightarrow> (goerr + kubelet_config) prog" where
  "StartReconciler E K C =
     (case Atoi (KubeletPort C) of
        Inl e \<Rightarrow> State_Monad.return (Inl e)
      | Inr port \<Rightarrow> do {
          r \<leftarrow> newKubeletClient E K (HostIp C) port;
          State_Monad.return (case r of
              Inl e \<Rightarrow> Inl e
            | Inr kc \<Rightarrow> (case NewClient K of Some e \<Rightarrow> Inl e | None \<Rightarrow> Inr kc))
        })"

section \<open>The services\<close>

text \<open>
  The provider's embedded client and its \<^verbatim>\<open>podMount\<close>, as being there or nil. The client is created in a variable of the
  inner block, so the field is filled from the outer one, which stays nil.
\<close>

record provider =
  prov_k8sClient :: bool
  prov_podMount :: bool

definition NewJfsProvider :: "cluster \<Rightarrow> config \<Rightarrow> goerr + provider" where
  "NewJfsProvider K C =
     (let k8sClient = False in
      if \<not> ByProcess C then
        (case NewClient K of
           Some e \<Rightarrow> Inl e
         | None \<Rightarrow> Inr \<lparr>prov_k8sClient = k8sClient, prov_podMount = True\<rparr>)
      else Inr \<lparr>prov_k8sClient = k8sClient, prov_podMount = False\<rparr>)"

definition newControllerService :: "env \<Rightarrow> cluster \<Rightarrow> config \<Rightarrow> (provider \<times> vols) startup prog" where
  "newControllerService E K C =
     (case NewJfsProvider K C of
        Inl e \<Rightarrow> State_Monad.return (Crashed e)
      | Inr jfs \<Rightarrow> do {
          (out, err) \<leftarrow> Version E;
          State_Monad.return (case err of Some e \<Rightarrow> Crashed e | None \<Rightarrow> Started (jfs, []))
        })"

record node_service =
  ns_juicefs :: provider
  ns_nodeID :: string
  ns_k8sClient :: bool

definition newNodeService :: "env \<Rightarrow> cluster \<Rightarrow> config \<Rightarrow> string \<Rightarrow> (goerr + node_service) startup prog" where
  "newNodeService E K C nodeID =
     (case NewJfsProvider K C of
        Inl e \<Rightarrow> State_Monad.return (Crashed e)
      | Inr jfs \<Rightarrow> do {
          (out, err) \<leftarrow> Version E;
          State_Monad.return (case err of
              Some e \<Rightarrow> Crashed e
            | None \<Rightarrow>
                if \<not> ByProcess C then
                  (case NewClient K of
                     Some e \<Rightarrow> Started (Inl e)
                   | None \<Rightarrow> Started (Inr \<lparr>ns_juicefs = jfs, ns_nodeID = nodeID, ns_k8sClient = True\<rparr>))
                else Started (Inr \<lparr>ns_juicefs = jfs, ns_nodeID = nodeID, ns_k8sClient = False\<rparr>))
        })"

definition nodeCaps :: "string list" where
  "nodeCaps = []"

definition NodeGetCapabilities :: "string list" where
  "NodeGetCapabilities = map (\<lambda>c. c) nodeCaps"

definition NodeGetInfo :: "node_service \<Rightarrow> string" where
  "NodeGetInfo d = ns_nodeID d"

text \<open>\<^verbatim>\<open>Upgrade\<close>: the timeout kills the command, which shows in the answer of the environment.\<close>

definition Upgrade :: "env \<Rightarrow> unit prog" where
  "Upgrade E =
     (if o_getenv E ''JFS_AUTO_UPGRADE'' \<noteq> Some ''enabled'' then State_Monad.return ()
      else do { _ \<leftarrow> Exec E CliPath [''version'', ''-u''] []; State_Monad.return () })"

record driver =
  dr_endpoint :: string
  dr_controller :: "provider \<times> vols"
  dr_node :: node_service

definition NewDriver :: "env \<Rightarrow> cluster \<Rightarrow> config \<Rightarrow> string \<Rightarrow> string \<Rightarrow> (goerr + driver) startup prog" where
  "NewDriver E K C endpoint nodeID = do {
     c \<leftarrow> newControllerService E K C;
     (case c of
        Crashed e \<Rightarrow> State_Monad.return (Crashed e)
      | Exited n \<Rightarrow> State_Monad.return (Exited n)
      | Started cs \<Rightarrow> do {
          n \<leftarrow> newNodeService E K C nodeID;
          State_Monad.return (case n of
              Crashed e \<Rightarrow> Crashed e
            | Exited k \<Rightarrow> Exited k
            | Started (Inl e) \<Rightarrow> Started (Inl e)
            | Started (Inr ns) \<Rightarrow> Started (Inr \<lparr>dr_endpoint = endpoint, dr_controller = cs, dr_node = ns\<rparr>))
        })
   }"

text \<open>
  \<^verbatim>\<open>Run\<close> up to the call of \<^verbatim>\<open>Serve\<close>: the protocol and address the gRPC server serves on. \<open>listen\<close> is the answer of
  \<^verbatim>\<open>net.Listen\<close>.
\<close>

definition Run_driver :: "env \<Rightarrow> (string \<Rightarrow> string \<Rightarrow> goerr option) \<Rightarrow> driver \<Rightarrow> (goerr + string \<times> string) prog" where
  "Run_driver E listen d = do {
     r \<leftarrow> ParseEndpoint E (dr_endpoint d);
     State_Monad.return (case r of
         Inl e \<Rightarrow> Inl e
       | Inr (scheme, addr) \<Rightarrow> (case listen scheme addr of Some e \<Rightarrow> Inl e | None \<Rightarrow> Inr (scheme, addr)))
   }"

text \<open>The end of \<^verbatim>\<open>main\<close>: build the driver that serves.\<close>

definition build_driver ::
  "env \<Rightarrow> cluster \<Rightarrow> cmd_flags \<Rightarrow> config \<Rightarrow> kubelet_config option \<Rightarrow> (config \<times> kubelet_config option \<times> driver) startup prog" where
  "build_driver E K fl C kc = do {
     d \<leftarrow> NewDriver E K C (fl_endpoint fl) (fl_nodeID fl);
     State_Monad.return (case d of
         Crashed e \<Rightarrow> Crashed e
       | Exited n \<Rightarrow> Exited n
       | Started (Inl _) \<Rightarrow> Exited 255
       | Started (Inr drv) \<Rightarrow> Started (C, kc, drv))
   }"

text \<open>\<^verbatim>\<open>main\<close> up to the call of \<^verbatim>\<open>Run\<close>: the configuration, whether the reconciler runs, and the driver that serves.\<close>

definition main_driver :: "env \<Rightarrow> cluster \<Rightarrow> cmd_flags \<Rightarrow> (config \<times> kubelet_config option \<times> driver) startup prog" where
  "main_driver E K fl = do {
     i \<leftarrow> init_config E K fl;
     (case i of
        Exited n \<Rightarrow> State_Monad.return (Exited n)
      | Crashed e \<Rightarrow> State_Monad.return (Crashed e)
      | Started C \<Rightarrow>
          if fl_version fl then State_Monad.return (Exited 0)
          else if fl_nodeID fl = '''' then State_Monad.return (Exited 255)
          else if EnableManager C \<and> KubeletPort C \<noteq> '''' \<and> HostIp C \<noteq> '''' then do {
            r \<leftarrow> StartReconciler E K C;
            (case r of
               Inl _ \<Rightarrow> State_Monad.return (Exited 1)
             | Inr kc \<Rightarrow> build_driver E K fl C (Some kc))
          }
          else build_driver E K fl C None)
   }"

section \<open>What a driver that started can rely on\<close>

definition plugin_container :: "pod \<Rightarrow> container option" where
  "plugin_container pod = find (\<lambda>c. c_name c = ''juicefs-plugin'') (ps_containers (p_spec pod))"

lemma init_config_wp:
  "wp (init_config E K fl) (\<lambda>r s'. \<forall>C. r = Started C \<longrightarrow>
     ByProcess C = fl_process fl \<and> ReconcilerInterval C \<ge> 5 \<and>
     (if fl_process fl then \<not> FormatInPod C \<and> \<not> EnableManager C
      else NewClient K = None \<and> PodName C \<noteq> '''' \<and> Namespace C \<noteq> '''' \<and>
        (\<exists>c h. plugin_container (CSIPod C) = Some c \<and> MountImage C = c_image c \<and>
           cr_limits s' = res_limits (c_resources c) \<and> cr_requests s' = res_requests (c_resources c) \<and>
           hist s' = EvPodGet (Namespace C) (PodName C) (Inr (CSIPod C)) # h))) s"
proof (cases "fl_process fl")
  case True
  then show ?thesis by (simp add: init_config_def wp_simps default_config_def)
next
  case False
  let ?C = "env_config E fl"
  show ?thesis
  proof (cases "k_pod_get E (hist s) (Namespace ?C) (PodName ?C)")
    case (Inl e)
    with False show ?thesis by (auto simp: init_config_def wp_simps Let_def client_defs split: option.splits)
  next
    case (Inr pod)
    have "ByProcess ?C = False" "ReconcilerInterval ?C = 5" by (simp_all add: env_config_def default_config_def)
    with False Inr show ?thesis
      by (auto simp: init_config_def wp_simps Let_def client_defs plugin_container_def set_resources_def wp_def
          split: option.splits)
  qed
qed

text \<open>
  C36: the configuration a driver starts with is consistent: in process mode it neither formats in pods nor runs the
  reconciler; otherwise its pod name and namespace are set, its mount image and resources are those of the first container
  \<^verbatim>\<open>juicefs-plugin\<close> of its own pod as the API server returned it, and the reconciler's interval is at least five seconds.
\<close>

theorem init_config_consistent:
  assumes "run_state (init_config E K fl) s = (Started C, s')"
  shows "ByProcess C = fl_process fl \<and> ReconcilerInterval C \<ge> 5 \<and>
     (if fl_process fl then \<not> FormatInPod C \<and> \<not> EnableManager C
      else PodName C \<noteq> '''' \<and> Namespace C \<noteq> '''' \<and>
        (\<exists>c h. plugin_container (CSIPod C) = Some c \<and> MountImage C = c_image c \<and>
           cr_limits s' = res_limits (c_resources c) \<and> cr_requests s' = res_requests (c_resources c) \<and>
           hist s' = EvPodGet (Namespace C) (PodName C) (Inr (CSIPod C)) # h))"
  using wp_run [OF assms init_config_wp] by (auto split: if_splits)

text \<open>
  A driver that started never calls through the nil \<^verbatim>\<open>podMount\<close> of process mode: whenever the settings of a volume
  ask for a mount pod, or formatting in pods is on, the provider was built with \<^verbatim>\<open>podMount\<close>.
\<close>

theorem no_nil_pod_mount:
  assumes "run_state (init_config E K fl) s = (Started C, s1)"
    and "run_state (getSettings E C Y volumeID target secrets volCtx options) s2 = (Inr js, s3)"
    and "js_UsePod js \<or> FormatInPod C" "NewJfsProvider K C = Inr prov"
  shows "prov_podMount prov \<and> pod_mount C m = m"
proof -
  have "request_fields C volumeID target secrets js" using wp_run [OF assms(2) getSettings_fields] by simp
  moreover have "FormatInPod C \<Longrightarrow> \<not> ByProcess C" using wp_run [OF assms(1) init_config_wp] by (auto split: if_splits)
  ultimately have "\<not> ByProcess C" using assms(3) by (auto simp: request_fields_def)
  then show ?thesis using assms(4) by (auto simp: NewJfsProvider_def pod_mount_def split: option.splits)
qed

text \<open>
  The kubelet's client authenticates by the service account's token exactly when neither a certificate nor a key is configured,
  and never verifies the kubelet's certificate.
\<close>

theorem newKubeletClient_credentials:
  assumes "run_state (newKubeletClient E K host port) s = (Inr c, s')"
  shows "tc_Insecure (transportConfig c) \<and> \<not> HasCA (transportConfig c) \<and>
     kc_CertFile c = Getenv E ''KUBELET_CLIENT_CERT'' \<and> kc_KeyFile c = Getenv E ''KUBELET_CLIENT_KEY'' \<and>
     (if kc_CertFile c = '''' \<and> kc_KeyFile c = '''' then hist s' = EvReadFile serviceAccountTokenFile (Inr (kc_BearerToken c)) # hist s
      else kc_BearerToken c = '''' \<and> s' = s)"
  using assms
  by (auto simp: newKubeletClient_def os_defs Let_def transportConfig_def HasCA_def split: if_splits sum.splits option.splits)

lemma NewDriver_wp:
  "wp (NewDriver E K C endpoint nodeID) (\<lambda>r _. \<forall>drv. r = Started (Inr drv) \<longrightarrow>
     (let p = \<lparr>prov_k8sClient = False, prov_podMount = \<not> ByProcess C\<rparr>
      in drv = \<lparr>dr_endpoint = endpoint, dr_controller = (p, []),
           dr_node = \<lparr>ns_juicefs = p, ns_nodeID = nodeID, ns_k8sClient = \<not> ByProcess C\<rparr>\<rparr>)) s"
  by (auto simp: NewDriver_def newControllerService_def newNodeService_def NewJfsProvider_def Version_def os_defs wp_simps
      Let_def split_beta split: option.splits sum.splits startup.splits)

lemma build_driver_wp:
  "wp (build_driver E K fl C kc) (\<lambda>r _. \<forall>C' kc' drv. r = Started (C', kc', drv) \<longrightarrow> C' = C \<and> kc' = kc \<and>
     (let p = \<lparr>prov_k8sClient = False, prov_podMount = \<not> ByProcess C\<rparr>
      in drv = \<lparr>dr_endpoint = fl_endpoint fl, dr_controller = (p, []),
           dr_node = \<lparr>ns_juicefs = p, ns_nodeID = fl_nodeID fl, ns_k8sClient = \<not> ByProcess C\<rparr>\<rparr>)) s"
  unfolding build_driver_def wp_bind wp_return
  by (rule wp_mono [OF NewDriver_wp]) (auto split: startup.splits sum.splits)

definition serving :: "cmd_flags \<Rightarrow> (config \<times> kubelet_config option \<times> driver) startup \<Rightarrow> bool" where
  "serving fl r \<longleftrightarrow> (\<forall>C kc drv. r = Started (C, kc, drv) \<longrightarrow> fl_nodeID fl \<noteq> '''' \<and>
     (let p = \<lparr>prov_k8sClient = False, prov_podMount = \<not> ByProcess C\<rparr>
      in drv = \<lparr>dr_endpoint = fl_endpoint fl, dr_controller = (p, []),
           dr_node = \<lparr>ns_juicefs = p, ns_nodeID = fl_nodeID fl, ns_k8sClient = \<not> ByProcess C\<rparr>\<rparr>) \<and>
     (kc \<noteq> None) = (EnableManager C \<and> KubeletPort C \<noteq> '''' \<and> HostIp C \<noteq> ''''))"

lemma serving_simps [simp]: "serving fl (Exited n)" "serving fl (Crashed e)"
  by (simp_all add: serving_def)

lemma build_driver_serving:
  assumes "fl_nodeID fl \<noteq> ''''" "(kc \<noteq> None) = (EnableManager C \<and> KubeletPort C \<noteq> '''' \<and> HostIp C \<noteq> '''')"
  shows "wp (build_driver E K fl C kc) (\<lambda>r _. serving fl r) s"
  by (rule wp_mono [OF build_driver_wp]) (use assms in \<open>auto simp: serving_def\<close>)

lemma main_driver_serving: "wp (main_driver E K fl) (\<lambda>r _. serving fl r) s"
  unfolding main_driver_def wp_bind
proof (rule wp_any, goal_cases)
  case (1 i t)
  show ?case
  proof (cases i)
    case (Started C)
    show ?thesis
    proof (cases "EnableManager C \<and> KubeletPort C \<noteq> '''' \<and> HostIp C \<noteq> ''''")
      case True
      have "wp (StartReconciler E K C \<bind> case_sum (\<lambda>_. State_Monad.return (Exited 1)) (\<lambda>kc. build_driver E K fl C (Some kc)))
          (\<lambda>r _. serving fl r) t" if "fl_nodeID fl \<noteq> ''''"
        unfolding wp_bind by (rule wp_any) (use that True in \<open>auto simp: wp_simps intro!: build_driver_serving split: sum.split\<close>)
      with True show ?thesis unfolding Started startup.case by (simp add: wp_return)
    next
      case False
      then show ?thesis
        unfolding Started startup.case by (auto simp: wp_simps intro!: build_driver_serving)
    qed
  qed (simp_all add: wp_simps)
qed

text \<open>
  \<^verbatim>\<open>main\<close> serves only with a node ID; both services then have mount pods exactly outside process mode and an
  empty volume table, the provider's embedded Kubernetes client is nil in either mode, and the
  reconciler runs exactly when the manager is enabled and the kubelet's address is known.
\<close>

theorem main_serves:
  assumes "run_state (main_driver E K fl) s = (Started (C, kc, drv), s')"
  shows "ns_nodeID (dr_node drv) = fl_nodeID fl \<and> fl_nodeID fl \<noteq> '''' \<and> snd (dr_controller drv) = [] \<and>
     fst (dr_controller drv) = \<lparr>prov_k8sClient = False, prov_podMount = \<not> ByProcess C\<rparr> \<and>
     ns_juicefs (dr_node drv) = fst (dr_controller drv) \<and> ns_k8sClient (dr_node drv) = (\<not> ByProcess C) \<and>
     (kc \<noteq> None) = (EnableManager C \<and> KubeletPort C \<noteq> '''' \<and> HostIp C \<noteq> '''')"
  using wp_run [OF assms main_driver_serving] by (simp add: serving_def Let_def)

definition sim_cluster :: cluster where
  "sim_cluster = \<lparr>cl_config = Inr (Some ()), cl_clientset = None, cl_tls = \<lambda>c. Inr True, cl_wrappers = \<lambda>c b. None\<rparr>"

definition sim_flags :: cmd_flags where
  "sim_flags = \<lparr>fl_endpoint = ''unix:///csi/csi.sock'', fl_version = False, fl_nodeID = ''node'', fl_enableManager = True,
     fl_reconcilerInterval = 1, fl_formatInPod = True, fl_process = False\<rparr>"

definition sim_csi_pod :: pod where
  "sim_csi_pod = zero_pod\<lparr>p_name := ''juicefs-csi-node'', p_namespace := ''kube-system'',
     p_spec := zero_spec\<lparr>ps_containers := [zero_container\<lparr>c_name := ''juicefs-plugin'', c_image := ''image''\<rparr>]\<rparr>\<rparr>"

definition sim_node_env :: env where
  "sim_node_env = (sim_env [sim_csi_pod])\<lparr>o_getenv :=
     map_of [(''POD_NAME'', ''juicefs-csi-node''), (''JUICEFS_MOUNT_NAMESPACE'', ''kube-system''), (''HOST_IP'', ''10.0.0.1''),
       (''KUBELET_PORT'', ''10250'')]\<rparr>"

lemmas startup_defs = init_config_def env_config_def default_config_def Getenv_def NewClient_def client_defs set_resources_def
  sim_cluster_def sim_flags_def sim_node_env_def sim_csi_pod_def

lemma sim_init:
  obtains C s' where "run_state (init_config sim_node_env sim_cluster sim_flags) sim_state = (Started C, s')"
    "KubeletPort C = ''10250''" "HostIp C = ''10.0.0.1''" "EnableManager C" "\<not> ByProcess C" "FormatInPod C"
  by (simp add: startup_defs sim_defs zero_defs named_def Let_def)

theorem init_config_consistent_witness:
  "\<exists>C s'. run_state (init_config sim_node_env sim_cluster sim_flags) sim_state = (Started C, s') \<and> ReconcilerInterval C \<ge> 5 \<and>
     (\<exists>c. plugin_container (CSIPod C) = Some c \<and> MountImage C = c_image c)"
proof -
  obtain C s' where run: "run_state (init_config sim_node_env sim_cluster sim_flags) sim_state = (Started C, s')"
    by (rule sim_init)
  have "\<not> fl_process sim_flags" by (simp add: sim_flags_def)
  with init_config_consistent [OF run] run show ?thesis by auto
qed

theorem no_nil_pod_mount_witness:
  "\<exists>C s' prov. run_state (init_config sim_node_env sim_cluster sim_flags) sim_state = (Started C, s') \<and>
     NewJfsProvider sim_cluster C = Inr prov \<and> prov_podMount prov"
proof -
  obtain C s' where run: "run_state (init_config sim_node_env sim_cluster sim_flags) sim_state = (Started C, s')"
    and C: "\<not> ByProcess C" "FormatInPod C"
    by (rule sim_init)
  obtain prov where prov: "NewJfsProvider sim_cluster C = Inr prov"
    using C by (simp add: NewJfsProvider_def NewClient_def sim_cluster_def)
  obtain js where "run_state (getSettings sim_node_env C sim_decoders ''pvc'' ''/b'' None None []) s' = (Inr js, s')"
    by (simp add: getSettings_def ParseSetting_def mhas_def mindex_def Let_def)
  from no_nil_pod_mount [OF run this _ prov] C run prov show ?thesis by blast
qed

theorem newKubeletClient_credentials_witness:
  "\<exists>c s'. run_state (newKubeletClient sim_node_env sim_cluster ''10.0.0.1'' 10250) sim_state = (Inr c, s') \<and>
     tc_Insecure (transportConfig c) \<and> hist s' = [EvReadFile serviceAccountTokenFile (Inr (kc_BearerToken c))]"
proof -
  obtain c s' where run: "run_state (newKubeletClient sim_node_env sim_cluster ''10.0.0.1'' 10250) sim_state = (Inr c, s')"
    by (simp add: newKubeletClient_def os_defs Getenv_def sim_node_env_def sim_cluster_def makeTransport_def Let_def sim_env_def)
  have none: "Getenv sim_node_env ''KUBELET_CLIENT_CERT'' = ''''" "Getenv sim_node_env ''KUBELET_CLIENT_KEY'' = ''''"
    by (simp_all add: Getenv_def sim_node_env_def)
  from newKubeletClient_credentials [OF run] run none show ?thesis by (auto simp: sim_state_def)
qed

lemma sim_port: "Atoi ''10250'' = Inr 10250"
  by code_simp

theorem main_serves_witness:
  "\<exists>C kc drv s'. run_state (main_driver sim_node_env sim_cluster sim_flags) sim_state = (Started (C, Some kc, drv), s') \<and>
     prov_podMount (fst (dr_controller drv)) \<and> \<not> prov_k8sClient (fst (dr_controller drv))"
proof -
  obtain C kc drv s' where run: "run_state (main_driver sim_node_env sim_cluster sim_flags) sim_state = (Started (C, Some kc, drv), s')"
    and C: "\<not> ByProcess C"
    by (simp add: main_driver_def build_driver_def NewDriver_def newControllerService_def newNodeService_def NewJfsProvider_def
        Version_def StartReconciler_def newKubeletClient_def makeTransport_def startup_defs sim_defs zero_defs named_def Let_def os_defs
        sim_port)
  from main_serves [OF run] run C show ?thesis by auto
qed

end
