(* ===== verification/Server.thy ===== *)
theory Server
  imports Startup NodePublish VolumeTable
begin

text \<open>
  The gRPC server of pkg/driver/driver.go: which handler a request reaches, the interceptor around it, and the state of the
  driver between requests. \<^verbatim>\<open>main\<close> to its end.
\<close>

section \<open>Requests and replies\<close>

datatype rpc =
    RpcGetPluginInfo | RpcGetPluginCapabilities | RpcProbe
  | RpcCreateVolume create_request
  | RpcDeleteVolume string "gomap option"
  | RpcValidateVolumeCapabilities string "volume_capability list"
  | RpcControllerGetCapabilities
  | RpcController unimplemented_rpc
  | RpcNodePublishVolume publish_request
  | RpcNodeUnpublishVolume string string
  | RpcNodeGetCapabilities | RpcNodeGetInfo
  | RpcNode node_unimplemented_rpc

datatype reply =
    PluginInfo string string
  | PluginCapabilities "plugin_capability list"
  | ProbeResponse
  | Volume csi_volume
  | Confirmed "volume_capability list option"
  | ControllerCapabilities "controller_cap list"
  | NodeCapabilities "string list"
  | NodeInfo string
  | Done

text \<open>\<^verbatim>\<open>Probe\<close> of identity.go.\<close>

definition Probe :: "reply outcome" where
  "Probe = Ok ProbeResponse"

text \<open>The interceptor logs an error and passes the answer on.\<close>

definition logErr :: "(rpc \<Rightarrow> 'a prog) \<Rightarrow> rpc \<Rightarrow> 'a prog" where
  "logErr handler req = do { resp_err \<leftarrow> handler req; State_Monad.return resp_err }"

fun reply_of :: "('a \<Rightarrow> reply) \<Rightarrow> 'a outcome \<Rightarrow> reply outcome" where
  "reply_of f (Ok v) = Ok (f v)"
| "reply_of f (Err e) = Err e"
| "reply_of f (Panic p) = Panic p"

text \<open>
  The handlers that \<^verbatim>\<open>Run\<close> registers. The result is the answer, \<open>None\<close> when the fuel of the unmount loop ran out, and the driver.
\<close>

fun handler :: "nat \<Rightarrow> env \<Rightarrow> config \<Rightarrow> decoders \<Rightarrow> string \<Rightarrow> driver \<Rightarrow> rpc \<Rightarrow> (reply outcome option \<times> driver) prog" where
  "handler fuel E C Y driverVersion d RpcGetPluginInfo =
     State_Monad.return (Some (Ok (case GetPluginInfo driverVersion of (n, v) \<Rightarrow> PluginInfo n v)), d)"
| "handler fuel E C Y driverVersion d RpcGetPluginCapabilities = State_Monad.return (Some (Ok (PluginCapabilities GetPluginCapabilities)), d)"
| "handler fuel E C Y driverVersion d RpcProbe = State_Monad.return (Some Probe, d)"
| "handler fuel E C Y driverVersion d (RpcCreateVolume req) = do {
     (r, vols) \<leftarrow> CreateVolume E C Y (snd (dr_controller d)) req;
     State_Monad.return (Some (reply_of Volume r), d\<lparr>dr_controller := (fst (dr_controller d), vols)\<rparr>)
   }"
| "handler fuel E C Y driverVersion d (RpcDeleteVolume volumeID secrets) = do {
     (r, vols) \<leftarrow> DeleteVolume E C Y (snd (dr_controller d)) volumeID secrets;
     State_Monad.return (Some (reply_of (\<lambda>_. Done) r), d\<lparr>dr_controller := (fst (dr_controller d), vols)\<rparr>)
   }"
| "handler fuel E C Y driverVersion d (RpcValidateVolumeCapabilities volumeID volCaps) =
     State_Monad.return (Some (case ValidateVolumeCapabilities (snd (dr_controller d)) volumeID volCaps of
       Inl e \<Rightarrow> Err e | Inr c \<Rightarrow> Ok (Confirmed c)), d)"
| "handler fuel E C Y driverVersion d RpcControllerGetCapabilities =
     State_Monad.return (Some (Ok (ControllerCapabilities ControllerGetCapabilities)), d)"
| "handler fuel E C Y driverVersion d (RpcController rpc) = State_Monad.return (Some (reply_of (\<lambda>_. Done) (controller_unimplemented rpc)), d)"
| "handler fuel E C Y driverVersion d (RpcNodePublishVolume req) = do {
     r \<leftarrow> NodePublishVolume E C Y req;
     State_Monad.return (Some (reply_of (\<lambda>_. Done) r), d)
   }"
| "handler fuel E C Y driverVersion d (RpcNodeUnpublishVolume volumeId target) = do {
     r \<leftarrow> NodeUnpublishVolume fuel E C volumeId target;
     State_Monad.return (map_option (\<lambda>err. case err of None \<Rightarrow> Ok Done | Some e \<Rightarrow> Err e) r, d)
   }"
| "handler fuel E C Y driverVersion d RpcNodeGetCapabilities = State_Monad.return (Some (Ok (NodeCapabilities NodeGetCapabilities)), d)"
| "handler fuel E C Y driverVersion d RpcNodeGetInfo = State_Monad.return (Some (Ok (NodeInfo (NodeGetInfo (dr_node d)))), d)"
| "handler fuel E C Y driverVersion d (RpcNode rpc) = State_Monad.return (Some (reply_of (\<lambda>_. Done) (node_unimplemented rpc)), d)"

definition serve_rpc :: "nat \<Rightarrow> env \<Rightarrow> config \<Rightarrow> decoders \<Rightarrow> string \<Rightarrow> driver \<Rightarrow> rpc \<Rightarrow> (reply outcome option \<times> driver) prog" where
  "serve_rpc fuel E C Y driverVersion d req = logErr (handler fuel E C Y driverVersion d) req"

section \<open>Capabilities\<close>

text \<open>
  The CSI specification: the capability with which a service must advertise an optional RPC, \<open>None\<close> for an RPC every plugin
  answers.
\<close>

datatype capability = PluginCap plugin_capability | ControllerCap string | NodeCap string

fun optional_rpc :: "rpc \<Rightarrow> capability option" where
  "optional_rpc (RpcCreateVolume _) = Some (ControllerCap ''CREATE_DELETE_VOLUME'')"
| "optional_rpc (RpcDeleteVolume _ _) = Some (ControllerCap ''CREATE_DELETE_VOLUME'')"
| "optional_rpc (RpcValidateVolumeCapabilities _ _) = Some (PluginCap CONTROLLER_SERVICE)"
| "optional_rpc RpcControllerGetCapabilities = Some (PluginCap CONTROLLER_SERVICE)"
| "optional_rpc (RpcController c) = Some (ControllerCap (case c of
     GetCapacity \<Rightarrow> ''GET_CAPACITY'' | ListVolumes \<Rightarrow> ''LIST_VOLUMES''
   | CreateSnapshot \<Rightarrow> ''CREATE_DELETE_SNAPSHOT'' | DeleteSnapshot \<Rightarrow> ''CREATE_DELETE_SNAPSHOT'' | ListSnapshots \<Rightarrow> ''LIST_SNAPSHOTS''
   | ControllerExpandVolume \<Rightarrow> ''EXPAND_VOLUME''
   | ControllerPublishVolume \<Rightarrow> ''PUBLISH_UNPUBLISH_VOLUME'' | ControllerUnpublishVolume \<Rightarrow> ''PUBLISH_UNPUBLISH_VOLUME''))"
| "optional_rpc (RpcNode c) = Some (NodeCap (case c of
     NodeStageVolume \<Rightarrow> ''STAGE_UNSTAGE_VOLUME'' | NodeUnstageVolume \<Rightarrow> ''STAGE_UNSTAGE_VOLUME''
   | NodeExpandVolume \<Rightarrow> ''EXPAND_VOLUME'' | NodeGetVolumeStats \<Rightarrow> ''GET_VOLUME_STATS''))"
| "optional_rpc _ = None"

fun cap_name :: "controller_cap \<Rightarrow> string" where
  "cap_name CREATE_DELETE_VOLUME = ''CREATE_DELETE_VOLUME''"

text \<open>What the services advertise, read off their own answers.\<close>

definition advertised :: "(rpc \<Rightarrow> reply outcome option) \<Rightarrow> capability \<Rightarrow> bool" where
  "advertised answer cap \<longleftrightarrow> (case cap of
     PluginCap c \<Rightarrow> (case answer RpcGetPluginCapabilities of Some (Ok (PluginCapabilities cs)) \<Rightarrow> c \<in> set cs | _ \<Rightarrow> False)
   | ControllerCap n \<Rightarrow> (case answer RpcControllerGetCapabilities of Some (Ok (ControllerCapabilities cs)) \<Rightarrow> n \<in> cap_name ` set cs | _ \<Rightarrow> False)
   | NodeCap n \<Rightarrow> (case answer RpcNodeGetCapabilities of Some (Ok (NodeCapabilities cs)) \<Rightarrow> n \<in> set cs | _ \<Rightarrow> False))"

fun is_unimplemented :: "reply outcome option \<Rightarrow> bool" where
  "is_unimplemented (Some (Err (StatusError c _ _ _))) \<longleftrightarrow> c = Unimplemented"
| "is_unimplemented _ \<longleftrightarrow> False"

lemma serve_handler: "serve_rpc fuel E C Y v d req = handler fuel E C Y v d req"
  by (simp add: serve_rpc_def logErr_def)

definition has_code :: "goerr \<Rightarrow> bool" where
  "has_code e \<longleftrightarrow> (\<exists>c m args x. e = StatusError c m args x \<and> c \<noteq> Unimplemented)"

lemma has_codeI [simp]: "c \<noteq> Unimplemented \<Longrightarrow> has_code (StatusError c m args x)"
  by (simp add: has_code_def)

lemma has_code_implemented: "has_code e \<Longrightarrow> \<not> is_unimplemented (Some (Err e))"
  by (auto simp: has_code_def)

lemma reply_of_implemented: "\<forall>e. r = Err e \<longrightarrow> has_code e \<Longrightarrow> \<not> is_unimplemented (Some (reply_of f r))"
  by (cases r) (auto simp: has_code_def)

lemma wp_bind_any: "(\<And>a s'. wp (f a) Q s') \<Longrightarrow> wp (State_Monad.bind m f) Q s"
  unfolding wp_bind by (rule wp_any)

lemma unpublish_implemented: "\<forall>e. r = Some (Some e) \<longrightarrow> has_code e \<Longrightarrow> \<not> is_unimplemented (map_option (case_option (Ok Done) Err) r)"
  by (cases r; cases "the r") (auto simp: has_code_def)

lemma rpc_codes:
  "wp (CreateVolume E C Y vols req) (\<lambda>(r, _) _. \<forall>e. r = Err e \<longrightarrow> has_code e) s"
  "wp (DeleteVolume E C Y vols volumeID secrets) (\<lambda>(r, _) _. \<forall>e. r = Err e \<longrightarrow> has_code e) s"
  "wp (NodePublishVolume E C Y preq) (\<lambda>r _. \<forall>e. r = Err e \<longrightarrow> has_code e) s"
  "wp (NodeUnpublishVolume fuel E C volumeId target) (\<lambda>r _. \<forall>e. r = Some (Some e) \<longrightarrow> has_code e) s"
     apply (auto simp: CreateVolume_def Let_def wp_simps intro!: wp_any split: outcome.splits)[1]
    apply (auto simp: DeleteVolume_def wp_simps intro!: wp_any split: outcome.splits)[1]
   apply (auto simp: NodePublishVolume_def Let_def wp_return intro!: wp_bind_any split: outcome.splits option.splits sum.splits)[1]
  apply (auto simp: NodeUnpublishVolume_def wp_simps intro!: wp_any split: option.splits)[1]
  done

lemma serve_implemented:
  "wp (serve_rpc fuel E C Y v d req) (\<lambda>(r, _) _. is_unimplemented r = (\<exists>c n. req = RpcController c \<or> req = RpcNode n)) s"
proof (cases req)
  case (RpcCreateVolume x)
  then show ?thesis unfolding serve_handler
    by (auto simp: wp_simps reply_of_implemented intro!: wp_mono [OF rpc_codes(1)])
next
  case (RpcDeleteVolume x y)
  then show ?thesis unfolding serve_handler
    by (auto simp: wp_simps reply_of_implemented intro!: wp_mono [OF rpc_codes(2)])
next
  case (RpcNodePublishVolume x)
  then show ?thesis unfolding serve_handler
    by (auto simp: wp_simps reply_of_implemented intro!: wp_mono [OF rpc_codes(3)])
next
  case (RpcNodeUnpublishVolume x y)
  then show ?thesis unfolding serve_handler
    by (auto simp: wp_simps unpublish_implemented intro!: wp_mono [OF rpc_codes(4)])
qed (simp_all add: serve_handler wp_simps Probe_def controller_unimplemented_def node_unimplemented_def ValidateVolumeCapabilities_def)

text \<open>
  C23: a request is answered \<^verbatim>\<open>Unimplemented\<close> exactly when the CSI specification makes the RPC optional and the driver's own answers
  about its capabilities do not advertise it: what is advertised is implemented, and nothing else is.
\<close>

theorem optional_rpcs_advertised:
  assumes "run_state (serve_rpc fuel E C Y v d req) s = ((r, d'), s')"
  shows "is_unimplemented r \<longleftrightarrow>
     (\<exists>cap. optional_rpc req = Some cap \<and> \<not> advertised (\<lambda>q. fst (fst (run_state (serve_rpc fuel E C Y v d q) s))) cap)"
  using wp_run [OF assms serve_implemented]
  by (cases req) (auto simp: advertised_def serve_handler ControllerGetCapabilities_def GetPluginCapabilities_def NodeGetCapabilities_def nodeCaps_def
      split: unimplemented_rpc.splits node_unimplemented_rpc.splits)

theorem optional_rpcs_advertised_witness:
  "\<not> advertised (\<lambda>q. fst (fst (run_state (serve_rpc 0 (sim_env []) sim_config sim_decoders ''v0''
     \<lparr>dr_endpoint = '''', dr_controller = (\<lparr>prov_k8sClient = False, prov_podMount = True\<rparr>, []),
       dr_node = \<lparr>ns_juicefs = \<lparr>prov_k8sClient = False, prov_podMount = True\<rparr>, ns_nodeID = ''node'', ns_k8sClient = True\<rparr>\<rparr> q) sim_state)))
     (NodeCap ''STAGE_UNSTAGE_VOLUME'')"
proof -
  let ?d = "\<lparr>dr_endpoint = '''', dr_controller = (\<lparr>prov_k8sClient = False, prov_podMount = True\<rparr>, []),
       dr_node = \<lparr>ns_juicefs = \<lparr>prov_k8sClient = False, prov_podMount = True\<rparr>, ns_nodeID = ''node'', ns_k8sClient = True\<rparr>\<rparr>"
  have "run_state (serve_rpc 0 (sim_env []) sim_config sim_decoders ''v0'' ?d (RpcNode NodeStageVolume)) sim_state =
     ((Some (Err (StatusError Unimplemented '''' [] None)), ?d), sim_state)"
    by (simp add: serve_handler node_unimplemented_def)
  from optional_rpcs_advertised [OF this] show ?thesis by simp
qed

section \<open>The program from its start\<close>

text \<open>
  \<^verbatim>\<open>main\<close> up to \<^verbatim>\<open>Serve\<close>: the configuration, the reconciler's kubelet client if it runs, the driver, and the protocol and
  address it serves on. \<^verbatim>\<open>klog.Fatalln\<close> exits with 255.
\<close>

definition main :: "env \<Rightarrow> cluster \<Rightarrow> (string \<Rightarrow> string \<Rightarrow> goerr option) \<Rightarrow> cmd_flags \<Rightarrow>
    (config \<times> kubelet_config option \<times> driver \<times> string \<times> string) startup prog" where
  "main E K listen fl = do {
     m \<leftarrow> main_driver E K fl;
     (case m of
        Exited n \<Rightarrow> State_Monad.return (Exited n)
      | Crashed e \<Rightarrow> State_Monad.return (Crashed e)
      | Started (C, kc, drv) \<Rightarrow> do {
          r \<leftarrow> Run_driver E listen drv;
          State_Monad.return (case r of
              Inl _ \<Rightarrow> Exited 255
            | Inr (scheme, addr) \<Rightarrow> Started (C, kc, drv, scheme, addr))
        })
   }"

text \<open>The driver after a sequence of answered requests, the newest first.\<close>

inductive served :: "env \<Rightarrow> config \<Rightarrow> decoders \<Rightarrow> string \<Rightarrow> driver \<Rightarrow> gst \<Rightarrow> (rpc \<times> reply outcome) list \<Rightarrow> driver \<Rightarrow> gst \<Rightarrow> bool"
  for E C Y v d0 s0 where
  start: "served E C Y v d0 s0 [] d0 s0"
| step: "served E C Y v d0 s0 tr d s \<Longrightarrow> run_state (serve_rpc fuel E C Y v d req) s = ((Some r, d'), s') \<Longrightarrow>
    served E C Y v d0 s0 ((req, r) # tr) d' s'"

text \<open>The capacity that the answers promise for a volume.\<close>

fun answered :: "(rpc \<times> reply outcome) list \<Rightarrow> string \<Rightarrow> int option" where
  "answered [] v = None"
| "answered ((RpcCreateVolume req, r) # tr) v =
     (if cr_name req = v \<and> \<not> refused r then Some (cr_requiredBytes req) else answered tr v)"
| "answered ((RpcDeleteVolume volumeID _, r) # tr) v = (if volumeID = v \<and> r = Ok Done then None else answered tr v)"
| "answered (_ # tr) v = answered tr v"

definition next_driver :: "rpc \<Rightarrow> reply outcome \<Rightarrow> driver \<Rightarrow> driver" where
  "next_driver req r d = d\<lparr>dr_controller := (fst (dr_controller d),
     (case req of
        RpcCreateVolume c \<Rightarrow> if refused r then id else mput (cr_name c) (cr_requiredBytes c)
      | RpcDeleteVolume volumeID _ \<Rightarrow> if r = Ok Done then mdel volumeID else id
      | _ \<Rightarrow> id) (snd (dr_controller d)))\<rparr>"

lemma refused_reply: "refused (reply_of f r) = refused r"
  by (cases r) (auto elim: refused.elims)

lemma done_reply: "reply_of (\<lambda>_. Done) r = Ok Done \<longleftrightarrow> r = Ok ()"
  by (cases r) auto

lemma serve_driver: "wp (serve_rpc fuel E C Y v d req) (\<lambda>(r, d') _. \<forall>x. r = Some x \<longrightarrow> d' = next_driver req x d) s"
proof (cases req)
  case (RpcCreateVolume x)
  then show ?thesis unfolding serve_handler
    by (auto simp: wp_simps next_driver_def refused_reply intro!: wp_mono [OF CreateVolume_wp])
next
  case (RpcDeleteVolume x y)
  then show ?thesis unfolding serve_handler
    by (auto simp: wp_simps next_driver_def done_reply intro!: wp_mono [OF DeleteVolume_wp])
qed (auto simp: serve_handler wp_simps next_driver_def intro!: wp_any split: option.splits)

lemma served_table:
  assumes "served E C Y v d0 s0 tr d s" "snd (dr_controller d0) = []"
  shows "dr_node d = dr_node d0 \<and> fst (dr_controller d) = fst (dr_controller d0) \<and> wf_map (snd (dr_controller d)) \<and>
     (\<forall>x. map_of (snd (dr_controller d)) x = answered tr x)"
  using assms
proof (induction rule: served.induct)
  case (step tr d s fuel req r d' s')
  from wp_run [OF step.hyps(2) serve_driver] have "d' = next_driver req r d" by simp
  with step show ?case by (cases req) (auto simp: next_driver_def)
qed simp

lemma served_info:
  assumes "served E C Y v d0 s0 tr d s" "snd (dr_controller d0) = []"
  shows "(RpcNodeGetInfo, r) \<in> set tr \<Longrightarrow> r = Ok (NodeInfo (ns_nodeID (dr_node d0)))"
  using assms
proof (induction rule: served.induct)
  case (step tr d s fuel req r' d' s')
  then show ?case using served_table [OF step.hyps(1) step.prems(2)]
    by (auto simp: serve_handler NodeGetInfo_def)
qed simp

lemma main_started:
  assumes "run_state (main E K listen fl) s = (Started (C, kc, drv, scheme, addr), s')"
  obtains t where "run_state (main_driver E K fl) s = (Started (C, kc, drv), t)" "run_state (Run_driver E listen drv) t = (Inr (scheme, addr), s')"
  using assms by (auto simp: main_def split: prod.splits startup.splits sum.splits)

text \<open>
  C22: when \<^verbatim>\<open>main\<close> reaches \<^verbatim>\<open>Serve\<close> it has a node ID and listens, the reconciler runs exactly when the manager is enabled and the
  kubelet's address is known, and both services have mount pods exactly outside process mode, with a nil embedded client. After
  any sequence of requests of any kind to the server, the provider is the same, \<^verbatim>\<open>NodeGetInfo\<close> was always answered with that node
  ID, the controller's table holds for each volume exactly what the answers promised, and \<^verbatim>\<open>ValidateVolumeCapabilities\<close> answers
  from it.
\<close>

theorem server_refines_answers:
  assumes "run_state (main E K listen fl) s = (Started (C, kc, drv, scheme, addr), s0)" "served E C Y v drv s0 tr d t"
  shows "fl_nodeID fl \<noteq> '''' \<and> listen scheme addr = None \<and>
     (kc \<noteq> None) = (EnableManager C \<and> KubeletPort C \<noteq> '''' \<and> HostIp C \<noteq> '''') \<and>
     fst (dr_controller d) = \<lparr>prov_k8sClient = False, prov_podMount = \<not> ByProcess C\<rparr> \<and>
     (\<forall>r. (RpcNodeGetInfo, r) \<in> set tr \<longrightarrow> r = Ok (NodeInfo (fl_nodeID fl))) \<and>
     (\<forall>x. map_of (snd (dr_controller d)) x = answered tr x) \<and>
     (\<forall>fuel vid caps. vid \<noteq> '''' \<and> caps \<noteq> [] \<longrightarrow>
        run_state (serve_rpc fuel E C Y v d (RpcValidateVolumeCapabilities vid caps)) t =
          ((Some (if answered tr vid = None then Err (StatusError NotFoundCode ''Could not get volume by ID %q'' [vid] None)
                  else Ok (Confirmed (if isValidVolumeCapabilities caps then Some caps else None))), d), t))"
proof -
  obtain t' where run: "run_state (main_driver E K fl) s = (Started (C, kc, drv), t')" "run_state (Run_driver E listen drv) t' = (Inr (scheme, addr), s0)"
    using main_started [OF assms(1)] .
  have serving: "serving fl (Started (C, kc, drv))" using wp_run [OF run(1) main_driver_serving] .
  then have "snd (dr_controller drv) = []" by (simp add: serving_def Let_def)
  moreover have "listen scheme addr = None"
    using run(2) by (auto simp: Run_driver_def split: prod.splits sum.splits option.splits)
  ultimately show ?thesis
    using served_table [OF assms(2)] served_info [OF assms(2)] serving
    by (auto simp: serving_def Let_def serve_handler ValidateVolumeCapabilities_def mhas_iff simp flip: map_of_eq_None_iff)
qed

lemma sim_main:
  obtains C kc drv s where
    "run_state (main sim_node_env sim_cluster (\<lambda>_ _. None) sim_flags) sim_state = (Started (C, Some kc, drv, ''unix'', ''/csi/csi.sock''), s)"
proof -
  obtain C kc drv t where run: "run_state (main_driver sim_node_env sim_cluster sim_flags) sim_state = (Started (C, Some kc, drv), t)"
    by (simp add: main_driver_def build_driver_def NewDriver_def newControllerService_def newNodeService_def NewJfsProvider_def
        Version_def StartReconciler_def newKubeletClient_def makeTransport_def startup_defs sim_defs zero_defs named_def Let_def os_defs
        sim_port)
  have "dr_endpoint drv = ''unix:///csi/csi.sock''"
    using wp_run [OF run main_driver_serving] by (simp add: serving_def Let_def sim_flags_def)
  moreover have rm: "o_remove sim_node_env h p = None" for h p by (simp add: sim_node_env_def sim_env_def)
  moreover have parse: "Parse ''unix:///csi/csi.sock'' = Inr \<lparr>url_Scheme = ''unix'', url_Host = '''', url_Path = ''/csi/csi.sock''\<rparr>" by code_simp
  moreover have join: "filepath_Join ['''', ''/csi/csi.sock''] = ''/csi/csi.sock''" "filepath_Join [''/'', ''/csi/csi.sock''] = ''/csi/csi.sock''"
    "to_lower ''unix'' = ''unix''" by code_simp+
  ultimately show ?thesis
    by (intro that [of C kc drv "snd (run_state (ParseEndpoint sim_node_env ''unix:///csi/csi.sock'') t)"])
      (simp add: main_def run rm Run_driver_def ParseEndpoint_def parse join Let_def Remove_def call_def)
qed

theorem server_refines_answers_witness:
  "\<exists>C kc drv s0 tr d t. run_state (main sim_node_env sim_cluster (\<lambda>_ _. None) sim_flags) sim_state =
       (Started (C, kc, drv, ''unix'', ''/csi/csi.sock''), s0) \<and>
     served sim_node_env C sim_decoders ''v0'' drv s0 tr d t \<and> map_of (snd (dr_controller d)) ''pvc'' = Some 10"
proof -
  obtain C kc drv s0 where run: "run_state (main sim_node_env sim_cluster (\<lambda>_ _. None) sim_flags) sim_state =
       (Started (C, Some kc, drv, ''unix'', ''/csi/csi.sock''), s0)" by (rule sim_main)
  let ?m = "serve_rpc 0 sim_node_env C sim_decoders ''v0'' drv (RpcCreateVolume (sim_create 10))"
  obtain r vols t where one: "run_state (CreateVolume sim_node_env C sim_decoders (snd (dr_controller drv)) (sim_create 10)) s0 = ((r, vols), t)"
    by (metis prod.exhaust)
  have "\<not> conflicting (snd (dr_controller drv)) (sim_create 10)"
    using server_refines_answers [OF run served.start] by (simp add: conflicting_def)
  then have ok: "\<not> refused (reply_of Volume r)" using wp_run [OF one CreateVolume_accepts] by (simp add: refused_reply)
  have "run_state ?m s0 = ((Some (reply_of Volume r), drv\<lparr>dr_controller := (fst (dr_controller drv), vols)\<rparr>), t)"
    by (simp add: serve_handler one)
  note tr = served.step [OF served.start this]
  have "map_of (snd (dr_controller (drv\<lparr>dr_controller := (fst (dr_controller drv), vols)\<rparr>))) ''pvc'' =
      answered [(RpcCreateVolume (sim_create 10), reply_of Volume r)] ''pvc''"
    using server_refines_answers [OF run tr] by blast
  then have "map_of (snd (dr_controller (drv\<lparr>dr_controller := (fst (dr_controller drv), vols)\<rparr>))) ''pvc'' = Some 10" using ok by simp
  with run tr show ?thesis by blast
qed

section \<open>How the program ends\<close>

text \<open>
  The exit status: that of an early exit, 2 after a panic, and otherwise 255 or 0 as \<^verbatim>\<open>Serve\<close> returns an error or nil, with
  \<open>grpcServe\<close> the answer of \<^verbatim>\<open>Serve\<close> on the listener.
\<close>

definition main_exit :: "env \<Rightarrow> cluster \<Rightarrow> (string \<Rightarrow> string \<Rightarrow> goerr option) \<Rightarrow> (string \<Rightarrow> string \<Rightarrow> goerr option) \<Rightarrow> cmd_flags \<Rightarrow> nat prog" where
  "main_exit E K listen grpcServe fl = do {
     m \<leftarrow> main E K listen fl;
     State_Monad.return (case m of
         Exited n \<Rightarrow> n
       | Crashed e \<Rightarrow> 2
       | Started (C, kc, drv, scheme, addr) \<Rightarrow> (case grpcServe scheme addr of Some _ \<Rightarrow> 255 | None \<Rightarrow> 0))
   }"

definition identified :: "env \<Rightarrow> bool" where
  "identified E \<longleftrightarrow> Getenv E ''POD_NAME'' \<noteq> '''' \<and> Getenv E ''JUICEFS_MOUNT_NAMESPACE'' \<noteq> ''''"

text \<open>Whether the driver can read its own pod and finds its container there.\<close>

definition own_container :: "env \<Rightarrow> cluster \<Rightarrow> history \<Rightarrow> bool" where
  "own_container E K h \<longleftrightarrow> NewClient K = None \<and>
     (case k_pod_get E h (Getenv E ''JUICEFS_MOUNT_NAMESPACE'') (Getenv E ''POD_NAME'') of
        Inl _ \<Rightarrow> False
      | Inr pod \<Rightarrow> plugin_container pod \<noteq> None)"

lemma init_config_exits:
  "wp (init_config E K fl) (\<lambda>i _.
     if fl_process fl \<or> identified E \<and> own_container E K (hist s) then \<exists>C. i = Started C
     else i = Exited (if identified E then 0 else 255)) s"
proof -
  have "PodName (env_config E fl) = Getenv E ''POD_NAME''" "Namespace (env_config E fl) = Getenv E ''JUICEFS_MOUNT_NAMESPACE''"
    by (simp_all add: env_config_def)
  then show ?thesis
    by (auto simp: init_config_def identified_def own_container_def plugin_container_def Let_def wp_simps wp_def client_defs
        set_resources_def split: option.splits sum.splits)
qed

text \<open>The statuses with which the program may end.\<close>

definition ends :: "env \<Rightarrow> cluster \<Rightarrow> cmd_flags \<Rightarrow> history \<Rightarrow> nat \<Rightarrow> bool" where
  "ends E K fl h n \<longleftrightarrow> n \<in> {0, 1, 2, 255} \<and> (n = 1 \<longrightarrow> fl_enableManager fl \<and> \<not> fl_process fl) \<and>
     (n = 0 \<longleftrightarrow> \<not> fl_process fl \<and> identified E \<and> \<not> own_container E K h \<or> fl_version fl \<and> (fl_process fl \<or> identified E))"

fun ends_startup :: "env \<Rightarrow> cluster \<Rightarrow> cmd_flags \<Rightarrow> history \<Rightarrow> 'a startup \<Rightarrow> bool" where
  "ends_startup E K fl h (Exited n) \<longleftrightarrow> ends E K fl h n"
| "ends_startup E K fl h (Crashed e) \<longleftrightarrow> ends E K fl h 2"
| "ends_startup E K fl h (Started v) \<longleftrightarrow> ends E K fl h 255"

lemma init_config_manager: "wp (init_config E K fl) (\<lambda>r _. \<forall>C. r = Started C \<longrightarrow> EnableManager C = (fl_enableManager fl \<and> \<not> fl_process fl)) s"
  by (auto simp: init_config_def wp_simps Let_def client_defs set_resources_def wp_def default_config_def env_config_def
      split: option.splits sum.splits)

lemma services_start: "wp (newControllerService E K C) (\<lambda>c _. \<forall>n. c \<noteq> Exited n) s"
  "wp (newNodeService E K C nodeID) (\<lambda>c _. \<forall>n. c \<noteq> Exited n) s"
  by (auto simp: newControllerService_def newNodeService_def wp_simps split_beta intro!: wp_any split: sum.splits option.splits)

lemma build_driver_ends:
  assumes "ends E K fl h 2" "ends E K fl h 255"
  shows "wp (build_driver E K fl C kc) (\<lambda>r _. ends_startup E K fl h r) s"
proof -
  have "wp (NewDriver E K C (fl_endpoint fl) (fl_nodeID fl)) (\<lambda>d _. \<forall>n. d \<noteq> Exited n) s"
    unfolding NewDriver_def wp_bind
    by (rule wp_mono [OF services_start(1)])
      (auto simp: wp_simps intro!: wp_mono [OF services_start(2)] split: startup.splits sum.splits)
  then show ?thesis
    unfolding build_driver_def wp_bind wp_return
    by (rule wp_mono) (use assms in \<open>auto split: startup.splits sum.splits\<close>)
qed

lemma main_driver_ends: "wp (main_driver E K fl) (\<lambda>r _. ends_startup E K fl (hist s) r) s"
  unfolding main_driver_def wp_bind
proof (rule wp_mono [OF wp_conj [OF init_config_exits init_config_manager]], goal_cases)
  case (1 i t)
  show ?case
  proof (cases "fl_process fl \<or> identified E \<and> own_container E K (hist s)")
    case True
    with 1 obtain C where C: "i = Started C" "EnableManager C = (fl_enableManager fl \<and> \<not> fl_process fl)" by auto
    have build: "wp (build_driver E K fl C kc) (\<lambda>r _. ends_startup E K fl (hist s) r) t'" if "\<not> fl_version fl" for kc t'
      by (rule build_driver_ends) (use True that in \<open>auto simp: ends_def\<close>)
    have "wp (StartReconciler E K C) (\<lambda>r. wp (case r of Inl _ \<Rightarrow> State_Monad.return (Exited 1) | Inr kc \<Rightarrow> build_driver E K fl C (Some kc))
          (\<lambda>r _. ends_startup E K fl (hist s) r)) t"
      if "\<not> fl_version fl" "fl_enableManager fl" "\<not> fl_process fl"
      by (rule wp_any) (use True that build in \<open>auto simp: wp_simps ends_def split: sum.splits\<close>)
    with True build show ?thesis
      unfolding C(1) startup.case One_nat_def by (auto simp: wp_simps ends_def C(2))
  next
    case False
    with 1 show ?thesis by (auto simp: wp_simps ends_def)
  qed
qed

lemma main_ends: "wp (main E K listen fl) (\<lambda>r _. ends_startup E K fl (hist s) r) s"
  unfolding main_def wp_bind
proof (rule wp_mono [OF main_driver_ends], goal_cases)
  case (1 r t)
  then show ?case
  proof (cases r)
    case (Started v)
    obtain C kc drv where v: "v = (C, kc, drv)" by (metis prod.exhaust)
    show ?thesis
      unfolding Started v startup.case prod.case wp_bind wp_return
      by (rule wp_any) (use 1 Started in \<open>auto split: sum.split\<close>)
  qed (simp_all add: wp_simps)
qed



end
