(* ===== verification/ReconcilerLoop.thy ===== *)
theory ReconcilerLoop
  imports Server GoDates Collect
begin

text \<open>
  The reconciler's loop as \<^verbatim>\<open>main\<close> starts it: which requests it makes, how it paces them, and what can end it.
\<close>

section \<open>One round\<close>

fun is_request :: "event \<Rightarrow> bool" where
  "is_request (EvHttpGet url r) \<longleftrightarrow> True"
| "is_request e \<longleftrightarrow> False"

abbreviation no_request :: "event \<Rightarrow> bool" where
  "no_request e \<equiv> \<not> is_request e"

lemma checkAnnotations_no_request: "emits no_request (checkAnnotations E mit pod)"
  unfolding checkAnnotations_def delete_if_due_def ShouldDelay_def GetTimeAfterDelay_def Let_def
  by (intro emits_intros; simp)

lemma podErrorHandler_no_request: "emits no_request (podErrorHandler E C p)"
proof -
  have "emits no_request (wait_deleted n E name ns)" for n name ns
    by (induction n) (auto simp: client_defs intro!: emits_intros split: sum.splits)
  then show ?thesis unfolding podErrorHandler_def Let_def
    by (auto simp: client_defs intro!: emits_intros split: option.splits sum.splits)
qed

lemma podDeletedHandler_no_request: "emits no_request (podDeletedHandler E C p)"
proof -
  have "emits no_request (umount_source E path)" for path
    unfolding umount_source_def doWithinTime_def doWithinTime_cmd_def by (auto intro!: emits_intros split: option.splits)
  then have "emits no_request (recreate_loop n E C pod path m)" for n pod path m
    by (induction n) (auto simp: client_defs intro!: emits_intros split: sum.splits option.splits)
  then show ?thesis unfolding podDeletedHandler_def doWithinTime_def Let_def
    by (auto simp: client_defs intro!: emits_intros split: option.splits sum.splits)
qed

lemma Run_no_request: "emits no_request (Run E C mit pod)"
proof -
  have "emits no_request (podReadyHandler E mit p)" for mit p
    by (rule emits_mono [OF podReadyHandler_local]) (auto elim: node_local.elims)
  then have "emits no_request (handlers E C mit st p)" for mit st p
    unfolding handlers_def podPendingHandler_def
    using podErrorHandler_no_request podDeletedHandler_no_request by (cases st) (auto intro: emits_return)
  then show ?thesis
    unfolding Run_def Let_def by (intro emits_intros checkAnnotations_no_request; simp)
qed

lemma run_pods_no_request: "emits no_request (run_pods E C mit pods)"
  by (induction pods arbitrary: mit) (auto intro!: emits_intros Run_no_request)

text \<open>
  Events of the loop, newest first: every request goes to \<open>url\<close>, and every request but the first comes directly after a pause of
  \<open>d\<close> nanoseconds.
\<close>

fun paced :: "int \<Rightarrow> string \<Rightarrow> history \<Rightarrow> bool" where
  "paced d url [] \<longleftrightarrow> True"
| "paced d url (EvHttpGet u r # h) \<longleftrightarrow> u = url \<and> (h = [] \<or> hd h = EvSleep d) \<and> paced d url h"
| "paced d url (e # h) \<longleftrightarrow> paced d url h"

lemma paced_quiet: "\<forall>e \<in> set evs. no_request e \<Longrightarrow> paced d url (evs @ h) = paced d url h"
proof (induction evs)
  case (Cons e evs)
  then show ?case by (cases e) simp_all
qed simp

abbreviation requests :: "history \<Rightarrow> nat" where
  "requests h \<equiv> length (filter is_request h)"

lemma requests_quiet: "\<forall>e \<in> set evs. no_request e \<Longrightarrow> requests evs = 0"
  by (simp add: filter_empty_conv)

definition kubelet_url :: "kubeletClient \<Rightarrow> string" where
  "kubelet_url kl = ''https://'' @ kl_host kl @ '':'' @ Itoa (kl_port kl) @ ''/pods/''"

lemma GetNodeRunningPods_does:
  "does (GetNodeRunningPods E kl) (\<lambda>r evs. \<exists>a. evs = [EvHttpGet (kubelet_url kl) a] \<and>
     (r = Inr None \<longleftrightarrow> (\<exists>body. a = Inr (Inr body) \<and> x_pod_list E body = Inr None)))"
  unfolding GetNodeRunningPods_def Let_def
  by (rule does_bind [OF does_call [where Q = "\<lambda>r evs. evs = [EvHttpGet (kubelet_url kl) r]"]]) (auto simp: kubelet_url_def split: sum.splits)

text \<open>A list that decoded to nil, and after it the mount table that was read: at the newest end of the events, and anywhere in them.\<close>

fun null_list :: "env \<Rightarrow> history \<Rightarrow> bool" where
  "null_list E (EvParseMountInfo (Inr mis) # EvHttpGet url (Inr (Inr body)) # h) \<longleftrightarrow> x_pod_list E body = Inr None"
| "null_list E h \<longleftrightarrow> False"

fun null_listed :: "env \<Rightarrow> history \<Rightarrow> bool" where
  "null_listed E [] \<longleftrightarrow> False"
| "null_listed E (e # h) \<longleftrightarrow> null_list E (e # h) \<or> null_listed E h"

lemma null_list_listed: "null_list E h \<Longrightarrow> null_listed E h"
  by (cases h) simp_all

lemma null_listed_pause: "null_listed E (evs @ EvSleep d # h) \<longleftrightarrow> null_listed E evs \<or> null_listed E h"
proof (induction evs)
  case (Cons e evs)
  have "null_list E (e # evs @ EvSleep d # h) = null_list E (e # evs)"
    by (cases "(E, e # evs)" rule: null_list.cases; cases evs) auto
  with Cons show ?case by simp
qed simp

lemma null_listed_quiet:
  "\<forall>e \<in> set mid. no_request e \<Longrightarrow> null_listed E (mid @ [EvHttpGet url a]) \<longleftrightarrow> mid \<noteq> [] \<and> null_list E [last mid, EvHttpGet url a]"
proof (induction mid)
  case (Cons e mid)
  have "null_list E (e # mid @ [EvHttpGet url a]) \<longleftrightarrow> mid = [] \<and> null_list E [e, EvHttpGet url a]"
    using Cons.prems by (cases mid; cases "(E, e # mid @ [EvHttpGet url a])" rule: null_list.cases) auto
  with Cons show ?case by auto
qed simp

lemma null_listed_body:
  assumes "\<forall>e \<in> set mid. no_request e"
  shows "null_listed E (mid @ [EvHttpGet url a]) \<longleftrightarrow> mid \<noteq> [] \<and> (\<exists>mis. last mid = EvParseMountInfo (Inr mis)) \<and>
     (\<exists>body. a = Inr (Inr body) \<and> x_pod_list E body = Inr None)"
  unfolding null_listed_quiet [OF assms] by (cases "(E, [last mid, EvHttpGet url a])" rule: null_list.cases) auto

text \<open>A round that goes on makes one request and pauses, with no nil list before a mount table; a round that panics ends with one.\<close>

definition round_events :: "env \<Rightarrow> config \<Rightarrow> kubeletClient \<Rightarrow> mountInfoTable outcome \<Rightarrow> history \<Rightarrow> bool" where
  "round_events E C kl r evs \<longleftrightarrow> (\<exists>a mid. (\<forall>e \<in> set mid. no_request e) \<and>
     (case r of
        Ok _ \<Rightarrow> evs = EvSleep (i64 (ReconcilerInterval C * 1000000000)) # mid @ [EvHttpGet (kubelet_url kl) a] \<and> \<not> null_listed E evs
      | Err _ \<Rightarrow> False
      | Panic _ \<Rightarrow> evs = mid @ [EvHttpGet (kubelet_url kl) a] \<and> null_list E evs))"

lemma round_work_does:
  "does (do {
       (err, mit1) \<leftarrow> parse_mountinfo E mit;
       (case err of
          Some _ \<Rightarrow> State_Monad.return (Ok mit1)
        | None \<Rightarrow> (
            let mit2 = setPodsStatus mit1 podList in
            case podList of
              None \<Rightarrow> State_Monad.return (Panic ''invalid memory address or nil pointer dereference'')
            | Some items \<Rightarrow> do { mit3 \<leftarrow> run_pods E C mit2 items; State_Monad.return (Ok mit3) }))
     }) (\<lambda>r evs. (\<forall>e \<in> set evs. no_request e) \<and>
       (case r of
          Ok _ \<Rightarrow> podList = None \<longrightarrow> (\<exists>e. evs = [EvParseMountInfo (Inl e)])
        | Err _ \<Rightarrow> False
        | Panic _ \<Rightarrow> podList = None \<and> (\<exists>mis. evs = [EvParseMountInfo (Inr mis)])))"
  unfolding parse_mountinfo_def
proof (rule does_bind [OF does_bind [OF does_call [where Q = "\<lambda>r evs. evs = [EvParseMountInfo r]"],
        where Q = "\<lambda>(err, _) evs. case err of None \<Rightarrow> \<exists>mis. evs = [EvParseMountInfo (Inr mis)] | Some _ \<Rightarrow> \<exists>e. evs = [EvParseMountInfo (Inl e)]"]], goal_cases)
  case (3 a evs)
  have "does (run_pods E C m items) (\<lambda>_ evs. \<forall>e \<in> set evs. no_request e)" for m items
    by (rule does_emits [OF run_pods_no_request])
  then have "does (do { mit3 \<leftarrow> run_pods E C m items; State_Monad.return (Ok mit3) })
      (\<lambda>r evs'. (\<forall>e \<in> set (evs' @ evs). no_request e) \<and> (case r of Ok _ \<Rightarrow> True | Err _ \<Rightarrow> False | Panic _ \<Rightarrow> False))" for m items
    by (rule does_bind) (use 3 in \<open>auto split: option.splits\<close>)
  note work = does_mono [OF this]
  show ?case
  proof (cases "fst a = None \<and> podList \<noteq> None")
    case True
    with 3 show ?thesis by (auto simp: Let_def split_beta split: outcome.splits intro!: work)
  next
    case False
    with 3 show ?thesis by (cases "fst a"; cases podList) (auto simp: Let_def split_beta)
  qed
qed (auto split: sum.splits)

lemma round_does: "does (reconcile_round E C kl mit) (round_events E C kl)"
  unfolding reconcile_round_def
proof (rule does_bind [OF GetNodeRunningPods_does], goal_cases)
  case (1 r evs)
  have pause: "does (Sleep d) (\<lambda>_ evs. evs = [EvSleep d])" for d
    unfolding Sleep_def emit_def by (rule does_call) simp
  show ?case
  proof (cases r)
    case (Inl e)
    with 1 show ?thesis by (auto simp: round_events_def intro!: does_bind [OF pause])
  next
    case (Inr podList)
    show ?thesis
      unfolding Inr sum.case
    proof (rule does_bind [OF round_work_does], goal_cases)
      case (1 m evs')
      with \<open>\<exists>a. _ a\<close> Inr show ?case
        by (cases m) (auto simp: round_events_def null_listed_body intro!: does_bind [OF pause])
    qed
  qed
qed

text \<open>The events of several rounds.\<close>

lemma paced_round:
  assumes "paced d url h" "h = [] \<or> hd h = EvSleep d" "\<forall>e \<in> set mid. no_request e"
  shows "paced d url (mid @ EvHttpGet url a # h)" "paced d url (EvSleep d # mid @ EvHttpGet url a # h)"
  using assms by (simp_all add: paced_quiet)

definition loop_events :: "env \<Rightarrow> config \<Rightarrow> kubeletClient \<Rightarrow> nat \<Rightarrow> history \<Rightarrow> mountInfoTable outcome \<Rightarrow> history \<Rightarrow> bool" where
  "loop_events E C kl n h r evs \<longleftrightarrow>
     paced (i64 (ReconcilerInterval C * 1000000000)) (kubelet_url kl) (evs @ h) \<and> requests evs \<le> n \<and>
     (case r of Ok _ \<Rightarrow> requests evs = n \<and> \<not> null_listed E evs | Err _ \<Rightarrow> False | Panic _ \<Rightarrow> null_listed E evs)"

lemma doReconcile_does:
  assumes "paced (i64 (ReconcilerInterval C * 1000000000)) (kubelet_url kl) h"
    and "h = [] \<or> hd h = EvSleep (i64 (ReconcilerInterval C * 1000000000))"
  shows "does (doReconcile n E C kl mit) (loop_events E C kl n h)"
  using assms
proof (induction n arbitrary: h mit)
  case 0
  then show ?case by (simp add: loop_events_def)
next
  case (Suc n)
  let ?d = "i64 (ReconcilerInterval C * 1000000000)" and ?u = "kubelet_url kl"
  show ?case
    unfolding doReconcile.simps bindO_def
  proof (rule does_bind [OF round_does], goal_cases)
    case (1 r evs)
    then obtain a mid where quiet: "\<forall>e \<in> set mid. no_request e"
      and evs: "case r of Ok _ \<Rightarrow> evs = EvSleep ?d # mid @ [EvHttpGet ?u a] \<and> \<not> null_listed E evs | Err _ \<Rightarrow> False
          | Panic _ \<Rightarrow> evs = mid @ [EvHttpGet ?u a] \<and> null_list E evs"
      by (auto simp: round_events_def)
    note p = paced_round [OF Suc.prems quiet] and q = requests_quiet [OF quiet]
    show ?case
    proof (cases r)
      case (Ok m)
      have "does (doReconcile n E C kl m) (loop_events E C kl n (evs @ h))"
        by (rule Suc.IH) (use p(2) evs Ok in simp_all)
      then show ?thesis unfolding Ok outcome.case
        by (rule does_mono) (use q evs Ok in \<open>auto simp: loop_events_def null_listed_pause split: outcome.splits\<close>)
    qed (use p(1) q evs in \<open>auto simp: loop_events_def null_list_listed\<close>)
  qed
qed

section \<open>The loop that the program starts\<close>

lemma init_config_flags:
  "wp (init_config E K fl) (\<lambda>r s'. \<forall>C. r = Started C \<longrightarrow> EnableManager C \<longrightarrow>
     ReconcilerInterval C = max 5 (fl_reconcilerInterval fl) \<and> HostIp C = Getenv E ''HOST_IP'' \<and> KubeletPort C = Getenv E ''KUBELET_PORT'') s"
  by (auto simp: init_config_def wp_simps Let_def client_defs set_resources_def wp_def default_config_def env_config_def
      split: option.splits sum.splits)

lemma newKubeletClient_target:
  "wp (newKubeletClient E K host port) (\<lambda>r _. \<forall>c. r = Inr c \<longrightarrow> kubelet_client c = \<lparr>kl_host = host, kl_port = port\<rparr>) s"
  unfolding newKubeletClient_def Let_def wp_bind wp_return
  by (rule wp_any) (auto simp: kubelet_client_def split: sum.splits option.splits)

lemma StartReconciler_target:
  "wp (StartReconciler E K C) (\<lambda>r _. \<forall>c. r = Inr c \<longrightarrow>
     Inr (kl_port (kubelet_client c)) = Atoi (KubeletPort C) \<and> kl_host (kubelet_client c) = HostIp C) s"
  unfolding StartReconciler_def
  by (auto simp: wp_simps intro!: wp_mono [OF newKubeletClient_target] split: sum.splits option.splits)

lemma main_driver_reconciler:
  "wp (main_driver E K fl) (\<lambda>r _. \<forall>C kc drv. r = Started (C, Some kc, drv) \<longrightarrow>
     ReconcilerInterval C = max 5 (fl_reconcilerInterval fl) \<and>
     kl_host (kubelet_client kc) = Getenv E ''HOST_IP'' \<and> Atoi (Getenv E ''KUBELET_PORT'') = Inr (kl_port (kubelet_client kc))) s"
  unfolding main_driver_def wp_bind
proof (rule wp_mono [OF init_config_flags], goal_cases)
  case (1 i t)
  show ?case
  proof (cases i)
    case (Started C)
    note init = 1 [rule_format, OF Started]
    show ?thesis
    proof (cases "fl_version fl \<or> fl_nodeID fl = '''' \<or> \<not> (EnableManager C \<and> KubeletPort C \<noteq> '''' \<and> HostIp C \<noteq> '''')")
      case True
      then show ?thesis
        unfolding Started startup.case by (auto simp: wp_simps intro!: wp_mono [OF build_driver_wp])
    next
      case False
      then have go: "(\<not> fl_version fl) \<and> fl_nodeID fl \<noteq> '''' \<and> EnableManager C \<and> KubeletPort C \<noteq> '''' \<and> HostIp C \<noteq> ''''" by blast
      have "wp (StartReconciler E K C \<bind> case_sum (\<lambda>_. State_Monad.return (Exited 1)) (\<lambda>kc. build_driver E K fl C (Some kc)))
          (\<lambda>r _. \<forall>C kc drv. r = Started (C, Some kc, drv) \<longrightarrow>
            ReconcilerInterval C = max 5 (fl_reconcilerInterval fl) \<and>
            kl_host (kubelet_client kc) = Getenv E ''HOST_IP'' \<and> Atoi (Getenv E ''KUBELET_PORT'') = Inr (kl_port (kubelet_client kc))) t"
        unfolding wp_bind
        by (rule wp_mono [OF StartReconciler_target])
          (use init go in \<open>auto simp: wp_simps intro!: wp_mono [OF build_driver_wp] split: sum.split\<close>)
      with go show ?thesis unfolding Started startup.case by simp
    qed
  qed (simp_all add: wp_simps)
qed

lemma i64_id: "- (2 ^ 63) \<le> x \<Longrightarrow> x < 2 ^ 63 \<Longrightarrow> i64 x = x"
  by (simp add: i64_def)

lemma interval_exact: "n \<le> 9223372036 \<Longrightarrow> i64 (max 5 n * 1000000000) = max 5 n * 1000000000"
  by (rule i64_id) (simp_all add: max_def)

lemma doReconcile_run:
  assumes "run_state (doReconcile n E C kl mit) t = (r, t')"
  obtains evs where "hist t' = evs @ hist t" "loop_events E C kl n [] r evs"
  by (rule does_run [OF doReconcile_does [of C kl "[]"] assms]) auto

text \<open>
  C24: the reconciler that \<^verbatim>\<open>main\<close> starts asks only the kubelet of its node, at the address of the environment variables, at most
  once per round and exactly once in every round that ends; and every request but the first comes directly after a pause of the interval given by the flag, of at
  least five seconds, as long as the interval in nanoseconds fits into 64 bits.
\<close>

theorem reconciler_paced:
  assumes "run_state (main E K listen fl) s = (Started (C, Some kc, drv, scheme, addr), s0)"
    and "run_state (doReconcile n E C (kubelet_client kc) mit) t = (r, t')"
  shows "\<exists>evs d port. hist t' = evs @ hist t \<and> requests evs \<le> n \<and> (\<forall>m. r = Ok m \<longrightarrow> requests evs = n) \<and>
     Atoi (Getenv E ''KUBELET_PORT'') = Inr port \<and>
     paced d (''https://'' @ Getenv E ''HOST_IP'' @ '':'' @ Itoa port @ ''/pods/'') evs \<and>
     (fl_reconcilerInterval fl \<le> 9223372036 \<longrightarrow> d = max 5 (fl_reconcilerInterval fl) * 1000000000)"
proof -
  obtain t0 where run: "run_state (main_driver E K fl) s = (Started (C, Some kc, drv), t0)"
    using main_started [OF assms(1)] .
  note rec = wp_run [OF run main_driver_reconciler, rule_format, OF refl]
  obtain evs where "hist t' = evs @ hist t" "loop_events E C (kubelet_client kc) n [] r evs"
    using doReconcile_run [OF assms(2)] .
  with rec show ?thesis
    by (intro exI [of _ evs] exI [of _ "i64 (ReconcilerInterval C * 1000000000)"] exI [of _ "kl_port (kubelet_client kc)"])
      (auto simp: loop_events_def kubelet_url_def interval_exact split: outcome.splits)
qed


theorem reconciler_paced_witness:
  "\<exists>C kc drv s0 r t' evs. run_state (main sim_node_env sim_cluster (\<lambda>_ _. None) sim_flags) sim_state =
       (Started (C, Some kc, drv, ''unix'', ''/csi/csi.sock''), s0) \<and>
     run_state (doReconcile 2 sim_node_env C (kubelet_client kc) newMountInfoTable) s0 = (r, t') \<and>
     hist t' = evs @ hist s0 \<and> paced 5000000000 ''https://10.0.0.1:10250/pods/'' evs"
proof -
  obtain C k drv s0 where main: "run_state (main sim_node_env sim_cluster (\<lambda>_ _. None) sim_flags) sim_state =
       (Started (C, Some k, drv, ''unix'', ''/csi/csi.sock''), s0)" by (rule sim_main)
  obtain r t' where run: "run_state (doReconcile 2 sim_node_env C (kubelet_client k) newMountInfoTable) s0 = (r, t')"
    by fastforce
  have "Itoa 10250 = ''10250''" by code_simp
  then have "\<exists>evs. hist t' = evs @ hist s0 \<and> paced 5000000000 ''https://10.0.0.1:10250/pods/'' evs"
    using reconciler_paced [OF main run] sim_port
    by (auto simp: sim_flags_def sim_node_env_def Getenv_def)
  with main run show ?thesis by blast
qed


end
