(* ===== verification/Recreate.thy ===== *)
theory Recreate
  imports Collect
begin

text \<open>
  A mount pod that is deleted from outside while targets use it: what one round of the reconciler (\<^verbatim>\<open>Run\<close> of pkg/controller/pod_driver.go)
  makes of it, whatever the API server answers: it may keep the pod readable while it terminates, and others may write.
\<close>

section \<open>The pod before and after\<close>

text \<open>A mount pod that was deleted from outside while targets use it, before the driver's finalizer is taken off.\<close>

definition deleted_in_use :: "mountInfoTable \<Rightarrow> string \<Rightarrow> string \<Rightarrow> pod \<Rightarrow> bool" where
  "deleted_in_use mit ns n q \<longleftrightarrow> named ns n q \<and> p_deletionTimestamp q \<noteq> None \<and> Finalizer \<in> set (p_finalizers q) \<and> \<not> IsPodResourceError q \<and>
     (\<exists>paths. GetMountPathOfPod q = Inr paths) \<and> HasRef q \<and> wf_map (entries (p_annotations q)) \<and>
     live_annotations mit (entries (p_annotations q)) = entries (p_annotations q)"

text \<open>A pod to be created that stands for \<open>q\<close>: alive, with the finalizer, and with what the driver put into \<open>q\<close>.\<close>

definition stands_for :: "pod \<Rightarrow> pod \<Rightarrow> bool" where
  "stands_for p q \<longleftrightarrow> p_name p = p_name q \<and> p_namespace p = p_namespace q \<and> p_annotations p = p_annotations q \<and> p_labels p = p_labels q \<and>
     p_spec p = p_spec q \<and> p_deletionTimestamp p = None \<and> Finalizer \<in> set (p_finalizers p)"

text \<open>The events of a round, the newest first: reads that found the pod still being deleted, each with its pause of half a second.\<close>

fun waited :: "string \<Rightarrow> string \<Rightarrow> history \<Rightarrow> bool" where
  "waited ns n [] \<longleftrightarrow> True"
| "waited ns n (EvSleep d # EvPodGet ns' n' (Inr p) # h) \<longleftrightarrow>
     d = 500000000 \<and> ns' = ns \<and> n' = n \<and> p_deletionTimestamp p \<noteq> None \<and> waited ns n h"
| "waited ns n h \<longleftrightarrow> False"

text \<open>The pod was gone and another one created for it, or another one had been created elsewhere and got all its references.\<close>

definition replaced :: "pod \<Rightarrow> history \<Rightarrow> bool" where
  "replaced q h \<longleftrightarrow>
     (\<exists>p p' u. h = EvPodCreate p (Inr p') # u @ [EvPodGet (p_namespace q) (p_name q) (Inl (ApiError NotFound))] \<and>
        stands_for p q \<and> (\<forall>e \<in> set u. keeps_pods e)) \<or>
     (\<exists>po m. h = [EvPodUpdate (po\<lparr>p_annotations := Some m\<rparr>) None, EvPodGet (p_namespace q) (p_name q) (Inr po)] \<and>
        p_deletionTimestamp po = None \<and> ref_keys q \<subseteq> ref_keys (po\<lparr>p_annotations := Some m\<rparr>))"

text \<open>The last call failed: a read, with an error other than that the pod is gone, the creation, or the update of the pod created elsewhere.\<close>

definition lost :: "pod \<Rightarrow> history \<Rightarrow> bool" where
  "lost q h \<longleftrightarrow>
     (\<exists>e. h = [EvPodGet (p_namespace q) (p_name q) (Inl e)] \<and> \<not> IsNotFound e) \<or>
     (\<exists>p e u. h = EvPodCreate p (Inl e) # u @ [EvPodGet (p_namespace q) (p_name q) (Inl (ApiError NotFound))] \<and> (\<forall>e \<in> set u. keeps_pods e)) \<or>
     (\<exists>po p e. h = [EvPodUpdate p (Some e), EvPodGet (p_namespace q) (p_name q) (Inr po)])"

text \<open>What the handler does with a deleted pod in use.\<close>

definition handled :: "pod \<Rightarrow> goerr option \<Rightarrow> history \<Rightarrow> bool" where
  "handled q err evs \<longleftrightarrow>
     (let q' = q\<lparr>p_finalizers := removeAll Finalizer (p_finalizers q)\<rparr> in
      (\<exists>e. err = Some e \<and> evs = [EvPodUpdate q' (Some e)]) \<or>
      (\<exists>h w. evs = EvUnlock (GetPodLock (p_name q)) # h @ w @ [EvLock (GetPodLock (p_name q)), EvPodUpdate q' None] \<and>
         waited (p_namespace q) (p_name q) w \<and>
         (err = None \<and> length w < 2 * 120 \<and> (replaced q h \<or> lost q h) \<or> err \<noteq> None \<and> length w = 2 * 120 \<and> h = [])))"

lemma waited_append: "waited ns n w \<Longrightarrow> waited ns n w' \<Longrightarrow> waited ns n (w @ w')"
  by (induction ns n w rule: waited.induct) auto

lemma recreate_of_stands_for:
  assumes "finalizers_documented E" "p_name pod = p_name q" "p_namespace pod = p_namespace q" "p_annotations pod = p_annotations q"
    "p_labels pod = p_labels q" "p_spec pod = p_spec q"
  shows "stands_for (recreate_of E pod) q"
  using assms(2-) by (simp add: stands_for_def recreate_of_def add_finalizer_sel [OF assms(1)] zero_pod_def)

lemma umount_source_keeps: "emits keeps_pods (umount_source E path)"
  unfolding umount_source_def doWithinTime_def doWithinTime_cmd_def by (auto intro!: emits_intros split: option.splits)

text \<open>How the loop of the handler ends, after at most \<open>k\<close> reads.\<close>

definition loop_end :: "pod \<Rightarrow> nat \<Rightarrow> goerr option \<Rightarrow> history \<Rightarrow> bool" where
  "loop_end q k err evs \<longleftrightarrow> (\<exists>h w. evs = h @ w \<and> waited (p_namespace q) (p_name q) w \<and>
     (err = None \<and> length w < 2 * k \<and> (replaced q h \<or> lost q h) \<or> err \<noteq> None \<and> length w = 2 * k \<and> h = []))"

lemma loop_end_0: "loop_end q 0 (Some e) []"
  by (auto simp: loop_end_def intro!: exI [of _ "[]"])

lemma loop_end_Suc:
  assumes "loop_end q k err evs" "p_deletionTimestamp po \<noteq> None"
  shows "loop_end q (Suc k) err (evs @ [EvSleep 500000000, EvPodGet (p_namespace q) (p_name q) (Inr po)])"
proof -
  obtain h w where w: "evs = h @ w" "waited (p_namespace q) (p_name q) w"
    "err = None \<and> length w < 2 * k \<and> (replaced q h \<or> lost q h) \<or> err \<noteq> None \<and> length w = 2 * k \<and> h = []"
    using assms(1) unfolding loop_end_def by blast
  have "waited (p_namespace q) (p_name q) (w @ [EvSleep 500000000, EvPodGet (p_namespace q) (p_name q) (Inr po)])"
    by (rule waited_append [OF w(2)]) (use assms(2) in simp)
  with w(1,3) show ?thesis unfolding loop_end_def by (intro exI [of _ h] exI, intro conjI) auto
qed

lemma loop_end_done: "replaced q h \<or> lost q h \<Longrightarrow> loop_end q (Suc k) None h"
  unfolding loop_end_def by (intro exI [of _ h] exI [of _ "[]"]) simp

lemma recreate_loop_ends:
  assumes "stands_for (recreate_of E pod) q" "p_name pod = p_name q" "p_namespace pod = p_namespace q"
    and refs: "\<And>po. ref_keys q \<subseteq> ref_keys (po\<lparr>p_annotations := Some (mputs targets (entries (p_annotations po)))\<rparr>)"
  shows "does (recreate_loop k E C pod path targets) (loop_end q k)"
proof (induction k)
  case 0
  show ?case by (simp add: loop_end_0)
next
  case (Suc k)
  have get: "does (GetPod E (p_name q) (p_namespace q)) (\<lambda>r evs. evs = [EvPodGet (p_namespace q) (p_name q) r])"
    unfolding GetPod_def by (rule does_call) simp
  have create: "does (CreatePod E (Some (recreate_of E pod))) (\<lambda>_ evs. \<exists>r. evs = [EvPodCreate (recreate_of E pod) r])"
    unfolding CreatePod_def by (auto intro!: does_bind [OF does_call [where Q = "\<lambda>r evs. evs = [EvPodCreate (recreate_of E pod) r]"]] split: sum.splits)
  have sleep: "does (Sleep d) (\<lambda>_ evs. evs = [EvSleep d])" for d by (simp add: does_def wp_simps)
  show ?case
    unfolding recreate_loop.simps(2) assms(2,3)
  proof (rule does_bind [OF get], goal_cases)
    case (1 r evs)
    show ?case
    proof (cases r)
      case (Inl e)
      have "loop_end q (Suc k) None (EvPodCreate (recreate_of E pod) c # u @ [EvPodGet (p_namespace q) (p_name q) (Inl (ApiError NotFound))])"
        if "\<forall>e \<in> set u. keeps_pods e" for c u
        using assms(1) that by (intro loop_end_done; cases c) (auto simp: replaced_def lost_def)
      with 1 Inl show ?thesis
        by (auto simp: IsNotFound_iff lost_def intro!: loop_end_done does_bind [OF does_emits [OF umount_source_keeps]] does_bind [OF create])
    next
      case (Inr po)
      let ?po = "po\<lparr>p_annotations := Some (mputs targets (entries (p_annotations po)))\<rparr>"
      have upd: "loop_end q (Suc k) None [EvPodUpdate ?po x, EvPodGet (p_namespace q) (p_name q) (Inr po)]" if "p_deletionTimestamp po = None" for x
        using refs [of po] that by (intro loop_end_done, cases x) (auto simp: replaced_def lost_def)
      with 1 Inr loop_end_Suc show ?thesis
        by (auto intro!: upd does_bind [OF does_UpdatePod] does_bind [OF sleep] does_mono [OF Suc.IH])
    qed
  qed
qed

lemma HasRef_filter: "HasRef q \<Longrightarrow> \<exists>a. p_annotations q = Some a \<and> filter is_ref a \<noteq> []"
  by (cases "p_annotations q") (auto simp: HasRef_def list_ex_iff filter_empty_conv is_ref_def)

lemma podDeletedHandler_ends:
  assumes "finalizers_documented E" "deleted_in_use mit ns n q"
  shows "does (podDeletedHandler E C (Some q)) (handled q)"
proof -
  obtain a path vol where q: "Finalizer \<in> set (p_finalizers q)" "\<not> IsPodResourceError q" "p_annotations q = Some a" "filter is_ref a \<noteq> []"
    "GetMountPathOfPod q = Inr (path, vol)" "wf_map a"
    using assms(2) HasRef_filter [of q] by (auto simp: deleted_in_use_def)
  let ?q = "q\<lparr>p_finalizers := removeAll Finalizer (p_finalizers q)\<rparr>"
  have path: "GetMountPathOfPod ?q = Inr (path, vol)" using q(5) by (auto simp: GetMountPathOfPod_def split: list.splits)
  have "does (recreate_loop 120 E C ?q path (filter is_ref a)) (loop_end q 120)"
    by (rule recreate_loop_ends [OF recreate_of_stands_for [OF assms(1)]]) (use ref_keys_mputs [of q] q(3,6) in simp_all)
  moreover have "does (emit e) (\<lambda>_ evs. evs = [e])" for e by (simp add: does_def wp_simps)
  ultimately have lock: "does (with_lock i (recreate_loop 120 E C ?q path (filter is_ref a)))
      (\<lambda>err evs. \<exists>h. evs = EvUnlock i # h @ [EvLock i] \<and> loop_end q 120 err h)" for i
    unfolding with_lock_def by (auto intro!: does_bind)
  have "handled q err (EvUnlock (GetPodLock (p_name q)) # h @ [EvLock (GetPodLock (p_name q)), EvPodUpdate ?q None])"
    if "loop_end q 120 err h" for err h
    using that unfolding loop_end_def handled_def Let_def by auto
  then show ?thesis
    using q path
    by (auto simp: podDeletedHandler_def ContainsString_def remove_finalizer_eq [OF assms(1)] Let_def handled_def [of q "Some e" for e]
        intro!: does_bind [OF does_UpdatePod] does_mono [OF lock] split: option.splits)
qed

lemma check_in_use:
  assumes "deleted_in_use mit ns n q"
  shows "checkAnnotations E mit q = with_lock (GetPodLock n) (State_Monad.return (None, q))"
  using assms by (auto simp: checkAnnotations_def deleted_in_use_def named_def)


definition sim_in_use :: pod where
  "sim_in_use = sim_mount_pod\<lparr>p_deletionTimestamp := Some 0,
     p_annotations := Some [(GetReferenceKey ''/pods/uid/volumes/x'', ''/pods/uid/volumes/x'')],
     p_spec := zero_spec\<lparr>ps_containers := [zero_container\<lparr>c_command := [''sh'', ''-c'', ''mount.juicefs redis /jfs/pvc'']\<rparr>]\<rparr>\<rparr>"

definition sim_live_table :: mountInfoTable where
  "sim_live_table = newMountInfoTable\<lparr>mit_deletedPods := [(getPodUid ''/pods/uid/volumes/x'', False)]\<rparr>"

lemma sim_deleted_in_use: "deleted_in_use sim_live_table ''kube-system'' ''juicefs-node-pvc'' sim_in_use"
proof -
  have "ParseMntPath ''mount.juicefs redis /jfs/pvc'' = Inr (''/jfs/pvc'', ''pvc'')" by code_simp
  moreover have "live_annotations sim_live_table (entries (p_annotations sim_in_use)) = entries (p_annotations sim_in_use)"
    by (simp add: sim_live_table_def live_annotations_def dead_ref_def is_ref_def sim_in_use_def Let_def)
  ultimately show ?thesis
    by (simp add: deleted_in_use_def sim_in_use_def sim_mount_pod_def named_def IsPodResourceError_def sim_ready_def zero_defs
        GetMountPathOfPod_def HasRef_def)
qed

lemma sim_in_use_round: "fst (fst (run_state (Run (sim_env [sim_in_use]) sim_config sim_live_table sim_in_use) sim_state)) = None"
proof -
  have "ParseMntPath ''mount.juicefs redis /jfs/pvc'' = Inr (''/jfs/pvc'', ''pvc'')" by code_simp
  note defs = this sim_run_defs handlers_def podDeletedHandler_def IsPodResourceError_def GetMountPathOfPod_def ContainsString_def client_defs
     getPodStatus_def recreate_loop.simps(2) [of 119, simplified] is_ref_def sim_in_use_def umount_source_def os_defs doWithinTime_def
     recreate_of_def
  show ?thesis unfolding Run_def check_in_use [OF sim_deleted_in_use] by (simp add: defs with_lock_def Let_def)
qed


end
