(* ===== verification/VolumeJobs.thy ===== *)
theory VolumeJobs
  imports VolumePaths
begin

text \<open>
  Creating and deleting volumes with formatting in pods: the jobs of pkg/juicefs/mount/pod_mount.go behind the requests of the controller
  service.
\<close>

section \<open>Jobs in the history\<close>

fun is_job_read :: "event \<Rightarrow> bool" where
  "is_job_read (EvJobGet ns n r) \<longleftrightarrow> True"
| "is_job_read e \<longleftrightarrow> False"

abbreviation job_reads :: "history \<Rightarrow> nat" where
  "job_reads h \<equiv> length (filter is_job_read h)"

text \<open>The last event is a read that found the job completed, or gone.\<close>

fun job_over :: "string \<Rightarrow> string \<Rightarrow> history \<Rightarrow> bool" where
  "job_over ns n (EvJobGet ns' n' (Inr j) # h) \<longleftrightarrow> ns' = ns \<and> n' = n \<and> IsJobCompleted j"
| "job_over ns n (EvJobGet ns' n' (Inl e) # h) \<longleftrightarrow> ns' = ns \<and> n' = n \<and> IsNotFound e"
| "job_over ns n h \<longleftrightarrow> False"

text \<open>The shell command of a job's container ends with \<open>work\<close>.\<close>

definition job_runs :: "string \<Rightarrow> job \<Rightarrow> bool" where
  "job_runs work j \<longleftrightarrow> (case ps_containers (job_podSpec j) of
     [] \<Rightarrow> False
   | c # _ \<Rightarrow> \<exists>mount. c_command c = [''sh'', ''-c'', mount @ work])"

text \<open>The job was found, or created to do \<open>work\<close>.\<close>

fun job_there :: "string \<Rightarrow> string \<Rightarrow> string \<Rightarrow> event \<Rightarrow> bool" where
  "job_there ns n work (EvJobGet ns' n' (Inr j)) \<longleftrightarrow> ns' = ns \<and> n' = n"
| "job_there ns n work (EvJobCreate j (Inr j')) \<longleftrightarrow> job_namespace j = ns \<and> job_name j = n \<and> job_runs work j"
| "job_there ns n work e \<longleftrightarrow> False"

definition volume_job :: "string \<Rightarrow> string \<Rightarrow> string \<Rightarrow> 'a outcome \<Rightarrow> history \<Rightarrow> bool" where
  "volume_job ns n work r evs \<longleftrightarrow> (case r of
     Ok _ \<Rightarrow> job_over ns n evs \<and> (\<exists>e \<in> set evs. job_there ns n work e)
   | Err _ \<Rightarrow> job_reads evs < 2 \<or> (\<exists>d h. evs = EvJobDelete ns n d # h)
   | Panic _ \<Rightarrow> job_reads evs = 61)"

lemma job_over_append: "job_over ns n evs \<Longrightarrow> job_over ns n (evs @ h)"
  by (cases "(ns, n, evs)" rule: job_over.cases) auto

lemma GetJob_does: "does (GetJob E n ns) (\<lambda>r evs. evs = [EvJobGet ns n r])"
  unfolding GetJob_def by (rule does_call) simp

lemma wait_does:
  "does (waitUtilJobCompleted_loop k E C n) (\<lambda>r evs. case r of
     Ok _ \<Rightarrow> job_over (Namespace C) n evs | Err _ \<Rightarrow> True | Panic _ \<Rightarrow> job_reads evs = k)"
proof (induction k)
  case 0
  have quiet: "emits (\<lambda>e. \<not> is_job_read e) (waitUtilJobCompleted_loop 0 E C n)"
    by (auto simp: getNotCompleteCnLog_def first_log_def intro!: emits_intros split: sum.splits list.splits if_splits)
  have "\<And>s. wp (waitUtilJobCompleted_loop 0 E C n) (\<lambda>r _. r \<noteq> Ok ()) s"
    unfolding waitUtilJobCompleted_loop.simps wp_bind
    by (rule wp_any) (auto simp: wp_simps getNotCompleteCnLog_def first_log_def split_beta client_defs split: sum.splits list.splits option.splits)
  then show ?case
    by (rule does_mono [OF does_result [OF _ does_emits [OF quiet]]]) (auto simp: filter_empty_conv split: outcome.splits)
next
  case (Suc k)
  have sleep: "does (Sleep d) (\<lambda>_ evs. evs = [EvSleep d])" for d
    unfolding Sleep_def emit_def by (rule does_call) simp
  have again: "does (do { Sleep 500000000; waitUtilJobCompleted_loop k E C n }) (\<lambda>r evs. case r of
      Ok _ \<Rightarrow> job_over (Namespace C) n evs | Err _ \<Rightarrow> True | Panic _ \<Rightarrow> job_reads evs = k)"
    by (rule does_bind [OF sleep], rule does_mono [OF Suc]) (auto simp: job_over_append split: outcome.splits)
  show ?case
    unfolding waitUtilJobCompleted_loop.simps
    by (rule does_bind [OF GetJob_does])
      (auto intro!: does_mono [OF again] simp: job_over_append split: sum.splits outcome.splits)
qed

lemma CreateJob_does:
  assumes "job_namespace job = Namespace C" "job_runs work job"
  shows "does (CreateJob E (Some job)) (\<lambda>(ex, err) evs. job_reads evs = 0 \<and>
      (err = None \<longrightarrow> ex \<noteq> None \<and> (\<exists>e \<in> set evs. job_there (Namespace C) (job_name job) work e)))"
  unfolding CreateJob_def
  by (simp, rule does_bind [OF does_call [where Q = "\<lambda>r evs. evs = [EvJobCreate job r]"]]) (use assms in \<open>auto split: sum.splits\<close>)

text \<open>The end of a volume request: the wait for the job, and its deletion after an error.\<close>

lemma wait_or_delete_does:
  assumes "job_reads h = 1" "\<exists>e \<in> set h. job_there (Namespace C) n work e"
  shows "does (do {
      w \<leftarrow> waitUtilJobCompleted E C n;
      (case w of
         Ok _ \<Rightarrow> State_Monad.return (Ok ())
       | Panic m \<Rightarrow> State_Monad.return (Panic m)
       | Err e \<Rightarrow> do { _ \<leftarrow> DeleteJob E n (Namespace C); State_Monad.return (Err e) })
    }) (\<lambda>r evs. volume_job (Namespace C) n work r (evs @ h))"
  unfolding waitUtilJobCompleted_def
proof (rule does_bind [OF wait_does], goal_cases)
  case (1 w evs)
  have delete: "does (DeleteJob E n (Namespace C)) (\<lambda>_ evs. \<exists>d. evs = [EvJobDelete (Namespace C) n d])"
    unfolding DeleteJob_def by (rule does_call) simp
  from 1 assms show ?case
    by (cases w) (auto simp: volume_job_def job_over_append intro!: does_bind [OF delete])
qed

lemma run_volume_job_does:
  assumes "retry_documented E" "job_namespace job = Namespace C" "job_runs work job"
  shows "does (run_volume_job E C job js) (volume_job (Namespace C) (job_name job) work)"
proof -
  let ?ns = "Namespace C" and ?n = "job_name job"
  have secret: "does (createOrUpdateSecret E C sec) (\<lambda>_ evs. \<forall>e \<in> set evs. \<not> is_job_read e)" for sec
    by (rule does_emits) (auto simp: createOrUpdateSecret_def intro!: emits_intros assms(1) split: sum.splits)
  show ?thesis
    unfolding run_volume_job_def assms(2)
  proof (rule does_bind [OF GetJob_does], goal_cases)
    case (1 r evs)
    have found: "does (case r of
         Inr j \<Rightarrow> State_Monad.return (Some j, None)
       | Inl e \<Rightarrow> if IsNotFound e then CreateJob E (Some job) else State_Monad.return (None, Some e))
      (\<lambda>(ex, err) evs'. job_reads (evs' @ evs) = 1 \<and> (err = None \<longrightarrow> ex \<noteq> None \<and> (\<exists>e \<in> set (evs' @ evs). job_there ?ns ?n work e)))"
      using 1 by (auto intro!: does_mono [OF CreateJob_does [OF assms(2,3)]] split: sum.splits)
    show ?case
    proof (rule does_bind [OF found], clarsimp, goal_cases)
      case (1 ex err evs')
      show ?case
      proof (cases err)
        case None
        with 1 obtain j where j: "ex = Some j" and there: "\<exists>e \<in> set (evs' @ evs). job_there ?ns ?n work e" by auto
        show ?thesis
          unfolding None j option.case
        proof (rule does_bind [OF secret], goal_cases)
          case (1 err2 evs'')
          then have "job_reads (evs'' @ evs' @ evs) = 1" "\<exists>e \<in> set (evs'' @ evs' @ evs). job_there ?ns ?n work e"
            using \<open>job_reads _ + _ = _\<close> there by (auto simp: filter_empty_conv)
          then show ?case
            using wait_or_delete_does [of "evs'' @ evs' @ evs" C ?n work E] by (cases err2) (auto simp: volume_job_def)
        qed
      qed (use 1 in \<open>simp add: volume_job_def\<close>)
    qed
  qed
qed

section \<open>The requests\<close>

definition create_work :: "string \<Rightarrow> string" where
  "create_work dir = '' && if [ ! -d /mnt/jfs/'' @ dir @ '' ]; then mkdir -m 777 /mnt/jfs/'' @ dir @ ''; fi;''"

definition delete_work :: "string \<Rightarrow> string \<Rightarrow> string" where
  "delete_work cli dir = '' && if [ -d /mnt/jfs/'' @ dir @ '' ]; then '' @ cli @ '' rmr /mnt/jfs/'' @ dir @ ''; fi;''"

lemma newJob_does:
  "does (newJob E C js jobName) (\<lambda>(j, js') evs. job_name j = jobName \<and> job_namespace j = Namespace C \<and> ps_containers (job_podSpec j) \<noteq> [] \<and>
     js_SubPath js' = js_SubPath js \<and> js_IsCe js' = js_IsCe js \<and> job_reads evs = 0)"
proof -
  have "does (Range E m) (\<lambda>_ evs. job_reads evs = 0)" for m
    by (rule does_mono [OF does_emits [where P = "\<lambda>e. \<not> is_job_read e"]]) (auto simp: filter_empty_conv intro!: emits_intros)
  then have "does (generateJuicePod E C js) (\<lambda>p evs. ps_containers (p_spec p) \<noteq> [] \<and> job_reads evs = 0)" for js
    unfolding generateJuicePod_def Let_def
    by (rule does_bind) (auto simp: upd_container0_def GeneratePodTemplate_def)
  then show ?thesis
    unfolding newJob_def Let_def
    by (rule does_bind) (auto simp: upd_container0_def split: list.splits)
qed

lemma volume_job_later: "volume_job ns n work r evs \<Longrightarrow> job_reads h = 0 \<Longrightarrow> volume_job ns n work r (evs @ h)"
  by (auto simp: volume_job_def job_over_append split: outcome.splits)

lemma volume_job_early: "job_reads evs = 0 \<Longrightarrow> volume_job ns n work (Err e) evs"
  by (simp add: volume_job_def)

lemma set_job_command_sel: "job_name (set_job_command cmd j) = job_name j" "job_namespace (set_job_command cmd j) = job_namespace j"
  by (simp_all add: set_job_command_def)

lemma set_job_command_runs: "ps_containers (job_podSpec j) \<noteq> [] \<Longrightarrow> job_runs work (set_job_command (cmd @ work) j)"
  by (auto simp: job_runs_def set_job_command_def upd_container0_def split: list.splits)

lemma volume_cmds:
  "getCreateVolumeCmd js = getJobCommand js @ create_work (js_SubPath js)"
  "getDeleteVolumeCmd js = getJobCommand js @ delete_work (if js_IsCe js then CeCliPath else CliPath) (js_SubPath js)"
  by (simp_all add: getCreateVolumeCmd_def getDeleteVolumeCmd_def create_work_def delete_work_def Let_def)

lemma JVolume_does:
  assumes "retry_documented E"
  shows "does (JCreateVolume E C js) (volume_job (Namespace C) (GenJobNameByVolumeId (js_VolumeId js) @ ''-createvol'') (create_work (js_SubPath js)))"
    and "does (JDeleteVolume E C js) (volume_job (Namespace C) (GenJobNameByVolumeId (js_VolumeId js) @ ''-delvol'')
      (delete_work (if js_IsCe js then CeCliPath else CliPath) (js_SubPath js)))"
proof -
  have run: "does (run_volume_job E C (set_job_command (cmd @ work) j) js') (\<lambda>r evs'. volume_job (Namespace C) n work r (evs' @ evs))"
    if "job_name j = n" "job_namespace j = Namespace C" "ps_containers (job_podSpec j) \<noteq> []" "job_reads evs = 0" for cmd work j js' evs n
    by (rule does_mono [OF run_volume_job_does [OF assms, of "set_job_command (cmd @ work) j" C work, unfolded set_job_command_sel]])
      (use that in \<open>simp_all add: set_job_command_runs volume_job_later\<close>)
  show "does (JCreateVolume E C js) (volume_job (Namespace C) (GenJobNameByVolumeId (js_VolumeId js) @ ''-createvol'') (create_work (js_SubPath js)))"
    unfolding JCreateVolume_def NewJobForCreateVolume_def State_Monad.bind_assoc
    by (rule does_bind [OF newJob_does]) (auto simp: volume_cmds intro!: run)
  show "does (JDeleteVolume E C js) (volume_job (Namespace C) (GenJobNameByVolumeId (js_VolumeId js) @ ''-delvol'')
      (delete_work (if js_IsCe js then CeCliPath else CliPath) (js_SubPath js)))"
    unfolding JDeleteVolume_def NewJobForDeleteVolume_def State_Monad.bind_assoc
    by (rule does_bind [OF newJob_does]) (auto simp: volume_cmds intro!: run)
qed

lemma getSettings_no_job: "emits (\<lambda>e. \<not> is_job_read e) (getSettings E C Y volumeID target secrets volCtx options)"
  unfolding getSettings_def AuthFs_def ceFormat_def write_initconfig_def setting_envs_def Let_def auth_args_def format_args_def
  by (intro emits_intros; simp)

lemma getSettings_ready:
  "does (getSettings E C Y volumeID target secrets volCtx options) (\<lambda>r evs.
     (\<forall>js. r = Inr js \<longrightarrow> js_VolumeId js = volumeID) \<and> job_reads evs = 0)"
  by (rule does_mono [OF does_result [OF getSettings_fields does_emits [OF getSettings_no_job]]])
    (auto simp: request_fields_def filter_empty_conv)

lemma JfsVol_does:
  assumes "retry_documented E" "FormatInPod C" "\<not> ByProcess C"
  shows "does (JfsCreateVol E C Y v dir secrets) (volume_job (Namespace C) (''juicefs-'' @ v @ ''-createvol'') (create_work dir))"
    and "does (JfsDeleteVol E C Y v dir secrets) (\<lambda>r evs. \<exists>cli \<in> {CeCliPath, CliPath}.
      volume_job (Namespace C) (''juicefs-'' @ v @ ''-delvol'') (delete_work cli dir) r evs)"
proof -
  have pm: "pod_mount C m = m" for m :: "unit outcome prog" using assms(3) by (simp add: pod_mount_def)
  have create: "does (JCreateVolume E C js) (\<lambda>r evs'. volume_job (Namespace C) (''juicefs-'' @ v @ ''-createvol'') (create_work dir) r (evs' @ evs))"
    if "js_VolumeId js = v" "js_SubPath js = dir" "job_reads evs = 0" for js evs
    by (rule does_mono [OF JVolume_does(1) [OF assms(1)]]) (use that in \<open>simp add: volume_job_later GenJobNameByVolumeId_def\<close>)
  have delete: "does (JDeleteVolume E C js) (\<lambda>r evs'. \<exists>cli \<in> {CeCliPath, CliPath}.
      volume_job (Namespace C) (''juicefs-'' @ v @ ''-delvol'') (delete_work cli dir) r (evs' @ evs))"
    if "js_VolumeId js = v" "js_SubPath js = dir" "job_reads evs = 0" for js evs
    by (rule does_mono [OF JVolume_does(2) [OF assms(1)]]) (use that in \<open>auto simp: volume_job_later GenJobNameByVolumeId_def split: if_splits\<close>)
  show "does (JfsCreateVol E C Y v dir secrets) (volume_job (Namespace C) (''juicefs-'' @ v @ ''-createvol'') (create_work dir))"
    unfolding JfsCreateVol_def Let_def pm
    by (rule does_bind [OF getSettings_ready]) (use assms(2) in \<open>auto intro!: create [simplified] volume_job_early split: sum.splits\<close>)
  show "does (JfsDeleteVol E C Y v dir secrets) (\<lambda>r evs. \<exists>cli \<in> {CeCliPath, CliPath}.
      volume_job (Namespace C) (''juicefs-'' @ v @ ''-delvol'') (delete_work cli dir) r evs)"
    unfolding JfsDeleteVol_def Let_def pm
    by (rule does_bind [OF getSettings_ready]) (use assms(2) in \<open>auto intro!: delete [simplified] volume_job_early split: sum.splits\<close>)
qed

text \<open>
  C8: outside process mode with formatting in pods, \<^verbatim>\<open>CreateVolume\<close> and \<^verbatim>\<open>DeleteVolume\<close> do their work by a job named after the volume and
  the operation. A request that succeeds found the job or created it with the command for the volume's own directory, and its last call read the job as completed, or
  as gone; one that fails after it began to wait has requested the deletion of the job last; one that panics has read the job 61 times.
\<close>

theorem volume_requests_run_jobs:
  assumes "retry_documented E" "FormatInPod C" "\<not> ByProcess C"
  shows "(case run_state (CreateVolume E C Y vols req) s of ((r, _), s') \<Rightarrow> \<exists>evs. hist s' = evs @ hist s \<and>
       volume_job (Namespace C) (''juicefs-'' @ cr_name req @ ''-createvol'') (create_work (cr_name req)) r evs) \<and>
     (case run_state (DeleteVolume E C Y vols v secrets) s of ((r, _), s') \<Rightarrow> \<exists>evs cli. hist s' = evs @ hist s \<and> cli \<in> {CeCliPath, CliPath} \<and>
       volume_job (Namespace C) (''juicefs-'' @ v @ ''-delvol'') (delete_work cli v) r evs)"
proof -
  have "does (CreateVolume E C Y vols req) (\<lambda>(r, _). volume_job (Namespace C) (''juicefs-'' @ cr_name req @ ''-createvol'') (create_work (cr_name req)) r)"
    unfolding CreateVolume_def Let_def
    by (auto simp: volume_job_early intro!: does_bind [OF JfsVol_does(1) [OF assms]]) (auto simp: volume_job_def split: outcome.splits)
  moreover have "does (DeleteVolume E C Y vols v secrets) (\<lambda>(r, _) evs. \<exists>cli \<in> {CeCliPath, CliPath}.
      volume_job (Namespace C) (''juicefs-'' @ v @ ''-delvol'') (delete_work cli v) r evs)"
    unfolding DeleteVolume_def
    by (auto simp: volume_job_early intro!: does_bind [OF JfsVol_does(2) [OF assms]]) (auto simp: volume_job_def split: outcome.splits)
  ultimately show ?thesis by (auto split: prod.split elim!: does_run)
qed

definition sim_job_env :: env where
  "sim_job_env = (sim_env [])\<lparr>k_job_get := \<lambda>h ns n. Inl (ApiError NotFound), k_job_create := \<lambda>h j. Inr j\<rparr>"

lemma sim_job_retry: "retry_documented sim_job_env"
  by (auto simp: retry_documented_def sim_job_env_def sim_env_def)

lemma sim_job_ok:
  "fst (fst (run_state (DeleteVolume sim_job_env (sim_config\<lparr>FormatInPod := True\<rparr>) sim_decoders [] ''pvc'' (Some [(''name'', ''test'')])) sim_state)) = Ok ()"
  by (simp add: DeleteVolume_def JfsDeleteVol_def JDeleteVolume_def NewJobForDeleteVolume_def newJob_def generateJuicePod_def run_volume_job_def
      waitUtilJobCompleted_def waitUtilJobCompleted_loop.simps(2) [of 59, simplified] createOrUpdateSecret_def client_defs publish_defs sim_run_defs
      sim_decoders_def mhas_def mindex_def Contains_def HasPrefix_def Let_def sim_job_env_def set_job_command_def)

theorem volume_requests_run_jobs_witness:
  "\<exists>cli. volume_job ''kube-system'' ''juicefs-pvc-delvol'' (delete_work cli ''pvc'') (Ok ())
     (hist (snd (run_state (DeleteVolume sim_job_env (sim_config\<lparr>FormatInPod := True\<rparr>) sim_decoders [] ''pvc'' (Some [(''name'', ''test'')])) sim_state)))"
proof -
  let ?C = "sim_config\<lparr>FormatInPod := True\<rparr>"
  let ?m = "DeleteVolume sim_job_env ?C sim_decoders [] ''pvc'' (Some [(''name'', ''test'')])"
  have C: "FormatInPod ?C" "\<not> ByProcess ?C" "Namespace ?C = ''kube-system''" by (simp_all add: sim_config_def)
  obtain vols t where run: "run_state ?m sim_state = ((Ok (), vols), t)" using sim_job_ok by (metis prod.collapse)
  from volume_requests_run_jobs [OF sim_job_retry C(1,2), where Y = sim_decoders and vols = "[]" and req = "sim_create 10" and s = sim_state and v = "''pvc''" and secrets = "Some [(''name'', ''test'')]"]
  show ?thesis unfolding run C(3) by (auto simp: sim_state_def)
qed

end
