(* ===== verification/ShellWords.thy ===== *)
theory ShellWords
  imports Builder
begin

text \<open>
  The command strings that the builder hands to \<^verbatim>\<open>sh -c\<close> (pkg/juicefs/mount/builder, util.QuoteForShell), read back by the rules of the shell.
\<close>

section \<open>The words of a simple command\<close>

text \<open>
  How a POSIX shell splits a line of unquoted characters, blanks and backslashes: a backslash makes the next character literal, and with a newline it is
  removed. Characters that are operators, quotes, or subject to expansion are outside this fragment (\<open>None\<close>).
\<close>

definition sh_special :: string where
  "sh_special = ''|&;<>()$`*?[]{}#~!'' @ [CHR 0x22, CHR 0x27, CHR 0x5C, CHR 0x20, CHR 0x09, CHR 0x0A]"

abbreviation sh_inert :: "char \<Rightarrow> bool" where
  "sh_inert c \<equiv> c \<notin> set sh_special"

fun sh_lex :: "string option \<Rightarrow> string \<Rightarrow> string list option" where
  "sh_lex w [] = Some (case w of None \<Rightarrow> [] | Some x \<Rightarrow> [x])"
| "sh_lex w (c # s) =
     (if c = CHR 0x5C then
        (case s of
           [] \<Rightarrow> None
         | d # s' \<Rightarrow> if d = CHR 0x0A then sh_lex w s' else sh_lex (Some (case_option [] id w @ [d])) s')
      else if c = CHR '' '' then
        (case w of None \<Rightarrow> sh_lex None s | Some x \<Rightarrow> map_option (Cons x) (sh_lex None s))
      else if sh_inert c then sh_lex (Some (case_option [] id w @ [c])) s
      else None)"

definition sh_words :: "string \<Rightarrow> string list option" where
  "sh_words s = sh_lex None s"

text \<open>A word that \<^verbatim>\<open>QuoteForShell\<close> protects: parentheses are its only special characters.\<close>

definition quotable :: "string \<Rightarrow> bool" where
  "quotable w \<longleftrightarrow> (\<forall>c \<in> set w. sh_inert c \<or> c \<in> {CHR ''('', CHR '')''})"

lemma sh_lex_quoted:
  "quotable w \<Longrightarrow> w \<noteq> [] \<Longrightarrow> sh_lex v (QuoteForShell w @ s) = sh_lex (Some (case_option [] id v @ w)) s"
proof (induction w arbitrary: v)
  case (Cons c w)
  have step: "sh_lex v (quote_char c @ t) = sh_lex (Some (case_option [] id v @ [c])) t" for t
    using Cons.prems(1) by (auto simp: quotable_def quote_char_def sh_special_def)
  have split: "QuoteForShell (c # w) @ s = quote_char c @ QuoteForShell w @ s" by (simp add: QuoteForShell_eq)
  show ?case
  proof (cases "w = []")
    case True
    then show ?thesis unfolding split step by (simp add: QuoteForShell_eq)
  next
    case False
    have "quotable w" using Cons.prems(1) by (simp add: quotable_def)
    from Cons.IH [OF this False] show ?thesis unfolding split step by simp
  qed
qed simp

lemma sh_words_join:
  "ws \<noteq> [] \<Longrightarrow> \<forall>w \<in> set ws. quotable w \<and> w \<noteq> [] \<Longrightarrow> sh_words (QuoteForShell (Join ws '' '')) = Some ws"
proof (induction ws)
  case (Cons w ws)
  show ?case
  proof (cases "ws = []")
    case True
    then show ?thesis using Cons.prems sh_lex_quoted [of w None "[]"] by (simp add: sh_words_def)
  next
    case False
    have "QuoteForShell (Join (w # ws) '' '') = QuoteForShell w @ CHR '' '' # QuoteForShell (Join ws '' '')"
      using False by (simp add: Join_Cons QuoteForShell_space)
    with Cons False show ?thesis by (simp add: sh_words_def sh_lex_quoted)
  qed
qed simp

lemma quotable_simps: "quotable []" "quotable (c # w) \<longleftrightarrow> (sh_inert c \<or> c \<in> {CHR ''('', CHR '')''}) \<and> quotable w"
  "quotable (v @ w) \<longleftrightarrow> quotable v \<and> quotable w"
  by (auto simp: quotable_def)

lemma sh_inert_comma: "sh_inert (CHR '','')"
  by (simp add: sh_special_def)

lemma quotable_Join: "\<forall>x \<in> set os. quotable x \<Longrightarrow> quotable (Join os '','')"
proof (induction os)
  case (Cons x xs)
  then show ?case by (cases "xs = []") (simp_all add: Join_Cons sh_inert_comma quotable_simps)
qed (simp add: quotable_simps)


lemma Join_empty: "\<exists>x \<in> set os. x \<noteq> [] \<Longrightarrow> Join os sep \<noteq> []"
proof (induction os)
  case (Cons x xs)
  then show ?case by (cases "xs = []") (auto simp: Join_Cons)
qed simp



text \<open>Any other special character goes through unquoted.\<close>

lemma unquoted_operator: "sh_words (QuoteForShell ''a;b'') = None" "QuoteForShell ''a;b'' = ''a;b''"
  by code_simp+

end
