(* ===== verification/VersionJson.thy ===== *)
theory VersionJson
  imports GoUrl
begin

text \<open>
  pkg/driver/version.go: the build variables, and the JSON that \<^verbatim>\<open>--version\<close> prints. The strings of \<^verbatim>\<open>encoding/json\<close> are
  modelled as Go 1.16 writes them, byte by byte; a reader of JSON strings (RFC 8259) is the reference.
\<close>

section \<open>UTF-8\<close>

definition byte :: "char \<Rightarrow> nat" where
  "byte c = of_char c"

abbreviation cont :: "nat \<Rightarrow> nat \<Rightarrow> nat \<Rightarrow> bool" where
  "cont lo hi b \<equiv> lo \<le> b \<and> b \<le> hi"

text \<open>
  \<^verbatim>\<open>utf8.DecodeRune\<close> on a string that starts with a byte of at least 128: the rune and its width, \<open>None\<close> for \<^verbatim>\<open>(RuneError, 1)\<close> of
  an invalid encoding.
\<close>

definition decode_rune :: "string \<Rightarrow> (nat \<times> nat) option" where
  "decode_rune s =
     (case map byte (take 4 s) of
        b0 # b1 # r \<Rightarrow>
          if cont 0xC2 0xDF b0 then (if cont 0x80 0xBF b1 then Some ((b0 - 0xC0) * 64 + (b1 - 0x80), 2) else None)
          else if cont 0xE0 0xEF b0 then
            (case r of
               b2 # _ \<Rightarrow>
                 if cont (if b0 = 0xE0 then 0xA0 else 0x80) (if b0 = 0xED then 0x9F else 0xBF) b1 \<and> cont 0x80 0xBF b2
                 then Some ((b0 - 0xE0) * 4096 + (b1 - 0x80) * 64 + (b2 - 0x80), 3) else None
             | [] \<Rightarrow> None)
          else if cont 0xF0 0xF4 b0 then
            (case r of
               b2 # b3 # _ \<Rightarrow>
                 if cont (if b0 = 0xF0 then 0x90 else 0x80) (if b0 = 0xF4 then 0x8F else 0xBF) b1 \<and> cont 0x80 0xBF b2 \<and> cont 0x80 0xBF b3
                 then Some ((b0 - 0xF0) * 262144 + (b1 - 0x80) * 4096 + (b2 - 0x80) * 64 + (b3 - 0x80), 4) else None
             | _ \<Rightarrow> None)
          else None
      | _ \<Rightarrow> None)"

definition hex_digit :: "nat \<Rightarrow> char" where
  "hex_digit n = ''0123456789abcdef'' ! n"

section \<open>Strings in JSON\<close>

text \<open>\<^verbatim>\<open>htmlSafeSet\<close>.\<close>

definition htmlSafe :: "char \<Rightarrow> bool" where
  "htmlSafe c \<longleftrightarrow> 32 \<le> byte c \<and> byte c < 128 \<and> byte c \<noteq> 34 \<and> c \<notin> set ''&<>'' \<and> byte c \<noteq> 92"

text \<open>\<^verbatim>\<open>encodeState.string\<close> with \<^verbatim>\<open>escapeHTML\<close>, without the quotes.\<close>

function json_body :: "string \<Rightarrow> string" where
  "json_body [] = []"
| "json_body (c # s) =
     (if byte c < 128 then
        (if htmlSafe c then [c]
         else if byte c = 34 \<or> byte c = 92 then [CHR 92, c]
         else if byte c = 10 then [CHR 92, CHR ''n'']
         else if byte c = 13 then [CHR 92, CHR ''r'']
         else if byte c = 9 then [CHR 92, CHR ''t'']
         else [CHR 92, CHR ''u'', CHR ''0'', CHR ''0'', hex_digit (byte c div 16), hex_digit (byte c mod 16)]) @ json_body s
      else
        (case decode_rune (c # s) of
           None \<Rightarrow> CHR 92 # ''ufffd'' @ json_body s
         | Some (r, n) \<Rightarrow>
             (if r = 0x2028 \<or> r = 0x2029 then CHR 92 # ''u202'' @ [hex_digit (r mod 16)] else take n (c # s)) @
             json_body (drop (n - 1) s)))"
  by pat_completeness auto
termination by (relation "measure length") (auto simp: less_Suc_eq_le)

fun utf8_valid :: "nat \<Rightarrow> string \<Rightarrow> bool" where
  "utf8_valid _ [] \<longleftrightarrow> True"
| "utf8_valid (Suc k) (c # s) \<longleftrightarrow> utf8_valid k s"
| "utf8_valid 0 (c # s) \<longleftrightarrow>
     (if byte c < 128 then utf8_valid 0 s
      else (case decode_rune (c # s) of None \<Rightarrow> False | Some (r, n) \<Rightarrow> utf8_valid (n - 1) s))"

abbreviation valid_utf8 :: "string \<Rightarrow> bool" where
  "valid_utf8 \<equiv> utf8_valid 0"

lemma utf8_valid_drop: "k \<le> length s \<Longrightarrow> utf8_valid k s \<longleftrightarrow> valid_utf8 (drop k s)"
  by (induction k arbitrary: s) (auto simp: Suc_le_length_iff)

text \<open>The reference: a JSON string after its opening quote, and what follows the closing one. Surrogate pairs are not read.\<close>

definition utf8_encode :: "nat \<Rightarrow> string" where
  "utf8_encode n = map char_of
     (if n < 128 then [n]
      else if n < 2048 then [0xC0 + n div 64, 0x80 + n mod 64]
      else [0xE0 + n div 4096, 0x80 + n div 64 mod 64, 0x80 + n mod 64])"

definition hex4 :: "string \<Rightarrow> nat option" where
  "hex4 s = (case map unhex s of [Some a, Some b, Some c, Some d] \<Rightarrow> Some (((a * 16 + b) * 16 + c) * 16 + d) | _ \<Rightarrow> None)"

definition escapes :: "(char \<times> nat) list" where
  "escapes = [(CHR 34, 34), (CHR 92, 92), (CHR ''/'', 47), (CHR ''b'', 8), (CHR ''f'', 12), (CHR ''n'', 10), (CHR ''r'', 13), (CHR ''t'', 9)]"

definition before :: "string \<Rightarrow> (string \<times> string) option \<Rightarrow> (string \<times> string) option" where
  "before t = map_option (\<lambda>(x, rest). (t @ x, rest))"

fun read_string :: "string \<Rightarrow> (string \<times> string) option" where
  "read_string [] = None"
| "read_string (c # s) =
     (if byte c = 34 then Some ([], s)
      else if byte c < 32 then None
      else if byte c \<noteq> 92 then before [c] (read_string s)
      else (case s of
              [] \<Rightarrow> None
            | e # s1 \<Rightarrow>
                (case map_of escapes e of
                   Some n \<Rightarrow> before [char_of n] (read_string s1)
                 | None \<Rightarrow>
                     if e \<noteq> CHR ''u'' then None
                     else (case s1 of
                             a # b # x # d # s2 \<Rightarrow>
                               (case hex4 [a, b, x, d] of
                                  Some n \<Rightarrow> if 0xD800 \<le> n \<and> n < 0xE000 then None else before (utf8_encode n) (read_string s2)
                                | None \<Rightarrow> None)
                           | _ \<Rightarrow> None))))"

lemma before_simps [simp]: "before t None = None" "before t (Some (x, r)) = Some (t @ x, r)"
  by (simp_all add: before_def)

lemma before_before: "before a (before b r) = before (a @ b) r"
  by (cases r) auto

lemma char_of_byte [simp]: "char_of (byte c) = c"
  by (simp add: byte_def)

lemma byte_char_of [simp]: "n < 256 \<Longrightarrow> byte (char_of n) = n"
  by (simp add: byte_def of_char_mod_256)

lemma byte_less: "byte c < 256"
  by (simp add: byte_def)

lemma byte_eq_iff: "n < 256 \<Longrightarrow> byte c = n \<longleftrightarrow> c = char_of n"
  by auto

lemma read_high: "\<forall>c \<in> set t. 128 \<le> byte c \<Longrightarrow> read_string (t @ s) = before t (read_string s)"
proof (induction t)
  case (Cons c t)
  then show ?case by (simp add: before_before)
qed (cases "read_string s", auto)

lemma unhex_hex_digit: "n < 16 \<Longrightarrow> unhex (hex_digit n) = Some n"
proof -
  have "\<forall>n < 16. unhex (hex_digit n) = Some n" by code_simp
  then show "n < 16 \<Longrightarrow> ?thesis" by simp
qed

text \<open>The bytes of a valid encoding, and the two separators that are escaped.\<close>

lemma byte_offset: "cont lo hi b \<Longrightarrow> \<exists>x. b = lo + x \<and> x \<le> hi - lo" for lo hi b :: nat
  by (rule exI [of _ "b - lo"]) auto

lemma decode_rune_cases:
  assumes "decode_rune s = Some (r, n)"
  obtains (two) b0 b1 t where "s = b0 # b1 # t" "n = 2" "128 \<le> byte b0" "128 \<le> byte b1" "r < 2048"
  | (three) b0 b1 b2 t x y z where "s = b0 # b1 # b2 # t" "n = 3" "byte b0 = 0xE0 + x" "byte b1 = 0x80 + y" "byte b2 = 0x80 + z"
      "y < 64" "z < 64" "r = x * 4096 + y * 64 + z"
  | (four) b0 b1 b2 b3 t where "s = b0 # b1 # b2 # b3 # t" "n = 4" "128 \<le> byte b0" "128 \<le> byte b1" "128 \<le> byte b2" "128 \<le> byte b3"
      "0x10000 \<le> r"
proof -
  obtain b0 b1 t where s: "s = b0 # b1 # t"
    using assms by (cases s; cases "tl s") (auto simp: decode_rune_def)
  consider "cont 0xC2 0xDF (byte b0)" | "cont 0xE0 0xEF (byte b0)" | "cont 0xF0 0xF4 (byte b0)"
    using assms unfolding s decode_rune_def by (auto split: if_splits)
  then show ?thesis
  proof cases
    case 1
    with assms s have b: "cont 0x80 0xBF (byte b1)" and r: "r = (byte b0 - 0xC0) * 64 + (byte b1 - 0x80)" "n = 2"
      by (simp_all add: decode_rune_def split: if_splits)
    have "byte b0 - 0xC0 \<le> 31" "byte b1 - 0x80 \<le> 63" using 1 b by auto
    then have "r < 2048" unfolding r by linarith
    then show ?thesis using 1 b by (intro two [OF s r(2)]) auto
  next
    case 2
    with assms obtain b2 t' where t: "t = b2 # t'" unfolding s decode_rune_def by (cases t) auto
    with assms s 2 have b: "cont 0x80 0xBF (byte b1)" "cont 0x80 0xBF (byte b2)" and n: "n = 3"
        and r: "r = (byte b0 - 0xE0) * 4096 + (byte b1 - 0x80) * 64 + (byte b2 - 0x80)"
      by (simp_all add: decode_rune_def split: if_splits)
    obtain x y z where xyz: "byte b0 = 0xE0 + x" "byte b1 = 0x80 + y" "byte b2 = 0x80 + z" "y < 64" "z < 64"
      using byte_offset [OF 2] byte_offset [OF b(1)] byte_offset [OF b(2)] by auto
    show ?thesis by (rule three [OF s [unfolded t] n xyz(1-5)]) (use r xyz in simp)
  next
    case 3
    with assms obtain b2 b3 t' where t: "t = b2 # b3 # t'" unfolding s decode_rune_def by (cases t; cases "tl t") auto
    with assms s 3 have b: "cont (if byte b0 = 0xF0 then 0x90 else 0x80) 0xBF (byte b1)" "cont 0x80 0xBF (byte b2)" "cont 0x80 0xBF (byte b3)"
        and n: "n = 4" and r: "r = (byte b0 - 0xF0) * 262144 + (byte b1 - 0x80) * 4096 + (byte b2 - 0x80) * 64 + (byte b3 - 0x80)"
      by (simp_all add: decode_rune_def split: if_splits)
    have "1 \<le> byte b0 - 0xF0 \<or> 16 \<le> byte b1 - 0x80" using 3 b(1) by (cases "byte b0 = 0xF0") auto
    then have "0x10000 \<le> r" unfolding r by auto
    then show ?thesis using 3 b by (intro four [OF s [unfolded t] n]) (auto split: if_splits)
  qed
qed

lemma decode_rune_bytes:
  assumes "decode_rune s = Some (r, n)"
  shows "2 \<le> n \<and> n \<le> length s \<and> (\<forall>x \<in> set (take n s). 128 \<le> byte x)"
  using assms by (cases rule: decode_rune_cases) auto

lemma decode_rune_separator:
  assumes "decode_rune s = Some (r, n)" "r = 0x2028 \<or> r = 0x2029"
  shows "take n s = map char_of [0xE2, 0x80, r - 0x1F80]"
  using assms(1)
proof (cases rule: decode_rune_cases)
  case (three b0 b1 b2 t x y z)
  have "x * 4096 \<le> 8233" "8232 < x * 4096 + 64 * 64" using three(6-8) assms(2) by linarith+
  then have x: "x = 2" by linarith
  have "y * 64 \<le> 41" using three(6-8) assms(2) x by linarith
  then have y: "y = 0" by linarith
  have "byte b0 = 0xE2" "byte b1 = 0x80" "byte b2 = r - 0x1F80" using three(3-5,8) x y by simp_all
  then have "[b0, b1, b2] = map char_of [0xE2, 0x80, r - 0x1F80]" by (metis (no_types) char_of_byte list.map)
  then show ?thesis using three(1,2) by simp
qed (use assms(2) in auto)

lemma utf8_encode_separator: "r = 0x2028 \<or> r = 0x2029 \<Longrightarrow> utf8_encode r = map char_of [0xE2, 0x80, r - 0x1F80]"
proof -
  have "utf8_encode 0x2028 = map char_of [0xE2, 0x80, 0x2028 - 0x1F80 :: nat]" "utf8_encode 0x2029 = map char_of [0xE2, 0x80, 0x2029 - 0x1F80 :: nat]"
    by (simp_all add: utf8_encode_def)
  then show "r = 0x2028 \<or> r = 0x2029 \<Longrightarrow> ?thesis" by (elim disjE) (simp_all only:)
qed

lemma hex4_low: "n < 256 \<Longrightarrow> hex4 [CHR ''0'', CHR ''0'', hex_digit (n div 16), hex_digit (n mod 16)] = Some n"
proof -
  have "unhex CHR ''0'' = Some 0" by code_simp
  then show "n < 256 \<Longrightarrow> ?thesis" by (simp add: hex4_def unhex_hex_digit less_mult_imp_div_less)
qed

lemma read_unicode:
  assumes "hex4 [a, b, x, d] = Some n" "n < 0xD800"
  shows "read_string (CHR 92 # CHR ''u'' # a # b # x # d # s) = before (utf8_encode n) (read_string s)"
  using assms by (simp add: byte_def escapes_def)

lemma read_escape: "map_of escapes e = Some n \<Longrightarrow> read_string (CHR 92 # e # s) = before [char_of n] (read_string s)"
  by (simp add: byte_def)

lemma read_ascii:
  assumes "byte c < 128" "read_string t = Some (s, rest)"
  shows "read_string ((if htmlSafe c then [c]
         else if byte c = 34 \<or> byte c = 92 then [CHR 92, c]
         else if byte c = 10 then [CHR 92, CHR ''n'']
         else if byte c = 13 then [CHR 92, CHR ''r'']
         else if byte c = 9 then [CHR 92, CHR ''t'']
         else [CHR 92, CHR ''u'', CHR ''0'', CHR ''0'', hex_digit (byte c div 16), hex_digit (byte c mod 16)]) @ t) = Some (c # s, rest)"
proof -
  have esc: "map_of escapes CHR ''n'' = Some 10"
    "map_of escapes CHR ''r'' = Some 13" "map_of escapes CHR ''t'' = Some 9" by code_simp+
  have u: "read_string ([CHR 92, CHR ''u'', CHR ''0'', CHR ''0'', hex_digit (byte c div 16), hex_digit (byte c mod 16)] @ t) = Some (c # s, rest)"
    using read_unicode [OF hex4_low] assms by (simp add: utf8_encode_def del: read_string.simps)
  have c: "byte c = k \<Longrightarrow> k < 256 \<Longrightarrow> c = char_of k" for k by auto
  consider "htmlSafe c" | "\<not> htmlSafe c" "byte c = 34 \<or> byte c = 92" | "\<not> htmlSafe c" "byte c \<in> {10, 13, 9}"
    | "\<not> htmlSafe c" "byte c \<notin> {34, 92, 10, 13, 9}" by auto
  then show ?thesis
  proof cases
    case 1
    then show ?thesis using assms by (auto simp: htmlSafe_def)
  next
    case 2
    moreover have "map_of escapes (char_of (34::nat)) = Some 34" "map_of escapes (char_of (92::nat)) = Some 92" by code_simp+
    ultimately have "map_of escapes c = Some (byte c)" using c [of 34] c [of 92] by auto
    with 2 show ?thesis using read_escape [of c "byte c" t] assms(2) by (simp del: read_string.simps)
  next
    case 3
    then show ?thesis using read_escape [OF esc(1), of t] read_escape [OF esc(2), of t] read_escape [OF esc(3), of t] assms(2) c [of 10] c [of 13] c [of 9]
      by (auto simp del: read_string.simps)
  next
    case 4
    with u show ?thesis by (simp del: read_string.simps)
  qed
qed

lemma read_separator:
  assumes "r = 0x2028 \<or> r = 0x2029"
  shows "read_string (CHR 92 # ''u202'' @ hex_digit (r mod 16) # t) = before (utf8_encode r) (read_string t)"
proof -
  have un: "unhex CHR ''0'' = Some 0" "unhex CHR ''2'' = Some 2" "unhex CHR ''8'' = Some 8" "unhex CHR ''9'' = Some 9" by code_simp+
  have hex: "hex4 ''2028'' = Some 0x2028" "hex4 ''2029'' = Some 0x2029" "hex_digit (0x2028 mod 16) = CHR ''8''" "hex_digit (0x2029 mod 16) = CHR ''9''"
    by (simp_all add: hex4_def un hex_digit_def)
  from assms show ?thesis
  proof
    assume r: "r = 0x2028"
    show ?thesis unfolding r hex(3) using read_unicode [OF hex(1)] by (simp del: read_string.simps)
  next
    assume r: "r = 0x2029"
    show ?thesis unfolding r hex(4) using read_unicode [OF hex(2)] by (simp del: read_string.simps)
  qed
qed

lemma json_body_rune:
  assumes "\<not> byte c < 128" "decode_rune (c # s) = Some (r, n)"
  shows "json_body (c # s) = (if r = 0x2028 \<or> r = 0x2029 then CHR 92 # ''u202'' @ [hex_digit (r mod 16)] else take n (c # s)) @ json_body (drop (n - 1) s)"
  using assms by (simp only: json_body.simps if_False option.case prod.case)

lemma read_rune:
  assumes "\<not> byte c < 128" "decode_rune (c # s) = Some (r, n)" "read_string (json_body (drop (n - 1) s) @ t) = Some (drop (n - 1) s, rest)"
  shows "read_string (json_body (c # s) @ t) = Some (c # s, rest)"
proof -
  note b = decode_rune_bytes [OF assms(2)]
  have join: "take n (c # s) @ drop (n - 1) s = c # s" using b by (cases n) auto
  show ?thesis
  proof (cases "r = 0x2028 \<or> r = 0x2029")
    case True
    have "take n (c # s) = utf8_encode r" using decode_rune_separator [OF assms(2) True] utf8_encode_separator [OF True] by simp
    then have "read_string (json_body (c # s) @ t) = Some (take n (c # s) @ drop (n - 1) s, rest)"
      unfolding json_body_rune [OF assms(1,2)] if_P [OF True] using read_separator [OF True] assms(3)
      by (simp del: read_string.simps take_Suc_Cons)
    then show ?thesis unfolding join .
  next
    case False
    have "read_string (json_body (c # s) @ t) = Some (take n (c # s) @ drop (n - 1) s, rest)"
      unfolding json_body_rune [OF assms(1,2)] if_not_P [OF False] append_assoc
      unfolding read_high [OF b [THEN conjunct2, THEN conjunct2]] assms(3) by (simp only: before_simps)
    then show ?thesis unfolding join .
  qed
qed

lemma read_json_body: "valid_utf8 s \<Longrightarrow> read_string (json_body s @ CHR 34 # rest) = Some (s, rest)"
proof (induction s rule: json_body.induct)
  case (2 c s)
  show ?case
  proof (cases "byte c < 128")
    case True
    then have "valid_utf8 s" using 2(4) by simp
    from read_ascii [OF True 2(1) [OF True this]] True show ?thesis by (simp del: read_string.simps)
  next
    case False
    then obtain r n where dec: "decode_rune (c # s) = Some (r, n)" "utf8_valid (n - 1) s" using 2(4) by (auto split: option.splits)
    have "n - 1 \<le> length s" using decode_rune_bytes [OF dec(1)] by auto
    with dec(2) have "valid_utf8 (drop (n - 1) s)" using utf8_valid_drop [of "n - 1" s] by simp
    from read_rune [OF False dec(1) 2(3) [OF False dec(1) refl this]] show ?thesis .
  qed
qed (simp add: byte_def)

section \<open>version.go\<close>

text \<open>The variables set at build time, and what the package \<^verbatim>\<open>runtime\<close> says of the build.\<close>

record build_vars =
  driverVersion :: string
  gitCommit :: string
  buildDate :: string

record go_runtime =
  rt_Version :: string
  rt_Compiler :: string
  rt_GOOS :: string
  rt_GOARCH :: string

record VersionInfo =
  vi_DriverVersion :: string
  vi_GitCommit :: string
  vi_BuildDate :: string
  vi_GoVersion :: string
  vi_Compiler :: string
  vi_Platform :: string

definition GetVersion :: "build_vars \<Rightarrow> go_runtime \<Rightarrow> VersionInfo" where
  "GetVersion B R = \<lparr>vi_DriverVersion = driverVersion B, vi_GitCommit = gitCommit B, vi_BuildDate = buildDate B,
     vi_GoVersion = rt_Version R, vi_Compiler = rt_Compiler R, vi_Platform = rt_GOOS R @ ''/'' @ rt_GOARCH R\<rparr>"

text \<open>The fields under the names of their tags, in the order of the struct.\<close>

definition version_fields :: "VersionInfo \<Rightarrow> (string \<times> string) list" where
  "version_fields info = [(''driverVersion'', vi_DriverVersion info), (''gitCommit'', vi_GitCommit info), (''buildDate'', vi_BuildDate info),
     (''goVersion'', vi_GoVersion info), (''compiler'', vi_Compiler info), (''platform'', vi_Platform info)]"

definition json_string :: "string \<Rightarrow> string" where
  "json_string s = CHR 34 # json_body s @ [CHR 34]"

definition json_member :: "string \<times> string \<Rightarrow> string" where
  "json_member kv = CHR 10 # ''  '' @ json_string (fst kv) @ '': '' @ json_string (snd kv)"

text \<open>\<^verbatim>\<open>json.MarshalIndent(v, "", "  ")\<close> of a struct of strings, which has no error.\<close>

definition MarshalIndent :: "(string \<times> string) list \<Rightarrow> goerr + string" where
  "MarshalIndent kvs = Inr (''{'' @ Join (map json_member kvs) '','' @ CHR 10 # ''}'')"

definition GetVersionJSON :: "build_vars \<Rightarrow> go_runtime \<Rightarrow> goerr + string" where
  "GetVersionJSON B R =
     (let info = GetVersion B R in
      case MarshalIndent (version_fields info) of Inl err \<Rightarrow> Inl err | Inr marshalled \<Rightarrow> Inr marshalled)"

section \<open>Reading the JSON back\<close>

definition skip_ws :: "string \<Rightarrow> string" where
  "skip_ws = dropWhile (\<lambda>c. byte c \<in> {32, 9, 10, 13})"

definition read_quoted :: "string \<Rightarrow> (string \<times> string) option" where
  "read_quoted s = (case skip_ws s of [] \<Rightarrow> None | c # t \<Rightarrow> if c = CHR 34 then read_string t else None)"

definition expect :: "char \<Rightarrow> string \<Rightarrow> string option" where
  "expect d s = (case skip_ws s of [] \<Rightarrow> None | c # t \<Rightarrow> if c = d then Some t else None)"

fun read_members :: "nat \<Rightarrow> string \<Rightarrow> ((string \<times> string) list \<times> string) option" where
  "read_members 0 s = None"
| "read_members (Suc k) s = do {
     (key, s1) \<leftarrow> read_quoted s;
     s2 \<leftarrow> expect CHR '':'' s1;
     (val, s3) \<leftarrow> read_quoted s2;
     (case expect CHR ''}'' s3 of
        Some rest \<Rightarrow> Some ([(key, val)], rest)
      | None \<Rightarrow> do {
          s4 \<leftarrow> expect CHR '','' s3;
          (kvs, rest) \<leftarrow> read_members k s4;
          Some ((key, val) # kvs, rest)
        })
   }"

definition read_object :: "string \<Rightarrow> ((string \<times> string) list \<times> string) option" where
  "read_object s = Option.bind (expect CHR ''{'' s) (\<lambda>t. read_members (length t) t)"

lemma skip_ws_simps [simp]:
  "skip_ws [] = []" "skip_ws (c # s) = (if byte c \<in> {32, 9, 10, 13} then skip_ws s else c # s)"
  by (simp_all add: skip_ws_def)

lemma read_quoted_json: "valid_utf8 s \<Longrightarrow> read_quoted (json_string s @ rest) = Some (s, rest)"
  using read_json_body [of s rest] by (simp add: read_quoted_def json_string_def byte_def)

lemma read_member:
  assumes "valid_utf8 (fst kv)" "valid_utf8 (snd kv)"
  shows "read_quoted (json_member kv @ t) = Some (fst kv, '': '' @ json_string (snd kv) @ t)"
    "expect CHR '':'' ('': '' @ u) = Some (CHR '' '' # u)" "read_quoted (CHR '' '' # json_string (snd kv) @ t) = Some (snd kv, t)"
proof -
  have ws: "read_quoted (c # s) = read_quoted s" if "byte c \<in> {32, 9, 10, 13}" for c s using that by (simp add: read_quoted_def)
  show "read_quoted (json_member kv @ t) = Some (fst kv, '': '' @ json_string (snd kv) @ t)"
    using read_quoted_json [OF assms(1)] ws by (simp add: json_member_def byte_def)
  show "read_quoted (CHR '' '' # json_string (snd kv) @ t) = Some (snd kv, t)"
    using read_quoted_json [OF assms(2)] ws by (simp add: byte_def)
qed (simp add: expect_def byte_def)

lemma read_members_json:
  assumes "\<forall>kv \<in> set kvs. valid_utf8 (fst kv) \<and> valid_utf8 (snd kv)" "kvs \<noteq> []" "length kvs \<le> k"
  shows "read_members k (Join (map json_member kvs) '','' @ CHR 10 # ''}'' @ rest) = Some (kvs, rest)"
  using assms
proof (induction kvs arbitrary: k)
  case (Cons kv kvs)
  then obtain k' where k: "k = Suc k'" by (cases k) auto
  have brace: "expect CHR ''}'' (CHR 10 # ''}'' @ rest) = Some rest" "expect CHR ''}'' (CHR '','' # u) = None"
    "expect CHR '','' (CHR '','' # u) = Some u" for u
    by (simp_all add: expect_def byte_def)
  have valid: "valid_utf8 (fst kv)" "valid_utf8 (snd kv)" using Cons.prems(1) by auto
  note m = read_member [OF valid]
  show ?case
  proof (cases "kvs = []")
    case True
    then show ?thesis unfolding k using m(1) [of "CHR 10 # ''}'' @ rest"] m(2) m(3) [of "CHR 10 # ''}'' @ rest"] brace by simp
  next
    case False
    let ?t = "Join (map json_member kvs) '','' @ CHR 10 # ''}'' @ rest"
    have IH: "read_members k' ?t = Some (kvs, rest)" using Cons.IH [of k'] Cons.prems False k by simp
    have "Join (map json_member (kv # kvs)) '','' = json_member kv @ '','' @ Join (map json_member kvs) '',''"
      using False by (simp add: Join_Cons)
    then show ?thesis unfolding k using m(1) [of "'','' @ ?t"] m(2) m(3) [of "'','' @ ?t"] brace IH by simp
  qed
qed simp

lemma valid_ascii: "\<forall>c \<in> set s. byte c < 128 \<Longrightarrow> valid_utf8 s"
  by (induction s) auto



end
