(* ===== verification/Spec2Isabelle.thy ===== *)
theory Spec2Isabelle
  imports PodLocks DelayedDelete Collect MountPodSpec VolumePaths Server ReconcilerLoop Recreate VolumeJobs ShellWords VersionJson
begin

text \<open>
  The JuiceFS CSI driver: a Kubernetes storage plugin that makes JuiceFS file systems available to pods.

  \<^bold>\<open>The program.\<close> One binary (cmd/main.go) runs on every node, as the node plugin, and once as the controller. The CSI
  services (pkg/driver) answer the requests of Kubernetes: the controller service creates and deletes
  volumes, which are directories of a file system; the node service publishes a volume at a target path of a workload pod and
  takes it back. Both call the provider (pkg/juicefs/juicefs.go), which reads the settings of the volume (pkg/config),
  authenticates or formats the file system with the JuiceFS command line, and mounts it through one of two implementations of
  an interface (pkg/juicefs/mount/interface.go): mount pods (pod_mount.go, with the pods, jobs and secrets built by
  pkg/juicefs/mount/builder) or processes of the driver (process_mount.go). One mount pod serves all targets of a volume on a
  node; each target is an annotation of the pod, its reference, and the pod goes with the last reference,
  possibly after a delay. A reconciler (pkg/controller) lists the node's pods through the kubelet, compares them with the mount table of the node,
  drops the references of pods that are gone, recreates deleted mount pods and binds their targets again.
  The mutexes of pkg/config, one per hash of a pod name, keep requests and reconciler from changing one pod at the same time.

  \<^bold>\<open>How it is modelled.\<close> A program is a value of the state monad over \<open>gst\<close> (theory World): the history of the calls it made with their
  answers, newest first, and the two resource maps the builder changes in place; taking and returning a lock are events. What is not in the repository answers through the record
  \<open>env\<close>, whose fields are functions of the history and the arguments: the API server, the operating system, commands,
  the clock, the order in which Go iterates over a map. A theorem without further hypothesis on \<open>env\<close> thus holds for every
  behaviour of the world, failures included. A Go function that returns an error is a sum or an option; one
  that may also panic returns an \<open>outcome\<close>. Definitions have the names of the functions they translate, \<open>pm_\<close> for process_mount.go.

  \<^item> Prelude: maps as association lists, errors, outcomes, the rule collections \<open>wp_simps\<close>, \<open>emits_intros\<close> and \<open>prog_defs\<close>.
  \<^item> GoStrings, GoHash, GoTime, GoDates, GoPath, GoUrl: the parts of Go's standard library in use, with SHA-256 and FNV-1a on 32-bit words,
    durations that wrap at 64 bits, and the civil calendar with its round trip.
  \<^item> K8sTypes, K8sClient, OsCalls: the objects of Kubernetes with the fields the driver touches; k8sclient/client.go; the calls on the node.
  \<^item> World: \<open>env\<close>, events, the monad, the weakest precondition \<open>wp\<close>, the judgement \<open>emits\<close> on which events a program can make, and
    \<open>does\<close>, a specification over the result and the events of one run.
  \<^item> ApiServer, SimEnv: what the Kubernetes API promises about pods, as a function \<open>pod_at\<close> of the history; a concrete environment
    that keeps every promise, in which the instances of the theorems are evaluated.
  \<^item> Config, Util, UtilMounts, Endpoint, Builder: pkg/config, pkg/util and pkg/juicefs/mount/builder.
  \<^item> RefTable, Poll, MntInterface: interfaces as locales. \<open>ref_table\<close> (references of a pod) and \<open>poll_loop\<close> (waiting loops)
    are interpreted on the definitions of PodMount, PodDriver and ProcessMount; \<open>mnt_interface\<close> and its extension \<open>mnt_volumes\<close>
    on both implementations of the mount interface.
  \<^item> PodMount, ProcessMount: the two implementations. Provider: juicefs.go. CsiServices: controller.go, node.go, identity.go.
  \<^item> MountInfo, PodDriver, Reconciler: pkg/controller.
  \<^item> Startup: \<^verbatim>\<open>init\<close> and \<^verbatim>\<open>main\<close> of cmd/main.go, the construction of the services and of the kubelet's client.
  \<^item> Server: the dispatch of requests in \<^verbatim>\<open>Run\<close> of driver.go, and \<^verbatim>\<open>main\<close> to its end and exit status. VersionJson: version.go.
  \<^item> NodePublish, VolumeTable, DelayedDelete, PodLocks, PodEffects, NodeSessions, Collect, Recreate, ReconcilerLoop, VolumePaths, VolumeJobs,
    MountPodSpec, ShellWords: what the components do together.

  \<^bold>\<open>What is shown.\<close>

  \<^item> References (PodMount, RefTable): a mount without an error leaves a ready mount pod that carries the target's
    reference; an unmount removes exactly that reference, and deletes or delays the deletion of the pod with the last one; no behaviour of
    the API server makes an unmount delete a pod that had a reference when it was read last. The annotations
    refine a set of keys.
  \<^item> Publishing (NodePublish, VolumePaths): a successful publication ends with the bind of the volume's own directory, with the pod in place; publication
    followed by its reversal leaves no reference; invalid requests have no effect; no publication touches more than the target,
    the mount path and the volume's directory, as long as volume ID and sub-path do not climb.
  \<^item> Sessions (PodEffects, NodeSessions): along every execution of publications, unpublications and checks of the reconciler, failed
    ones included, a published target keeps a live mount pod with its reference; and how a stale list of the kubelet breaks this.
  \<^item> Collection (Collect): two error-free rounds of the reconciler remove a mount pod that no workload uses, unless it failed for want of
    resources.
  \<^item> Recreation (Recreate): a mount pod deleted while targets use it is replaced by a live one with all references, or left for the next round;
    and the single failure after which it is lost.
  \<^item> The loop (ReconcilerLoop): which requests the reconciler that \<^verbatim>\<open>main\<close> starts makes, the pauses between them, and the one answer that ends it.
  \<^item> Volumes (VolumePaths, VolumeJobs): in process mode only the volume's directory is removed, under a mount seen in the same request;
    with formatting in pods a request succeeds only after its job was there and then completed or gone.
  \<^item> The pod that is submitted (MountPodSpec, Builder, ShellWords): its volume mounts are declared, when Kubernetes accepts its volumes, and that a
    shell reads its command as the words and options that were meant.
  \<^item> The table of volumes (MntInterface, VolumeTable): requests for other volumes leave a volume's pod alone; the controller's table
    is what its answers promised, and in which way it differs from what a client expects.
  \<^item> Concurrency (PodLocks): every run of a mount, an unmount, \<^verbatim>\<open>checkAnnotations\<close> and \<^verbatim>\<open>podErrorHandler\<close> is guarded by one lock, so
    that under every interleaving a pod is written by the owner of its lock only, and the requests never deadlock.
  \<^item> Reconciler (PodDriver, MountInfo, Reconciler): live references are kept and their pods never deleted, a reference is dead exactly
    when no pod with its UID runs, recreated pods keep the references, targets are bound again only under the guards of the code;
    the paths and records it works with are read exactly.
  \<^item> Mounts on the node (ProcessMount, Provider, UtilMounts): the unmount loop takes off all stacked mounts and ends,
    a process mount is ready when it returns and is taken off with its last reference, lines of the mount table are read exactly.
  \<^item> Secrets and resources (Provider, Builder, Util): with formatting in the pod, the commands do not depend on secret values; the
    secret and the resources are exactly those of the settings; passwords in logs are masked.
  \<^item> Start and server (Startup, Endpoint, Server, VersionJson): the configuration is consistent, no nil pod mount is called, what serving
    requires, that making way for the socket removes no other file, that the state of the server is what its answers promised, that it implements
    what it advertises, that the printed version reads back, and with which status the program ends.
  \<^item> Errors: where the code panics instead of returning an error (creation refused, job that never completes, nil pod list), and that the delayed
    deletion moves with the local time zone.

  \<^bold>\<open>Hypotheses on the world.\<close> \<open>retry_documented\<close>: client-go's \<^verbatim>\<open>RetryOnConflict\<close> calls its function again, some number of times, as long as it
  answers a conflict. \<open>finalizers_documented\<close>: controller-runtime's finalizer functions add and remove one
  finalizer. \<open>api_documented\<close>: a pod reads back as it was last written, and deletion respects finalizers. \<open>mnt_documented\<close>: these without the
  reading back. \<open>umount_documented\<close>: \<^verbatim>\<open>umount\<close> succeeds as often as mounts are stacked. \<open>range_documented\<close>: iterating over a map
  visits each entry once. The sessions are those of requests whose settings put no reference of their own among the annotations
  (\<open>plain_request\<close>). \<open>plain_comp\<close>: a name that is a single path component. \<open>quotable\<close>: a word whose only characters special to the shell are
  parentheses. \<^verbatim>\<open>Serve\<close> of gRPC (\<open>grpcServe\<close>) returns an error unless the server is stopped. The YAML and JSON decoders are
  the parameter \<open>decoders\<close>, client-go's construction of clients the parameter \<open>cluster\<close>. SimEnv and the witnesses
  instantiate all of them.

  \<^bold>\<open>Bounds.\<close> The loops of the code with a counter have that counter: 120 attempts to create or recreate a pod, 60 reads of a starting pod or
  of a job, 30 of a process mount, 120 of a pod being deleted. \<^verbatim>\<open>JfsUnmount\<close> loops until \<^verbatim>\<open>umount\<close> fails: \<open>umount_loop\<close> has fuel,
  running out is \<open>None\<close>, and one unit more than there are stacked mounts is enough. \<^verbatim>\<open>doReconcile\<close> never returns; \<open>doReconcile n\<close>
  is its first \<open>n\<close> rounds.

  \<^bold>\<open>Concurrency.\<close> In PodLocks a goroutine is the list of the events of one run, and any number of them take steps in any order, with
  a lock step only when the lock is free. \<^verbatim>\<open>podDeletedHandler\<close> is not among them: it takes the finalizer off before it takes
  the lock. \<^verbatim>\<open>doWithinTime\<close>, whose work goes on after the timeout, is a call whose result may be replaced by the
  timeout. The goroutine of a process mount is the event that starts it.

  \<^bold>\<open>Not modelled.\<close> The gRPC library behind \<^verbatim>\<open>Serve\<close>, whose answer is a parameter, and behind \<^verbatim>\<open>Stop\<close> of driver.go, which the program never
  calls. Of the request to the kubelet, the transport (\<open>o_http_get\<close>) and the JSON decoder (\<open>x_pod_list\<close>) are answers of the environment. Log messages. fakes.go and the generated mocks: test doubles. Records keep of the Kubernetes objects only the fields the driver reads or
  writes.
\<close>

end
